theory Spec2Isabelle
  imports Main "HOL-Library.Word" "HOL-Library.Multiset"
begin

section \<open>The job scaling executor of KEDA (pkg/scaling/executor/scale_jobs.go)\<close>

text \<open>
  The executor creates Kubernetes jobs for a \<open>ScaledJob\<close> and prunes the finished ones.
  It talks to the cluster through a client (List, Create, Delete) that lives outside the
  file, so the client is a parameter of the model. The cluster is a state of an arbitrary
  type \<open>'s\<close>; every client call takes the state and returns the new one, and the model
  records each call it issues in a trace, so that "how many creates were attempted" and
  "which deletes were issued, in which order" are statements about the trace.
  Log calls have no effect on what is verified here and are left out.
\<close>

subsection \<open>Machine integers, time, errors\<close>

text \<open>
  Go's \<open>int64\<close> and \<open>int32\<close> are words read as two's complement (\<open>sint\<close>); \<open>+\<close> and
  \<open>-\<close> wrap. Go's \<open>int\<close> is taken to be 64 bits wide, as on the platforms the operator is
  built for; \<open>len(jobs) - int(historyLimit)\<close> cannot leave that range (a slice has fewer
  than \<open>2^63 - 2^31\<close> elements), so it is computed in \<open>int\<close>.
  A \<open>metav1.Time\<close> is an instant; only the order of instants matters.
\<close>

type_synonym int64 = "64 word"
type_synonym int32 = "32 word"
type_synonym Time = int

datatype error = Error string

datatype panic = SliceBoundsOutOfRange

definition defaultSuccessfulJobsHistoryLimit :: int32 where
  "defaultSuccessfulJobsHistoryLimit = 100"

definition defaultFailedJobsHistoryLimit :: int32 where
  "defaultFailedJobsHistoryLimit = 100"

text \<open>The string constants of k8s.io/api that the file compares against.\<close>

definition JobComplete :: string where
  "JobComplete = ''Complete''"

definition JobFailed :: string where
  "JobFailed = ''Failed''"

definition ConditionTrue :: string where
  "ConditionTrue = ''True''"

definition RestartPolicyOnFailure :: string where
  "RestartPolicyOnFailure = ''OnFailure''"

subsection \<open>Kubernetes objects\<close>

text \<open>
  Only the fields the file reads or writes are named; \<open>Containers\<close> and \<open>BackoffLimit\<close>
  stand for the rest of a pod and job specification. A Go map is \<open>None\<close> when it is nil.
  \<open>CompletionTime\<close> is a pointer in Go: \<open>None\<close> when the cluster has not set it.
\<close>

record JobCondition =
  cond_Type :: string
  cond_Status :: string

record PodSpec =
  RestartPolicy :: string
  Containers :: "string list"

record PodTemplateSpec =
  tpl_GenerateName :: string
  tpl_Labels :: "(string \<rightharpoonup> string) option"
  tpl_Spec :: PodSpec

record JobSpec =
  Template :: PodTemplateSpec
  BackoffLimit :: "int32 option"

record JobStatus =
  Conditions :: "JobCondition list"
  CompletionTime :: "Time option"

record OwnerReference =
  ref_Kind :: string
  ref_Name :: string
  ref_Controller :: bool

record Job =
  job_Name :: string
  job_GenerateName :: string
  job_Namespace :: string
  job_Labels :: "(string \<rightharpoonup> string) option"
  job_OwnerReferences :: "OwnerReference list"
  job_Spec :: JobSpec
  job_Status :: JobStatus

text \<open>
  \<open>Spec.JobTargetRef\<close> of a ScaledJob is a pointer to a \<open>JobSpec\<close> that the resource
  definition requires; it is modelled as present. The history limits are optional
  (\<open>*int32\<close>).
\<close>

record ScaledJob =
  sj_Name :: string
  sj_Namespace :: string
  JobTargetRef :: JobSpec
  SuccessfulJobsHistoryLimit :: "int32 option"
  FailedJobsHistoryLimit :: "int32 option"
  LastActiveTime :: "Time option"

text \<open>The zero value of a \<open>Job\<close>: what freshly allocated memory holds.\<close>

definition zeroJob :: Job where
  "zeroJob = \<lparr> job_Name = [], job_GenerateName = [], job_Namespace = [], job_Labels = None,
     job_OwnerReferences = [],
     job_Spec = \<lparr> Template = \<lparr> tpl_GenerateName = [], tpl_Labels = None,
                   tpl_Spec = \<lparr> RestartPolicy = [], Containers = [] \<rparr> \<rparr>,
                 BackoffLimit = None \<rparr>,
     job_Status = \<lparr> Conditions = [], CompletionTime = None \<rparr> \<rparr>"

text \<open>
  Objects are values here, so a deep copy of an object is the object: a later update of
  the copy is an update of a different value. The one object the file mutates through a
  pointer that its caller keeps is the \<open>ScaledJob\<close>; \<open>createJobs\<close> and \<open>RequestJobScale\<close>
  therefore return the updated \<open>ScaledJob\<close>. Which cells the objects share in memory
  is the subject of the store model of \<open>createJobs\<close> further down.
\<close>

definition DeepCopy :: "JobSpec \<Rightarrow> JobSpec" where
  "DeepCopy spec = spec"

definition DeepCopyObject :: "Job \<Rightarrow> Job" where
  "DeepCopyObject j = j"

subsection \<open>Go slices\<close>

text \<open>
  A slice is a window on a backing array: \<open>elems\<close> are its \<open>len\<close> elements, \<open>spare\<close> the
  elements of the backing array behind them, up to the capacity. The Go specification
  bounds a slice expression \<open>s[0:h]\<close> on a slice by the capacity, not by the length
  ("For slices, the upper index bound is the slice capacity cap(a) rather than the
  length"): it panics when \<open>h\<close> is negative or exceeds \<open>cap(s)\<close>, and otherwise yields the
  first \<open>h\<close> elements of the backing array.
\<close>

record 'a slice =
  elems :: "'a list"
  spare :: "'a list"

definition len :: "'a slice \<Rightarrow> nat" where
  "len s = length (elems s)"

definition cap :: "'a slice \<Rightarrow> nat" where
  "cap s = length (elems s) + length (spare s)"

definition emptySlice :: "'a slice" where
  "emptySlice = \<lparr> elems = [], spare = [] \<rparr>"

definition slice_upto :: "'a slice \<Rightarrow> int \<Rightarrow> panic + 'a list" where
  "slice_upto s h =
     (if 0 \<le> h \<and> h \<le> int (cap s) then Inr (take (nat h) (elems s @ spare s))
      else Inl SliceBoundsOutOfRange)"

text \<open>
  \<open>append(s, x)\<close> writes into the spare capacity when there is some; otherwise the
  runtime allocates a larger, zeroed backing array. How much larger is the runtime's
  choice: \<open>grow n\<close> is the capacity it allocates when \<open>n\<close> elements are needed (at least
  \<open>n\<close>; the subtraction on \<open>nat\<close> stops at no spare capacity otherwise).
\<close>

definition append_slice :: "(nat \<Rightarrow> nat) \<Rightarrow> 'a \<Rightarrow> 'a slice \<Rightarrow> 'a \<Rightarrow> 'a slice" where
  "append_slice grow zero s x =
     (case spare s of
        [] \<Rightarrow> \<lparr> elems = elems s @ [x],
                spare = replicate (grow (Suc (len s)) - Suc (len s)) zero \<rparr>
      | y # ys \<Rightarrow> \<lparr> elems = elems s @ [x], spare = ys \<rparr>)"

subsection \<open>The client, the runtime and the executor\<close>

datatype call =
    ListCall string "(string \<times> string) list"
  | CreateCall Job
  | DeleteCall Job

record 's world =
  remote :: 's
  trace :: "call list"

text \<open>
  What the executor is given: the three client calls (each may fail and may change the
  cluster), \<open>updateLastActiveTime\<close> (a method of the executor defined in another file: it
  persists the status and may refresh the object), \<open>controllerutil.SetControllerReference\<close>
  (it fails, or yields the owner references of the job), \<open>sort.Sort\<close> (given the \<open>Less\<close>
  of the sorted type, it reorders the elements by swaps), the growth policy of \<open>append\<close>,
  the version string and the clock.
\<close>

record 's scaleExecutor =
  c_List :: "'s \<Rightarrow> string \<Rightarrow> (string \<times> string) list \<Rightarrow> (error + Job list) \<times> 's"
  c_Create :: "'s \<Rightarrow> Job \<Rightarrow> error option \<times> 's"
  c_Delete :: "'s \<Rightarrow> Job \<Rightarrow> error option \<times> 's"
  updateLastActiveTime :: "'s \<Rightarrow> ScaledJob \<Rightarrow> ScaledJob \<times> 's"
  SetControllerReference :: "ScaledJob \<Rightarrow> Job \<Rightarrow> error + OwnerReference list"
  sort_Sort :: "(Job list \<Rightarrow> nat \<Rightarrow> nat \<Rightarrow> bool) \<Rightarrow> Job list \<Rightarrow> Job list"
  growslice :: "nat \<Rightarrow> nat"
  version_Version :: string
  metav1_Now :: "'s \<Rightarrow> Time"

definition client_List ::
  "'s scaleExecutor \<Rightarrow> 's world \<Rightarrow> string \<Rightarrow> (string \<times> string) list \<Rightarrow> (error + Job list) \<times> 's world" where
  "client_List e w ns sel =
     (case c_List e (remote w) ns sel of
        (r, s') \<Rightarrow> (r, \<lparr> remote = s', trace = trace w @ [ListCall ns sel] \<rparr>))"

definition client_Create :: "'s scaleExecutor \<Rightarrow> 's world \<Rightarrow> Job \<Rightarrow> error option \<times> 's world" where
  "client_Create e w job =
     (case c_Create e (remote w) job of
        (r, s') \<Rightarrow> (r, \<lparr> remote = s', trace = trace w @ [CreateCall job] \<rparr>))"

definition client_Delete :: "'s scaleExecutor \<Rightarrow> 's world \<Rightarrow> Job \<Rightarrow> error option \<times> 's world" where
  "client_Delete e w job =
     (case c_Delete e (remote w) job of
        (r, s') \<Rightarrow> (r, \<lparr> remote = s', trace = trace w @ [DeleteCall job] \<rparr>))"

text \<open>The calls issued between two worlds, and the jobs they created or deleted.\<close>

definition issued :: "'s world \<Rightarrow> 's world \<Rightarrow> call list" where
  "issued w w' = drop (length (trace w)) (trace w')"

fun created :: "call list \<Rightarrow> Job list" where
  "created [] = []"
| "created (CreateCall j # cs) = j # created cs"
| "created (c # cs) = created cs"

fun deleted :: "call list \<Rightarrow> Job list" where
  "deleted [] = []"
| "deleted (DeleteCall j # cs) = j # deleted cs"
| "deleted (c # cs) = deleted cs"

subsection \<open>isJobFinished, getFinishedJobConditionType, getRunningJobCount\<close>

fun isFinished_conds :: "JobCondition list \<Rightarrow> bool" where
  "isFinished_conds [] = False"
| "isFinished_conds (c # cs) =
     (if (cond_Type c = JobComplete \<or> cond_Type c = JobFailed) \<and> cond_Status c = ConditionTrue
      then True else isFinished_conds cs)"

definition isJobFinished :: "Job \<Rightarrow> bool" where
  "isJobFinished j = isFinished_conds (Conditions (job_Status j))"

fun finishedType_conds :: "JobCondition list \<Rightarrow> string" where
  "finishedType_conds [] = []"
| "finishedType_conds (c # cs) =
     (if (cond_Type c = JobComplete \<or> cond_Type c = JobFailed) \<and> cond_Status c = ConditionTrue
      then cond_Type c else finishedType_conds cs)"

definition getFinishedJobConditionType :: "Job \<Rightarrow> string" where
  "getFinishedJobConditionType j = finishedType_conds (Conditions (job_Status j))"

text \<open>The loop of \<open>getRunningJobCount\<close>: \<open>runningJobs++\<close> for every job that is not finished.\<close>

fun countRunning :: "Job list \<Rightarrow> int64 \<Rightarrow> int64" where
  "countRunning [] runningJobs = runningJobs"
| "countRunning (job # jobs) runningJobs =
     countRunning jobs (if \<not> isJobFinished job then runningJobs + 1 else runningJobs)"

definition selector :: "ScaledJob \<Rightarrow> (string \<times> string) list" where
  "selector scaledJob = [(''scaledjob'', sj_Name scaledJob)]"

definition getRunningJobCount ::
  "'s scaleExecutor \<Rightarrow> ScaledJob \<Rightarrow> int64 \<Rightarrow> 's world \<Rightarrow> int64 \<times> 's world" where
  "getRunningJobCount e scaledJob maxScale w =
     (case client_List e w (sj_Namespace scaledJob) (selector scaledJob) of
        (Inl err, w') \<Rightarrow> (0, w')
      | (Inr items, w') \<Rightarrow> (countRunning items 0, w'))"

subsection \<open>createJobs\<close>

text \<open>Lines 55 to 59: the identity of the target's template is set on the target itself.\<close>

definition stampTemplate :: "ScaledJob \<Rightarrow> ScaledJob" where
  "stampTemplate scaledJob =
     (let tpl = Template (JobTargetRef scaledJob);
          labels = (case tpl_Labels tpl of None \<Rightarrow> Map.empty | Some m \<Rightarrow> m)
      in scaledJob \<lparr> JobTargetRef := (JobTargetRef scaledJob) \<lparr> Template :=
           tpl \<lparr> tpl_GenerateName := sj_Name scaledJob @ ''-'',
                 tpl_Labels := Some (labels(''scaledjob'' \<mapsto> sj_Name scaledJob)) \<rparr> \<rparr> \<rparr>)"

text \<open>Lines 70 to 83: the job literal.\<close>

definition newJob :: "'s scaleExecutor \<Rightarrow> ScaledJob \<Rightarrow> Job" where
  "newJob e scaledJob =
     \<lparr> job_Name = [],
       job_GenerateName = sj_Name scaledJob @ ''-'',
       job_Namespace = sj_Namespace scaledJob,
       job_Labels = Some [''app.kubernetes.io/name'' \<mapsto> sj_Name scaledJob,
                          ''app.kubernetes.io/version'' \<mapsto> version_Version e,
                          ''app.kubernetes.io/part-of'' \<mapsto> sj_Name scaledJob,
                          ''app.kubernetes.io/managed-by'' \<mapsto> ''keda-operator'',
                          ''scaledjob'' \<mapsto> sj_Name scaledJob],
       job_OwnerReferences = [],
       job_Spec = DeepCopy (JobTargetRef scaledJob),
       job_Status = \<lparr> Conditions = [], CompletionTime = None \<rparr> \<rparr>"

definition setRestartPolicy :: "Job \<Rightarrow> string \<Rightarrow> Job" where
  "setRestartPolicy job p =
     job \<lparr> job_Spec := (job_Spec job) \<lparr> Template := (Template (job_Spec job))
       \<lparr> tpl_Spec := (tpl_Spec (Template (job_Spec job))) \<lparr> RestartPolicy := p \<rparr> \<rparr> \<rparr> \<rparr>"

text \<open>Lines 70 to 96: the job as it is handed to \<open>client.Create\<close>.\<close>

definition buildJob :: "'s scaleExecutor \<Rightarrow> ScaledJob \<Rightarrow> Job" where
  "buildJob e scaledJob =
     (let job = newJob e scaledJob;
          job1 = (if RestartPolicy (tpl_Spec (Template (job_Spec job))) = []
                  then setRestartPolicy job RestartPolicyOnFailure else job)
      in case SetControllerReference e scaledJob job1 of
           Inl err \<Rightarrow> job1
         | Inr refs \<Rightarrow> job1 \<lparr> job_OwnerReferences := refs \<rparr>)"

text \<open>
  The loop \<open>for i := 0; i < int(scaleTo); i++\<close>, by the number of iterations left.
  A failed create is logged and the loop goes on.
\<close>

fun createJobs_loop :: "'s scaleExecutor \<Rightarrow> ScaledJob \<Rightarrow> nat \<Rightarrow> 's world \<Rightarrow> 's world" where
  "createJobs_loop e scaledJob 0 w = w"
| "createJobs_loop e scaledJob (Suc n) w =
     (case client_Create e w (buildJob e scaledJob) of
        (err, w') \<Rightarrow> createJobs_loop e scaledJob n w')"

definition createJobs ::
  "'s scaleExecutor \<Rightarrow> ScaledJob \<Rightarrow> int64 \<Rightarrow> int64 \<Rightarrow> 's world \<Rightarrow> ScaledJob \<times> 's world" where
  "createJobs e scaledJob scaleTo maxScale w =
     (let scaledJob' = stampTemplate scaledJob;
          scaleTo' = (if sint maxScale < sint scaleTo then maxScale else scaleTo)
      in (scaledJob', createJobs_loop e scaledJob' (nat (sint scaleTo')) w))"

subsection \<open>cleanUp and deleteJobsWithHistoryLimit\<close>

text \<open>
  \<open>metav1.Time.Before\<close> on two pointers: false when either is nil, the order of the
  instants otherwise.
\<close>

definition Before :: "Time option \<Rightarrow> Time option \<Rightarrow> bool" where
  "Before t u = (case (t, u) of (Some a, Some b) \<Rightarrow> a < b | _ \<Rightarrow> False)"

definition completedBefore :: "Job \<Rightarrow> Job \<Rightarrow> bool" where
  "completedBefore a b = Before (CompletionTime (job_Status a)) (CompletionTime (job_Status b))"

definition byCompletedTime_Less :: "Job list \<Rightarrow> nat \<Rightarrow> nat \<Rightarrow> bool" where
  "byCompletedTime_Less c i j = completedBefore (c ! i) (c ! j)"

text \<open>\<open>sort.Sort(byCompletedTime(jobs))\<close> reorders the \<open>len\<close> elements in place.\<close>

definition sortJobs :: "'s scaleExecutor \<Rightarrow> Job slice \<Rightarrow> Job slice" where
  "sortJobs e jobs = jobs \<lparr> elems := sort_Sort e byCompletedTime_Less (elems jobs) \<rparr>"


text \<open>The loop of lines 159 to 167 over \<open>jobs.Items\<close>.\<close>

fun classify :: "(nat \<Rightarrow> nat) \<Rightarrow> Job list \<Rightarrow> Job slice \<Rightarrow> Job slice \<Rightarrow> Job slice \<times> Job slice" where
  "classify grow [] completedJobs failedJobs = (completedJobs, failedJobs)"
| "classify grow (job # jobs) completedJobs failedJobs =
     (let finishedJobConditionType = getFinishedJobConditionType job
      in if finishedJobConditionType = JobComplete
           then classify grow jobs (append_slice grow zeroJob completedJobs job) failedJobs
         else if finishedJobConditionType = JobFailed
           then classify grow jobs completedJobs (append_slice grow zeroJob failedJobs job)
         else classify grow jobs completedJobs failedJobs)"

text \<open>The loop of \<open>deleteJobsWithHistoryLimit\<close>: the first failed delete returns its error.\<close>

fun deleteJobs_loop :: "'s scaleExecutor \<Rightarrow> Job list \<Rightarrow> 's world \<Rightarrow> error option \<times> 's world" where
  "deleteJobs_loop e [] w = (None, w)"
| "deleteJobs_loop e (j # js) w =
     (case client_Delete e w (DeepCopyObject j) of
        (Some err, w') \<Rightarrow> (Some err, w')
      | (None, w') \<Rightarrow> deleteJobs_loop e js w')"

definition deleteJobsWithHistoryLimit ::
  "'s scaleExecutor \<Rightarrow> Job slice \<Rightarrow> int32 \<Rightarrow> 's world \<Rightarrow> (panic + error option) \<times> 's world" where
  "deleteJobsWithHistoryLimit e jobs historyLimit w =
     (if int (len jobs) \<le> sint historyLimit then (Inr None, w)
      else
        let deleteJobLength = int (len jobs) - sint historyLimit
        in case slice_upto jobs deleteJobLength of
             Inl p \<Rightarrow> (Inl p, w)
           | Inr batch \<Rightarrow> (case deleteJobs_loop e batch w of (r, w') \<Rightarrow> (Inr r, w')))"

definition successfulLimit :: "ScaledJob \<Rightarrow> int32" where
  "successfulLimit scaledJob =
     (case SuccessfulJobsHistoryLimit scaledJob of
        None \<Rightarrow> defaultSuccessfulJobsHistoryLimit | Some l \<Rightarrow> l)"

definition failedLimit :: "ScaledJob \<Rightarrow> int32" where
  "failedLimit scaledJob =
     (case FailedJobsHistoryLimit scaledJob of
        None \<Rightarrow> defaultFailedJobsHistoryLimit | Some l \<Rightarrow> l)"

definition cleanUp ::
  "'s scaleExecutor \<Rightarrow> ScaledJob \<Rightarrow> 's world \<Rightarrow> (panic + error option) \<times> 's world" where
  "cleanUp e scaledJob w =
     (case client_List e w (sj_Namespace scaledJob) (selector scaledJob) of
        (Inl err, w1) \<Rightarrow> (Inr (Some err), w1)
      | (Inr items, w1) \<Rightarrow>
          (case classify (growslice e) items emptySlice emptySlice of
             (completedJobs, failedJobs) \<Rightarrow>
               (case deleteJobsWithHistoryLimit e (sortJobs e completedJobs)
                       (successfulLimit scaledJob) w1 of
                  (Inl p, w2) \<Rightarrow> (Inl p, w2)
                | (Inr (Some err), w2) \<Rightarrow> (Inr (Some err), w2)
                | (Inr None, w2) \<Rightarrow>
                    deleteJobsWithHistoryLimit e (sortJobs e failedJobs)
                      (failedLimit scaledJob) w2)))"

subsection \<open>RequestJobScale\<close>

text \<open>Lines 30 to 34 of \<open>RequestJobScale\<close>.\<close>

definition effectiveMaxScale :: "int64 \<Rightarrow> int64 \<Rightarrow> int64" where
  "effectiveMaxScale maxScale runningJobCount =
     (let e = maxScale - runningJobCount in if sint e < 0 then 0 else e)"

text \<open>
  The function returns nothing; the model returns the panic of \<open>cleanUp\<close> if there was
  one (its error is only logged), the \<open>ScaledJob\<close> as the caller's pointer sees it
  afterwards, and the world.
\<close>

definition RequestJobScale ::
  "'s scaleExecutor \<Rightarrow> ScaledJob \<Rightarrow> bool \<Rightarrow> int64 \<Rightarrow> int64 \<Rightarrow> 's world
     \<Rightarrow> panic option \<times> ScaledJob \<times> 's world" where
  "RequestJobScale e scaledJob isActive scaleTo maxScale w =
     (case getRunningJobCount e scaledJob maxScale w of
        (runningJobCount, w1) \<Rightarrow>
          (case (if isActive
                 then (case updateLastActiveTime e (remote w1)
                              (scaledJob \<lparr> LastActiveTime := Some (metav1_Now e (remote w1)) \<rparr>) of
                         (scaledJob1, s2) \<Rightarrow>
                           createJobs e scaledJob1 scaleTo
                             (effectiveMaxScale maxScale runningJobCount) (w1 \<lparr> remote := s2 \<rparr>))
                 else (scaledJob, w1)) of
             (scaledJob2, w2) \<Rightarrow>
               (case cleanUp e scaledJob2 w2 of
                  (Inl p, w3) \<Rightarrow> (Some p, scaledJob2, w3)
                | (Inr err, w3) \<Rightarrow> (None, scaledJob2, w3))))"

subsection \<open>createJobs on a store of objects\<close>

text \<open>
  In Go the template of the target and the specification of a job are objects that hold
  references: the label map, the container slice and the pointer \<open>BackoffLimit\<close>. Whether
  a write through one object shows in another depends on the cells they share, which
  values cannot tell. This second model of \<open>createJobs\<close> runs on a store of cells: a
  \<open>JobSpec\<close> object holds its plain fields and the addresses of its map, slice and
  integer cells (\<open>None\<close> is \<open>nil\<close>). Only the specifications live in the store: the rest of
  the job literal is built from strings and from a map of its own on each iteration.
\<close>

type_synonym addr = nat

record SpecObj =
  o_GenerateName :: string
  o_Labels :: "addr option"
  o_RestartPolicy :: string
  o_Containers :: "addr option"
  o_BackoffLimit :: "addr option"

datatype cell = SpecCell SpecObj | MapCell "string \<rightharpoonup> string" | SliceCell "string list"
  | IntCell int32

record store =
  cells :: "addr \<rightharpoonup> cell"
  next_addr :: addr

text \<open>A composite literal, \<open>new\<close> and \<open>make\<close> take the next unused address.\<close>

definition alloc :: "store \<Rightarrow> cell \<Rightarrow> addr \<times> store" where
  "alloc h c = (next_addr h, \<lparr> cells = (cells h)(next_addr h \<mapsto> c), next_addr = Suc (next_addr h) \<rparr>)"

text \<open>
  An assignment through a pointer, to a field of an object, to an entry of a map or to an
  element of a slice replaces the contents of one cell.
\<close>

definition writeCell :: "store \<Rightarrow> addr \<Rightarrow> cell \<Rightarrow> store" where
  "writeCell h a c = h \<lparr> cells := (cells h)(a \<mapsto> c) \<rparr>"

definition zeroSpecObj :: SpecObj where
  "zeroSpecObj = \<lparr> o_GenerateName = [], o_Labels = None, o_RestartPolicy = [],
                   o_Containers = None, o_BackoffLimit = None \<rparr>"

definition specObj :: "store \<Rightarrow> addr \<Rightarrow> SpecObj" where
  "specObj h p = (case cells h p of Some (SpecCell s) \<Rightarrow> s | _ \<Rightarrow> zeroSpecObj)"

definition mapAt :: "store \<Rightarrow> addr \<Rightarrow> (string \<rightharpoonup> string)" where
  "mapAt h a = (case cells h a of Some (MapCell m) \<Rightarrow> m | _ \<Rightarrow> Map.empty)"

definition sliceAt :: "store \<Rightarrow> addr \<Rightarrow> string list" where
  "sliceAt h a = (case cells h a of Some (SliceCell l) \<Rightarrow> l | _ \<Rightarrow> [])"

definition intAt :: "store \<Rightarrow> addr \<Rightarrow> int32" where
  "intAt h a = (case cells h a of Some (IntCell i) \<Rightarrow> i | _ \<Rightarrow> 0)"

text \<open>
  \<open>JobSpec.DeepCopy\<close> is generated code of k8s.io/api, outside this file. By its contract
  the copy has the plain fields of the original and, for each map, slice and pointer of
  the original that is not nil, a new cell with the same contents. \<open>createJobs\<close>
  dereferences the pointer it gets at once (\<open>*scaledJob.Spec.JobTargetRef.DeepCopy()\<close>),
  so the copy is returned here as the value of the object.
\<close>

definition copyRef :: "store \<Rightarrow> addr option \<Rightarrow> addr option \<times> store" where
  "copyRef h r =
     (case r of
        None \<Rightarrow> (None, h)
      | Some a \<Rightarrow> (case cells h a of
                     None \<Rightarrow> (None, h)
                   | Some c \<Rightarrow> (case alloc h c of (a', h') \<Rightarrow> (Some a', h'))))"

definition DeepCopy_st :: "store \<Rightarrow> SpecObj \<Rightarrow> SpecObj \<times> store" where
  "DeepCopy_st h s =
     (case copyRef h (o_Labels s) of (l, h1) \<Rightarrow>
      case copyRef h1 (o_Containers s) of (c, h2) \<Rightarrow>
      case copyRef h2 (o_BackoffLimit s) of (b, h3) \<Rightarrow>
        (s \<lparr> o_Labels := l, o_Containers := c, o_BackoffLimit := b \<rparr>, h3))"

text \<open>
  Lines 55 to 59, with \<open>p\<close> the address of \<open>scaledJob.Spec.JobTargetRef\<close> and \<open>name\<close> the
  result of \<open>scaledJob.GetName()\<close>: the three writes go to the object of the target and to
  its label map.
\<close>

definition stampTemplate_st :: "store \<Rightarrow> addr \<Rightarrow> string \<Rightarrow> store" where
  "stampTemplate_st h p name =
     (let h1 = writeCell h p (SpecCell ((specObj h p) \<lparr> o_GenerateName := name @ ''-'' \<rparr>));
          h2 = (case o_Labels (specObj h1 p) of
                  None \<Rightarrow> (case alloc h1 (MapCell Map.empty) of
                             (a, h') \<Rightarrow> writeCell h' p (SpecCell ((specObj h' p) \<lparr> o_Labels := Some a \<rparr>)))
                | Some a \<Rightarrow> h1)
      in case o_Labels (specObj h2 p) of
           None \<Rightarrow> h2
         | Some a \<Rightarrow> writeCell h2 a (MapCell ((mapAt h2 a)(''scaledjob'' \<mapsto> name))))"

text \<open>
  Lines 70 to 90: the job literal allocates the job, whose \<open>Spec\<close> is the copy, and line 89
  writes the restart policy into the job.
\<close>

definition newJob_st :: "store \<Rightarrow> addr \<Rightarrow> addr \<times> store" where
  "newJob_st h p =
     (case DeepCopy_st h (specObj h p) of (s, h1) \<Rightarrow>
      case alloc h1 (SpecCell s) of (job, h2) \<Rightarrow>
        (job, if o_RestartPolicy (specObj h2 job) = []
              then writeCell h2 job (SpecCell ((specObj h2 job) \<lparr> o_RestartPolicy := RestartPolicyOnFailure \<rparr>))
              else h2))"

text \<open>The loop, returning the addresses of the jobs handed to Create, in that order.\<close>

fun createJobs_loop_st :: "store \<Rightarrow> addr \<Rightarrow> nat \<Rightarrow> addr list \<times> store" where
  "createJobs_loop_st h p 0 = ([], h)"
| "createJobs_loop_st h p (Suc n) =
     (case newJob_st h p of (job, h1) \<Rightarrow>
      case createJobs_loop_st h1 p n of (jobs, h2) \<Rightarrow> (job # jobs, h2))"

definition createJobs_st :: "store \<Rightarrow> addr \<Rightarrow> string \<Rightarrow> int64 \<Rightarrow> int64 \<Rightarrow> addr list \<times> store" where
  "createJobs_st h p name scaleTo maxScale =
     (let h1 = stampTemplate_st h p name;
          scaleTo' = (if sint maxScale < sint scaleTo then maxScale else scaleTo)
      in createJobs_loop_st h1 p (nat (sint scaleTo')))"

text \<open>The \<open>JobSpec\<close> value that the object at an address stands for.\<close>

definition specAt :: "store \<Rightarrow> addr \<Rightarrow> JobSpec" where
  "specAt h p =
     (let s = specObj h p in
      \<lparr> Template = \<lparr> tpl_GenerateName = o_GenerateName s,
                     tpl_Labels = map_option (mapAt h) (o_Labels s),
                     tpl_Spec = \<lparr> RestartPolicy = o_RestartPolicy s,
                                  Containers = (case o_Containers s of None \<Rightarrow> []
                                                | Some a \<Rightarrow> sliceAt h a) \<rparr> \<rparr>,
        BackoffLimit = map_option (intAt h) (o_BackoffLimit s) \<rparr>)"

text \<open>
  The cells a specification consists of: the object and the cells it refers to. To mutate
  the specification is to write to one of them.
\<close>

definition refs :: "SpecObj \<Rightarrow> addr set" where
  "refs s = set_option (o_Labels s) \<union> set_option (o_Containers s) \<union> set_option (o_BackoffLimit s)"

definition reach :: "store \<Rightarrow> addr \<Rightarrow> addr set" where
  "reach h p = insert p (refs (specObj h p))"

text \<open>
  The stores a Go program can be in: nothing lives at an address that was not handed
  out, and the references of an object lead to cells of their type.
\<close>

definition allocated :: "store \<Rightarrow> bool" where
  "allocated h = (dom (cells h) \<subseteq> {..< next_addr h})"

definition holdsMap :: "store \<Rightarrow> addr option \<Rightarrow> bool" where
  "holdsMap h r = (case r of None \<Rightarrow> True
                   | Some a \<Rightarrow> (case cells h a of Some (MapCell m) \<Rightarrow> True | _ \<Rightarrow> False))"

definition holdsSlice :: "store \<Rightarrow> addr option \<Rightarrow> bool" where
  "holdsSlice h r = (case r of None \<Rightarrow> True
                     | Some a \<Rightarrow> (case cells h a of Some (SliceCell l) \<Rightarrow> True | _ \<Rightarrow> False))"

definition holdsInt :: "store \<Rightarrow> addr option \<Rightarrow> bool" where
  "holdsInt h r = (case r of None \<Rightarrow> True
                   | Some a \<Rightarrow> (case cells h a of Some (IntCell i) \<Rightarrow> True | _ \<Rightarrow> False))"

definition wellTyped :: "store \<Rightarrow> addr \<Rightarrow> bool" where
  "wellTyped h p =
     (case cells h p of
        Some (SpecCell s) \<Rightarrow>
          holdsMap h (o_Labels s) \<and> holdsSlice h (o_Containers s) \<and> holdsInt h (o_BackoffLimit s)
      | _ \<Rightarrow> False)"

subsection \<open>The two finished-outcome classes\<close>

text \<open>
  \<open>cleanUp\<close> puts a listed job into \<open>completedJobs\<close> or \<open>failedJobs\<close> by the type that
  \<open>getFinishedJobConditionType\<close> returns.
\<close>

definition isCompleted :: "Job \<Rightarrow> bool" where
  "isCompleted j = (getFinishedJobConditionType j = JobComplete)"

definition isFailed :: "Job \<Rightarrow> bool" where
  "isFailed j = (getFinishedJobConditionType j = JobFailed)"

text \<open>
  A cluster refuses unnamed objects when no state of it accepts the delete of the
  zero-valued job (the Kubernetes API refuses a delete without a resource name).
\<close>

definition refusesUnnamed :: "'s scaleExecutor \<Rightarrow> bool" where
  "refusesUnnamed e = (\<forall>s. fst (c_Delete e s zeroJob) \<noteq> None)"

subsection \<open>An executor to run the model on\<close>

text \<open>
  A small cluster for the concrete runs below: its state is the list of jobs it holds;
  List returns them, Create adds a job, Delete removes the job of that name and refuses
  an object without a name. \<open>sort.Sort\<close> is an insertion sort through \<open>Less\<close> (which is
  what the library runs on short slices) and \<open>append\<close> doubles the capacity.
\<close>

definition mkJob :: "string \<Rightarrow> string \<Rightarrow> Time option \<Rightarrow> Job" where
  "mkJob name typ t =
     zeroJob \<lparr> job_Name := name,
               job_Status := \<lparr> Conditions = (if typ = [] then []
                                  else [\<lparr> cond_Type = typ, cond_Status = ConditionTrue \<rparr>]),
                               CompletionTime = t \<rparr> \<rparr>"

fun bubbleBack :: "(Job list \<Rightarrow> nat \<Rightarrow> nat \<Rightarrow> bool) \<Rightarrow> Job \<Rightarrow> Job list \<Rightarrow> Job list" where
  "bubbleBack lt x [] = [x]"
| "bubbleBack lt x (y # ys) =
     (if lt [y, x] 1 0 then y # bubbleBack lt x ys else x # y # ys)"

definition insertionSort :: "(Job list \<Rightarrow> nat \<Rightarrow> nat \<Rightarrow> bool) \<Rightarrow> Job list \<Rightarrow> Job list" where
  "insertionSort lt xs = rev (foldl (\<lambda>rs x. bubbleBack lt x rs) [] xs)"

definition demoExecutor :: "Job list scaleExecutor" where
  "demoExecutor =
     \<lparr> c_List = (\<lambda>s ns sel. (Inr s, s)),
       c_Create = (\<lambda>s j. (None, s @ [j])),
       c_Delete = (\<lambda>s j. if job_Name j = [] then (Some (Error ''resource name may not be empty''), s)
                          else (None, filter (\<lambda>x. job_Name x \<noteq> job_Name j) s)),
       updateLastActiveTime = (\<lambda>s sj. (sj, s)),
       SetControllerReference = (\<lambda>sj job.
          Inr [\<lparr> ref_Kind = ''ScaledJob'', ref_Name = sj_Name sj, ref_Controller = True \<rparr>]),
       sort_Sort = insertionSort,
       growslice = (\<lambda>n. max n (2 * (n - 1))),
       version_Version = ''2'',
       metav1_Now = (\<lambda>s. 0) \<rparr>"

definition demoTarget :: ScaledJob where
  "demoTarget =
     \<lparr> sj_Name = ''t'', sj_Namespace = ''n'',
       JobTargetRef = \<lparr> Template = \<lparr> tpl_GenerateName = [], tpl_Labels = None,
                          tpl_Spec = \<lparr> RestartPolicy = [], Containers = [''c''] \<rparr> \<rparr>,
                        BackoffLimit = None \<rparr>,
       SuccessfulJobsHistoryLimit = Some 1, FailedJobsHistoryLimit = None,
       LastActiveTime = None \<rparr>"

definition demoWorld :: "Job list \<Rightarrow> Job list world" where
  "demoWorld items = \<lparr> remote = items, trace = [] \<rparr>"

text \<open>
  A store that holds the template of \<open>demoTarget\<close>: the object at address 0 and its
  container slice at address 1.
\<close>

definition demoStore :: store where
  "demoStore =
     \<lparr> cells = [0 \<mapsto> SpecCell \<lparr> o_GenerateName = [], o_Labels = None, o_RestartPolicy = [],
                                 o_Containers = Some 1, o_BackoffLimit = None \<rparr>,
                1 \<mapsto> SliceCell [''c'']],
       next_addr = 2 \<rparr>"

text \<open>
  A second cluster whose Delete fails for the job named \<open>c\<close>, and five completed jobs
  with completion times 1 to 5.
\<close>

definition flakyExecutor :: "Job list scaleExecutor" where
  "flakyExecutor =
     demoExecutor \<lparr> c_Delete := (\<lambda>s j. if job_Name j = ''c'' then (Some (Error ''conflict''), s)
                                        else (None, filter (\<lambda>x. job_Name x \<noteq> job_Name j) s)) \<rparr>"

definition fiveCompleted :: "Job list" where
  "fiveCompleted = [mkJob ''a'' JobComplete (Some 1), mkJob ''b'' JobComplete (Some 2),
                    mkJob ''c'' JobComplete (Some 3), mkJob ''d'' JobComplete (Some 4),
                    mkJob ''e'' JobComplete (Some 5)]"

section \<open>Properties of the model\<close>

subsection \<open>Signed words\<close>

lemma sint_sub_nonneg:
  fixes a b :: int64
  assumes "0 \<le> sint a" "0 \<le> sint b"
  shows "sint (a - b) = sint a - sint b"
proof -
  have "sint a < 2 ^ 63" "sint b < 2 ^ 63"
    using sint_lt [of a] sint_lt [of b] by simp_all
  with assms have "- (2 ^ 63) \<le> sint a - sint b" "sint a - sint b < 2 ^ 63"
    by simp_all
  then have "signed_take_bit 63 (sint a - sint b) = sint a - sint b"
    by (simp add: signed_take_bit_int_eq_self)
  then show ?thesis
    by (simp add: sint_word_ariths)
qed

lemma sint_of_nat_small:
  assumes "n < 2 ^ 63"
  shows "sint (of_nat n :: int64) = int n"
proof -
  have "signed_take_bit 63 (int n) = int n"
    using assms by (simp add: signed_take_bit_int_eq_self)
  then show ?thesis
    using signed_of_nat [where ?'a = int and ?'b = 64, of n] by simp
qed

lemma countRunning_eq:
  "countRunning items n = n + of_nat (length (filter (\<lambda>j. \<not> isJobFinished j) items))"
  by (induction items arbitrary: n) simp_all

lemma isFinished_conds_iff:
  "isFinished_conds cs \<longleftrightarrow>
     (\<exists>c \<in> set cs. (cond_Type c = JobComplete \<or> cond_Type c = JobFailed) \<and> cond_Status c = ConditionTrue)"
  by (induction cs) auto

subsection \<open>Traces\<close>

lemma issued_append [simp]: "trace w' = trace w @ cs \<Longrightarrow> issued w w' = cs"
  by (simp add: issued_def)

lemma issued_self [simp]: "issued w w = []"
  by (simp add: issued_def)

lemma created_append [simp]: "created (xs @ ys) = created xs @ created ys"
  by (induction xs rule: created.induct) simp_all

lemma deleted_append [simp]: "deleted (xs @ ys) = deleted xs @ deleted ys"
  by (induction xs rule: deleted.induct) simp_all

lemma created_replicate [simp]: "created (replicate n (CreateCall j)) = replicate n j"
  by (induction n) simp_all

lemma created_map_Delete [simp]: "created (map DeleteCall js) = []"
  by (induction js) simp_all

lemma deleted_map_Delete [simp]: "deleted (map DeleteCall js) = js"
  by (induction js) simp_all

lemma deleted_replicate [simp]: "deleted (replicate n (CreateCall j)) = []"
  by (induction n) simp_all

lemma createJobs_loop_trace:
  "trace (createJobs_loop e sj n w) = trace w @ replicate n (CreateCall (buildJob e sj))"
proof (induction n arbitrary: w)
  case 0
  then show ?case by simp
next
  case (Suc n)
  show ?case
    by (simp add: client_Create_def Suc split: prod.splits)
qed

lemma createJobs_issued:
  "issued w (snd (createJobs e sj scaleTo maxScale w)) =
     replicate (nat (min (sint scaleTo) (sint maxScale))) (CreateCall (buildJob e (stampTemplate sj)))"
  by (simp add: createJobs_def Let_def createJobs_loop_trace min_def)

lemma deleteJobs_loop_trace:
  "deleteJobs_loop e js w = (r, w') \<Longrightarrow>
     \<exists>n \<le> length js. trace w' = trace w @ map DeleteCall (take n js)
        \<and> (r = None \<longrightarrow> n = length js) \<and> (r \<noteq> None \<longrightarrow> 0 < n)"
proof (induction js arbitrary: w)
  case Nil
  then show ?case by simp
next
  case (Cons j js)
  obtain r1 s1 where d: "c_Delete e (remote w) j = (r1, s1)"
    by (cases "c_Delete e (remote w) j")
  let ?w1 = "\<lparr> remote = s1, trace = trace w @ [DeleteCall j] \<rparr>"
  show ?case
  proof (cases r1)
    case None
    with Cons.prems d have "deleteJobs_loop e js ?w1 = (r, w')"
      by (simp add: client_Delete_def DeepCopyObject_def)
    from Cons.IH [OF this] obtain n where n: "n \<le> length js"
      "trace w' = trace ?w1 @ map DeleteCall (take n js)" "r = None \<longrightarrow> n = length js"
      by blast
    then have "Suc n \<le> length (j # js) \<and> trace w' = trace w @ map DeleteCall (take (Suc n) (j # js))
        \<and> (r = None \<longrightarrow> Suc n = length (j # js)) \<and> (r \<noteq> None \<longrightarrow> 0 < Suc n)"
      by simp
    then show ?thesis by blast
  next
    case (Some err)
    with Cons.prems d have "r = Some err" "w' = ?w1"
      by (simp_all add: client_Delete_def DeepCopyObject_def)
    then have "Suc 0 \<le> length (j # js) \<and> trace w' = trace w @ map DeleteCall (take (Suc 0) (j # js))
        \<and> (r = None \<longrightarrow> Suc 0 = length (j # js)) \<and> (r \<noteq> None \<longrightarrow> 0 < Suc 0)"
      by simp
    then show ?thesis by blast
  qed
qed


subsection \<open>Slices, classification and the delete loop\<close>

lemma elems_append_slice [simp]: "elems (append_slice g z s x) = elems s @ [x]"
  by (simp add: append_slice_def split: list.splits)

lemma spare_append_slice: "set (spare s) \<subseteq> {z} \<Longrightarrow> set (spare (append_slice g z s x)) \<subseteq> {z}"
  by (auto simp: append_slice_def split: list.splits)

lemma classify_elems:
  "classify g items c f = (c', f') \<Longrightarrow>
     elems c' = elems c @ filter isCompleted items \<and> elems f' = elems f @ filter isFailed items"
proof (induction items arbitrary: c f)
  case Nil
  then show ?case by simp
next
  case (Cons job items)
  have ne: "JobComplete \<noteq> JobFailed"
    by (simp add: JobComplete_def JobFailed_def)
  show ?case
  proof (cases "getFinishedJobConditionType job = JobComplete")
    case True
    with Cons.prems have "classify g items (append_slice g zeroJob c job) f = (c', f')"
      by (simp add: Let_def)
    from Cons.IH [OF this] True ne show ?thesis
      by (simp add: isCompleted_def isFailed_def)
  next
    case False
    show ?thesis
    proof (cases "getFinishedJobConditionType job = JobFailed")
      case True
      with False Cons.prems have "classify g items c (append_slice g zeroJob f job) = (c', f')"
        by (simp add: Let_def)
      from Cons.IH [OF this] True False show ?thesis
        by (simp add: isCompleted_def isFailed_def)
    next
      case F2: False
      with False Cons.prems have "classify g items c f = (c', f')"
        by (simp add: Let_def)
      from Cons.IH [OF this] False F2 show ?thesis
        by (simp add: isCompleted_def isFailed_def)
    qed
  qed
qed

lemma classify_spare:
  "classify g items c f = (c', f') \<Longrightarrow> set (spare c) \<subseteq> {zeroJob} \<Longrightarrow> set (spare f) \<subseteq> {zeroJob} \<Longrightarrow>
     set (spare c') \<subseteq> {zeroJob} \<and> set (spare f') \<subseteq> {zeroJob}"
proof (induction items arbitrary: c f)
  case Nil
  then show ?case by simp
next
  case (Cons job items)
  show ?case
  proof (cases "getFinishedJobConditionType job = JobComplete")
    case True
    with Cons.prems have "classify g items (append_slice g zeroJob c job) f = (c', f')"
      by (simp add: Let_def)
    from Cons.IH [OF this spare_append_slice [OF Cons.prems(2)] Cons.prems(3)] show ?thesis .
  next
    case False
    show ?thesis
    proof (cases "getFinishedJobConditionType job = JobFailed")
      case True
      with False Cons.prems have "classify g items c (append_slice g zeroJob f job) = (c', f')"
        by (simp add: Let_def)
      from Cons.IH [OF this Cons.prems(2) spare_append_slice [OF Cons.prems(3)]] show ?thesis .
    next
      case F2: False
      with False Cons.prems have "classify g items c f = (c', f')"
        by (simp add: Let_def)
      from Cons.IH [OF this Cons.prems(2) Cons.prems(3)] show ?thesis .
    qed
  qed
qed

lemma slice_upto_within:
  "0 \<le> h \<Longrightarrow> h \<le> int (len s) \<Longrightarrow> slice_upto s h = Inr (take (nat h) (elems s))"
  by (simp add: slice_upto_def len_def cap_def)

lemma deleteJobsWithHistoryLimit_nonneg:
  assumes "0 \<le> sint k"
  shows "deleteJobsWithHistoryLimit e jobs k w =
           (case deleteJobs_loop e (take (len jobs - nat (sint k)) (elems jobs)) w of
              (r, w') \<Rightarrow> (Inr r, w'))"
proof (cases "int (len jobs) \<le> sint k")
  case True
  then have "len jobs - nat (sint k) = 0" by simp
  with True show ?thesis
    by (simp add: deleteJobsWithHistoryLimit_def)
next
  case False
  with assms have h: "0 \<le> int (len jobs) - sint k" "int (len jobs) - sint k \<le> int (len jobs)"
    by simp_all
  have "nat (int (len jobs) - sint k) = len jobs - nat (sint k)"
    using assms by simp
  with False slice_upto_within [OF h] show ?thesis
    by (simp add: deleteJobsWithHistoryLimit_def Let_def)
qed



lemma classify_empty:
  "classify g items emptySlice emptySlice = (c, f) \<Longrightarrow>
     elems c = filter isCompleted items \<and> elems f = filter isFailed items"
  using classify_elems [of g items emptySlice emptySlice c f] by (simp add: emptySlice_def)

lemma len_sortJobs [simp]: "len (sortJobs e jobs) = length (sort_Sort e byCompletedTime_Less (elems jobs))"
  by (simp add: sortJobs_def len_def)

lemma elems_sortJobs [simp]: "elems (sortJobs e jobs) = sort_Sort e byCompletedTime_Less (elems jobs)"
  by (simp add: sortJobs_def)

lemma cleanUp_nonneg:
  assumes list: "c_List e (remote w) (sj_Namespace sj) (selector sj) = (Inr items, s1)"
    and kc: "0 \<le> sint (successfulLimit sj)" and kf: "0 \<le> sint (failedLimit sj)"
  shows "cleanUp e sj w =
    (case deleteJobs_loop e
            (take (length (sort_Sort e byCompletedTime_Less (filter isCompleted items))
                     - nat (sint (successfulLimit sj)))
               (sort_Sort e byCompletedTime_Less (filter isCompleted items)))
            \<lparr> remote = s1, trace = trace w @ [ListCall (sj_Namespace sj) (selector sj)] \<rparr> of
       (Some err, w2) \<Rightarrow> (Inr (Some err), w2)
     | (None, w2) \<Rightarrow>
         (case deleteJobs_loop e
                 (take (length (sort_Sort e byCompletedTime_Less (filter isFailed items))
                          - nat (sint (failedLimit sj)))
                    (sort_Sort e byCompletedTime_Less (filter isFailed items))) w2 of
            (r, w3) \<Rightarrow> (Inr r, w3)))"
proof -
  obtain c f where cf: "classify (growslice e) items emptySlice emptySlice = (c, f)"
    by (cases "classify (growslice e) items emptySlice emptySlice")
  note el = classify_empty [OF cf]
  show ?thesis
    using list cf el
    by (simp add: cleanUp_def client_List_def deleteJobsWithHistoryLimit_nonneg [OF kc]
          deleteJobsWithHistoryLimit_nonneg [OF kf] split: prod.splits option.splits)
qed

lemma cleanUp_calls_nonneg:
  assumes list: "c_List e (remote w) (sj_Namespace sj) (selector sj) = (Inr items, s1)"
    and kc: "0 \<le> sint (successfulLimit sj)" and kf: "0 \<le> sint (failedLimit sj)"
    and run: "cleanUp e sj w = (r, w')"
  defines "Sc \<equiv> sort_Sort e byCompletedTime_Less (filter isCompleted items)"
    and "Sf \<equiv> sort_Sort e byCompletedTime_Less (filter isFailed items)"
  defines "batch \<equiv> take (length Sc - nat (sint (successfulLimit sj))) Sc
                    @ take (length Sf - nat (sint (failedLimit sj))) Sf"
  shows "\<exists>p m. r = Inr p \<and> m \<le> length batch
           \<and> issued w w' = ListCall (sj_Namespace sj) (selector sj) # map DeleteCall (take m batch)
           \<and> (p = None \<longrightarrow> m = length batch) \<and> (p \<noteq> None \<longrightarrow> 0 < m)"
proof -
  define w1 where "w1 = \<lparr> remote = s1, trace = trace w @ [ListCall (sj_Namespace sj) (selector sj)] \<rparr>"
  define bc where "bc = take (length Sc - nat (sint (successfulLimit sj))) Sc"
  define bf where "bf = take (length Sf - nat (sint (failedLimit sj))) Sf"
  have batch: "batch = bc @ bf"
    by (simp add: batch_def bc_def bf_def)
  have unfold: "cleanUp e sj w =
      (case deleteJobs_loop e bc w1 of
         (Some err, w2) \<Rightarrow> (Inr (Some err), w2)
       | (None, w2) \<Rightarrow> (case deleteJobs_loop e bf w2 of (r, w3) \<Rightarrow> (Inr r, w3)))"
    unfolding bc_def bf_def w1_def Sc_def Sf_def by (rule cleanUp_nonneg [OF list kc kf])
  have tw1: "trace w1 = trace w @ [ListCall (sj_Namespace sj) (selector sj)]"
    by (simp add: w1_def)
  obtain r1 w2 where l1: "deleteJobs_loop e bc w1 = (r1, w2)"
    by (cases "deleteJobs_loop e bc w1")
  from deleteJobs_loop_trace [OF l1] obtain n where n: "n \<le> length bc"
    "trace w2 = trace w1 @ map DeleteCall (take n bc)" "r1 = None \<longrightarrow> n = length bc"
    "r1 \<noteq> None \<longrightarrow> 0 < n"
    by blast
  show ?thesis
  proof (cases r1)
    case (Some err)
    with l1 run unfold have rw: "r = Inr (Some err)" "w' = w2"
      by simp_all
    have "take n bc = take n batch"
      using n(1) by (simp add: batch)
    with n(2) tw1 have "trace w2 = trace w @ ListCall (sj_Namespace sj) (selector sj)
        # map DeleteCall (take n batch)"
      by simp
    then have "issued w w2 = ListCall (sj_Namespace sj) (selector sj) # map DeleteCall (take n batch)"
      by (rule issued_append)
    moreover have "n \<le> length batch"
      using n(1) by (simp add: batch)
    moreover have "0 < n"
      using n(4) Some by simp
    ultimately show ?thesis
      using rw by (intro exI [of _ "Some err"] exI [of _ n]) simp
  next
    case None
    obtain r2 w3 where l2: "deleteJobs_loop e bf w2 = (r2, w3)"
      by (cases "deleteJobs_loop e bf w2")
    from deleteJobs_loop_trace [OF l2] obtain k where k: "k \<le> length bf"
      "trace w3 = trace w2 @ map DeleteCall (take k bf)" "r2 = None \<longrightarrow> k = length bf"
      "r2 \<noteq> None \<longrightarrow> 0 < k"
      by blast
    from None l1 l2 run unfold have rw: "r = Inr r2" "w' = w3"
      by simp_all
    from None n have nfull: "take n bc = bc" by simp
    have tk: "take (length bc + k) batch = bc @ take k bf"
      by (simp add: batch)
    have "trace w3 = trace w @ ListCall (sj_Namespace sj) (selector sj)
             # map DeleteCall (take (length bc + k) batch)"
      unfolding tk k(2) n(2) nfull tw1 by simp
    then have "issued w w3 = ListCall (sj_Namespace sj) (selector sj)
             # map DeleteCall (take (length bc + k) batch)"
      by (rule issued_append)
    moreover have "length bc + k \<le> length batch"
      using k(1) by (simp add: batch)
    moreover have "r2 = None \<longrightarrow> length bc + k = length batch"
      using k(3) by (simp add: batch)
    moreover have "r2 \<noteq> None \<longrightarrow> 0 < length bc + k"
      using k(4) by simp
    ultimately show ?thesis
      using rw by (intro exI [of _ r2] exI [of _ "length bc + k"]) simp
  qed
qed


lemma deleteJobsWithHistoryLimit_trace:
  assumes "deleteJobsWithHistoryLimit e jobs k w = (r, w')"
  shows "\<exists>ds. trace w' = trace w @ map DeleteCall ds"
proof (cases "int (len jobs) \<le> sint k")
  case True
  with assms have "trace w' = trace w @ map DeleteCall []"
    by (simp add: deleteJobsWithHistoryLimit_def)
  then show ?thesis by blast
next
  case False
  show ?thesis
  proof (cases "slice_upto jobs (int (len jobs) - sint k)")
    case (Inl p)
    with False assms have "trace w' = trace w @ map DeleteCall []"
      by (simp add: deleteJobsWithHistoryLimit_def Let_def)
    then show ?thesis by blast
  next
    case (Inr batch)
    obtain r1 w1 where l: "deleteJobs_loop e batch w = (r1, w1)"
      by (cases "deleteJobs_loop e batch w")
    with Inr False assms have "w' = w1"
      by (simp add: deleteJobsWithHistoryLimit_def Let_def)
    with deleteJobs_loop_trace [OF l] show ?thesis by blast
  qed
qed

lemma cleanUp_trace:
  assumes "cleanUp e sj w = (r, w')"
  shows "\<exists>ds. trace w' = trace w @ ListCall (sj_Namespace sj) (selector sj) # map DeleteCall ds"
proof -
  obtain lr s1 where list: "c_List e (remote w) (sj_Namespace sj) (selector sj) = (lr, s1)"
    by (cases "c_List e (remote w) (sj_Namespace sj) (selector sj)")
  define w1 where "w1 = \<lparr> remote = s1, trace = trace w @ [ListCall (sj_Namespace sj) (selector sj)] \<rparr>"
  have cl: "client_List e w (sj_Namespace sj) (selector sj) = (lr, w1)"
    using list by (simp add: client_List_def w1_def)
  have tw1: "trace w1 = trace w @ [ListCall (sj_Namespace sj) (selector sj)]"
    by (simp add: w1_def)
  show ?thesis
  proof (cases lr)
    case (Inl err)
    with cl assms have "w' = w1" by (simp add: cleanUp_def)
    with tw1 have "trace w' = trace w @ ListCall (sj_Namespace sj) (selector sj) # map DeleteCall []"
      by simp
    then show ?thesis by blast
  next
    case (Inr items)
    obtain c f where cf: "classify (growslice e) items emptySlice emptySlice = (c, f)"
      by (cases "classify (growslice e) items emptySlice emptySlice")
    obtain r1 w2 where d1:
      "deleteJobsWithHistoryLimit e (sortJobs e c) (successfulLimit sj) w1 = (r1, w2)"
      by (cases "deleteJobsWithHistoryLimit e (sortJobs e c) (successfulLimit sj) w1")
    from deleteJobsWithHistoryLimit_trace [OF d1] obtain ds1
      where ds1: "trace w2 = trace w1 @ map DeleteCall ds1" by blast
    show ?thesis
    proof (cases "r1 = Inr None")
      case False
      with Inr cl cf d1 assms have "w' = w2"
        by (auto simp: cleanUp_def split: sum.splits option.splits)
      with ds1 tw1 have "trace w' = trace w @ ListCall (sj_Namespace sj) (selector sj) # map DeleteCall ds1"
        by simp
      then show ?thesis by blast
    next
      case True
      with Inr cl cf d1 assms have
        d2: "deleteJobsWithHistoryLimit e (sortJobs e f) (failedLimit sj) w2 = (r, w')"
        by (simp add: cleanUp_def)
      from deleteJobsWithHistoryLimit_trace [OF d2] obtain ds2
        where "trace w' = trace w2 @ map DeleteCall ds2" by blast
      with ds1 tw1 have "trace w' = trace w @ ListCall (sj_Namespace sj) (selector sj)
          # map DeleteCall (ds1 @ ds2)"
        by simp
      then show ?thesis by blast
    qed
  qed
qed

lemma getRunningJobCount_trace:
  "trace (snd (getRunningJobCount e sj m w)) = trace w @ [ListCall (sj_Namespace sj) (selector sj)]"
  by (simp add: getRunningJobCount_def client_List_def split: prod.splits sum.splits)

lemma createJobs_trace:
  "trace (snd (createJobs e sj scaleTo maxScale w)) =
     trace w @ replicate (nat (min (sint scaleTo) (sint maxScale)))
                 (CreateCall (buildJob e (stampTemplate sj)))"
  by (simp add: createJobs_def Let_def createJobs_loop_trace min_def)

lemma RequestJobScale_created:
  "created (issued w (snd (snd (RequestJobScale e sj isActive scaleTo maxScale w)))) =
     (if isActive
      then replicate (nat (min (sint scaleTo)
               (sint (effectiveMaxScale maxScale (fst (getRunningJobCount e sj maxScale w))))))
             (buildJob e (stampTemplate (fst (updateLastActiveTime e
                (remote (snd (getRunningJobCount e sj maxScale w)))
                (sj \<lparr> LastActiveTime := Some (metav1_Now e (remote (snd (getRunningJobCount e sj maxScale w)))) \<rparr>)))))
      else [])"
proof -
  obtain rc w1 where g: "getRunningJobCount e sj maxScale w = (rc, w1)"
    by (cases "getRunningJobCount e sj maxScale w")
  have tw1: "trace w1 = trace w @ [ListCall (sj_Namespace sj) (selector sj)]"
    using getRunningJobCount_trace [of e sj maxScale w] g by simp
  show ?thesis
  proof (cases isActive)
    case False
    obtain r w3 where c: "cleanUp e sj w1 = (r, w3)"
      by (cases "cleanUp e sj w1")
    from cleanUp_trace [OF c] tw1 obtain ds where
      "trace w3 = trace w @ (ListCall (sj_Namespace sj) (selector sj)
          # ListCall (sj_Namespace sj) (selector sj) # map DeleteCall ds)"
      by auto
    then have "issued w w3 = ListCall (sj_Namespace sj) (selector sj)
          # ListCall (sj_Namespace sj) (selector sj) # map DeleteCall ds"
      by (rule issued_append)
    with False g c show ?thesis
      by (simp add: RequestJobScale_def split: sum.splits)
  next
    case True
    obtain sj1 s2 where u: "updateLastActiveTime e (remote w1)
        (sj \<lparr> LastActiveTime := Some (metav1_Now e (remote w1)) \<rparr>) = (sj1, s2)"
      by (cases "updateLastActiveTime e (remote w1)
        (sj \<lparr> LastActiveTime := Some (metav1_Now e (remote w1)) \<rparr>)")
    obtain sj2 w2 where cj: "createJobs e sj1 scaleTo (effectiveMaxScale maxScale rc)
        (w1 \<lparr> remote := s2 \<rparr>) = (sj2, w2)"
      by (cases "createJobs e sj1 scaleTo (effectiveMaxScale maxScale rc) (w1 \<lparr> remote := s2 \<rparr>)")
    define n where "n = nat (min (sint scaleTo) (sint (effectiveMaxScale maxScale rc)))"
    have tw2: "trace w2 = trace w1 @ replicate n (CreateCall (buildJob e (stampTemplate sj1)))"
      using createJobs_trace [of e sj1 scaleTo "effectiveMaxScale maxScale rc" "w1 \<lparr> remote := s2 \<rparr>"] cj
      by (simp add: n_def)
    obtain r w3 where c: "cleanUp e sj2 w2 = (r, w3)"
      by (cases "cleanUp e sj2 w2")
    from cleanUp_trace [OF c] tw1 tw2 obtain ds where
      "trace w3 = trace w @ (ListCall (sj_Namespace sj) (selector sj)
          # replicate n (CreateCall (buildJob e (stampTemplate sj1)))
          @ ListCall (sj_Namespace sj2) (selector sj2) # map DeleteCall ds)"
      by auto
    then have "issued w w3 = ListCall (sj_Namespace sj) (selector sj)
          # replicate n (CreateCall (buildJob e (stampTemplate sj1)))
          @ ListCall (sj_Namespace sj2) (selector sj2) # map DeleteCall ds"
      by (rule issued_append)
    with True g u cj c show ?thesis
      by (simp add: RequestJobScale_def n_def split: sum.splits)
  qed
qed

subsection \<open>What a pass deletes when the limits are not negative\<close>

lemma slice_upto_beyond:
  assumes "int (len s) \<le> h" "h \<le> int (cap s)"
  shows "slice_upto s h = Inr (elems s @ take (nat h - len s) (spare s))"
  using assms by (simp add: slice_upto_def len_def cap_def)

lemma isCompleted_not_isFailed: "isCompleted j \<Longrightarrow> \<not> isFailed j"
  by (simp add: isCompleted_def isFailed_def JobComplete_def JobFailed_def)

lemma retained_size:
  assumes "mset S = mset C"
  shows "size (mset C - mset (xs @ take d S @ ys)) \<le> length S - d"
proof -
  have "mset C = mset (take d S) + mset (drop d S)"
    using assms by (metis append_take_drop_id mset_append)
  then have "mset C - mset (xs @ take d S @ ys) = mset (drop d S) - (mset xs + mset ys)"
    by (simp add: ac_simps)
  moreover have "size (mset (drop d S) - (mset xs + mset ys)) \<le> size (mset (drop d S))"
    by (rule size_mset_mono) simp
  ultimately show ?thesis by simp
qed



lemma cleanUp_deleted_nonneg:
  assumes list: "c_List e (remote w) (sj_Namespace sj) (selector sj) = (Inr items, s1)"
    and kc: "0 \<le> sint (successfulLimit sj)" and kf: "0 \<le> sint (failedLimit sj)"
    and run: "cleanUp e sj w = (r, w')"
  shows "\<exists>p m. r = Inr p
     \<and> deleted (issued w w') =
         take m (take (length (sort_Sort e byCompletedTime_Less (filter isCompleted items))
                        - nat (sint (successfulLimit sj)))
                   (sort_Sort e byCompletedTime_Less (filter isCompleted items))
               @ take (length (sort_Sort e byCompletedTime_Less (filter isFailed items))
                        - nat (sint (failedLimit sj)))
                   (sort_Sort e byCompletedTime_Less (filter isFailed items)))
     \<and> (p = None \<longrightarrow> deleted (issued w w') =
           take (length (sort_Sort e byCompletedTime_Less (filter isCompleted items))
                        - nat (sint (successfulLimit sj)))
                   (sort_Sort e byCompletedTime_Less (filter isCompleted items))
               @ take (length (sort_Sort e byCompletedTime_Less (filter isFailed items))
                        - nat (sint (failedLimit sj)))
                   (sort_Sort e byCompletedTime_Less (filter isFailed items)))"
proof -
  from cleanUp_calls_nonneg [OF list kc kf run] obtain p m where
    pm: "r = Inr p"
      "issued w w' = ListCall (sj_Namespace sj) (selector sj) # map DeleteCall
         (take m (take (length (sort_Sort e byCompletedTime_Less (filter isCompleted items))
                        - nat (sint (successfulLimit sj)))
                   (sort_Sort e byCompletedTime_Less (filter isCompleted items))
               @ take (length (sort_Sort e byCompletedTime_Less (filter isFailed items))
                        - nat (sint (failedLimit sj)))
                   (sort_Sort e byCompletedTime_Less (filter isFailed items))))"
      "p = None \<longrightarrow> m = length
               (take (length (sort_Sort e byCompletedTime_Less (filter isCompleted items))
                        - nat (sint (successfulLimit sj)))
                   (sort_Sort e byCompletedTime_Less (filter isCompleted items))
               @ take (length (sort_Sort e byCompletedTime_Less (filter isFailed items))
                        - nat (sint (failedLimit sj)))
                   (sort_Sort e byCompletedTime_Less (filter isFailed items)))"
    by blast
  show ?thesis
    apply (rule exI [of _ p], rule exI [of _ m])
    using pm by (simp del: take_append length_append length_take)
qed




lemma deleteJobs_loop_first_failure:
  assumes "deleteJobs_loop e pre w = (None, w1)"
    and "c_Delete e (remote w1) j = (Some err, s2)"
  shows "deleteJobs_loop e (pre @ j # post) w =
           (Some err, \<lparr> remote = s2, trace = trace w @ map DeleteCall (pre @ [j]) \<rparr>)"
  using assms
proof (induction pre arbitrary: w)
  case Nil
  then show ?case
    by (simp add: client_Delete_def DeepCopyObject_def)
next
  case (Cons x xs)
  obtain rx sx where d: "c_Delete e (remote w) x = (rx, sx)"
    by (cases "c_Delete e (remote w) x")
  let ?wx = "\<lparr> remote = sx, trace = trace w @ [DeleteCall x] \<rparr>"
  from Cons.prems(1) d have rx: "rx = None" and rest: "deleteJobs_loop e xs ?wx = (None, w1)"
    by (auto simp: client_Delete_def DeepCopyObject_def split: option.splits)
  from Cons.IH [OF rest Cons.prems(2)] d rx show ?case
    by (simp add: client_Delete_def DeepCopyObject_def)
qed

subsection \<open>What a pass deletes, whatever the limits\<close>

lemma not_isCompleted_zeroJob [simp]: "\<not> isCompleted zeroJob"
  by (simp add: isCompleted_def getFinishedJobConditionType_def zeroJob_def JobComplete_def)

lemma not_isFailed_zeroJob [simp]: "\<not> isFailed zeroJob"
  by (simp add: isFailed_def getFinishedJobConditionType_def zeroJob_def JobFailed_def)

lemma deleteJobs_loop_accepts:
  "deleteJobs_loop e js w = (None, w') \<Longrightarrow> j \<in> set js \<Longrightarrow> \<exists>s. fst (c_Delete e s j) = None"
proof (induction js arbitrary: w)
  case Nil
  then show ?case by simp
next
  case (Cons x xs)
  obtain rx sx where d: "c_Delete e (remote w) x = (rx, sx)"
    by (cases "c_Delete e (remote w) x")
  from Cons.prems(1) d have rx: "rx = None"
    and rest: "deleteJobs_loop e xs \<lparr> remote = sx, trace = trace w @ [DeleteCall x] \<rparr> = (None, w')"
    by (auto simp: client_Delete_def DeepCopyObject_def split: option.splits)
  show ?case
  proof (cases "j = x")
    case True
    with d rx have "fst (c_Delete e (remote w) j) = None" by simp
    then show ?thesis by blast
  next
    case False
    with Cons.prems(2) have "j \<in> set xs" by simp
    from Cons.IH [OF rest this] show ?thesis .
  qed
qed

lemma negative_limit_fails:
  assumes k: "sint k < 0" and z: "set (spare jobs) \<subseteq> {zeroJob}" and ref: "refusesUnnamed e"
  shows "fst (deleteJobsWithHistoryLimit e jobs k w) \<noteq> Inr None"
proof
  assume ok: "fst (deleteJobsWithHistoryLimit e jobs k w) = Inr None"
  from k have n: "\<not> int (len jobs) \<le> sint k" by simp
  let ?h = "int (len jobs) - sint k"
  show False
  proof (cases "?h \<le> int (cap jobs)")
    case False
    with n ok show False
      by (simp add: deleteJobsWithHistoryLimit_def Let_def slice_upto_def)
  next
    case True
    have l: "int (len jobs) \<le> ?h" using k by simp
    have b: "slice_upto jobs ?h = Inr (elems jobs @ take (nat ?h - len jobs) (spare jobs))"
      by (rule slice_upto_beyond [OF l True])
    have pos: "0 < nat ?h - len jobs" using k by simp
    from True have "nat ?h - len jobs \<le> length (spare jobs)"
      by (simp add: cap_def len_def)
    with pos have "take (nat ?h - len jobs) (spare jobs) \<noteq> []"
      by auto
    then obtain y where y: "y \<in> set (take (nat ?h - len jobs) (spare jobs))"
      by (cases "take (nat ?h - len jobs) (spare jobs)") auto
    then have "y \<in> set (spare jobs)" by (rule in_set_takeD)
    with z have "y = zeroJob" by auto
    with y have mem: "zeroJob \<in> set (elems jobs @ take (nat ?h - len jobs) (spare jobs))"
      by simp
    obtain r1 w1 where
      loop: "deleteJobs_loop e (elems jobs @ take (nat ?h - len jobs) (spare jobs)) w = (r1, w1)"
      by (cases "deleteJobs_loop e (elems jobs @ take (nat ?h - len jobs) (spare jobs)) w")
    with n b ok have "r1 = None"
      by (simp add: deleteJobsWithHistoryLimit_def Let_def)
    with loop deleteJobs_loop_accepts [OF _ mem] have "\<exists>s. fst (c_Delete e s zeroJob) = None"
      by blast
    with ref show False
      unfolding refusesUnnamed_def by blast
  qed
qed

lemma deleteJobsWithHistoryLimit_calls:
  assumes "deleteJobsWithHistoryLimit e jobs k w = (r, w')"
  shows "\<exists>ds. trace w' = trace w @ map DeleteCall ds
           \<and> set ds \<subseteq> set (elems jobs) \<union> set (spare jobs)
           \<and> (int (len jobs) \<le> sint k \<longrightarrow> ds = [] \<and> r = Inr None)"
proof (cases "int (len jobs) \<le> sint k")
  case True
  with assms have "trace w' = trace w @ map DeleteCall [] \<and> r = Inr None"
    by (simp add: deleteJobsWithHistoryLimit_def)
  with True show ?thesis by (intro exI [of _ "[]"]) simp
next
  case False
  show ?thesis
  proof (cases "slice_upto jobs (int (len jobs) - sint k)")
    case (Inl p)
    with False assms have "trace w' = trace w @ map DeleteCall []"
      by (simp add: deleteJobsWithHistoryLimit_def Let_def)
    with False show ?thesis by (intro exI [of _ "[]"]) simp
  next
    case (Inr batch)
    then have sub: "set batch \<subseteq> set (elems jobs) \<union> set (spare jobs)"
      by (auto simp: slice_upto_def split: if_splits dest: in_set_takeD)
    obtain r1 w1 where l: "deleteJobs_loop e batch w = (r1, w1)"
      by (cases "deleteJobs_loop e batch w")
    with Inr False assms have w': "w' = w1"
      by (simp add: deleteJobsWithHistoryLimit_def Let_def)
    from deleteJobs_loop_trace [OF l] obtain n where
      "trace w1 = trace w @ map DeleteCall (take n batch)" by blast
    moreover have "set (take n batch) \<subseteq> set (elems jobs) \<union> set (spare jobs)"
      using sub by (auto dest: in_set_takeD)
    ultimately show ?thesis
      using False w' by (intro exI [of _ "take n batch"]) simp
  qed
qed

lemma cleanUp_calls:
  assumes list: "c_List e (remote w) (sj_Namespace sj) (selector sj) = (Inr items, s1)"
    and run: "cleanUp e sj w = (r, w')"
  defines "Sc \<equiv> sort_Sort e byCompletedTime_Less (filter isCompleted items)"
    and "Sf \<equiv> sort_Sort e byCompletedTime_Less (filter isFailed items)"
  shows "\<exists>dc df. issued w w' = ListCall (sj_Namespace sj) (selector sj) # map DeleteCall (dc @ df)
           \<and> set dc \<subseteq> set Sc \<union> {zeroJob} \<and> set df \<subseteq> set Sf \<union> {zeroJob}
           \<and> (int (length Sc) \<le> sint (successfulLimit sj) \<longrightarrow> dc = [])
           \<and> (int (length Sf) \<le> sint (failedLimit sj) \<longrightarrow> df = [])
           \<and> (int (length Sc) \<le> sint (successfulLimit sj) \<and> int (length Sf) \<le> sint (failedLimit sj)
                \<longrightarrow> r = Inr None)
           \<and> (r = Inr None \<and> refusesUnnamed e \<longrightarrow>
                0 \<le> sint (successfulLimit sj) \<and> 0 \<le> sint (failedLimit sj))"
proof -
  define w1 where "w1 = \<lparr> remote = s1, trace = trace w @ [ListCall (sj_Namespace sj) (selector sj)] \<rparr>"
  have cl: "client_List e w (sj_Namespace sj) (selector sj) = (Inr items, w1)"
    using list by (simp add: client_List_def w1_def)
  have tw1: "trace w1 = trace w @ [ListCall (sj_Namespace sj) (selector sj)]"
    by (simp add: w1_def)
  obtain c f where cf: "classify (growslice e) items emptySlice emptySlice = (c, f)"
    by (cases "classify (growslice e) items emptySlice emptySlice")
  note el = classify_empty [OF cf]
  have "set (spare (emptySlice :: Job slice)) \<subseteq> {zeroJob}"
    by (simp add: emptySlice_def)
  note sp = classify_spare [OF cf this this]
  have ec: "elems (sortJobs e c) = Sc" and ef: "elems (sortJobs e f) = Sf"
    using el by (simp_all add: Sc_def Sf_def)
  have lc: "len (sortJobs e c) = length Sc" and lf: "len (sortJobs e f) = length Sf"
    using el by (simp_all add: Sc_def Sf_def)
  have sc: "set (spare (sortJobs e c)) \<subseteq> {zeroJob}" and sf: "set (spare (sortJobs e f)) \<subseteq> {zeroJob}"
    using sp by (simp_all add: sortJobs_def)
  obtain r1 w2 where d1:
    "deleteJobsWithHistoryLimit e (sortJobs e c) (successfulLimit sj) w1 = (r1, w2)"
    by (cases "deleteJobsWithHistoryLimit e (sortJobs e c) (successfulLimit sj) w1")
  from deleteJobsWithHistoryLimit_calls [OF d1] obtain dc where dc:
    "trace w2 = trace w1 @ map DeleteCall dc" "set dc \<subseteq> set Sc \<union> {zeroJob}"
    "int (length Sc) \<le> sint (successfulLimit sj) \<longrightarrow> dc = [] \<and> r1 = Inr None"
    unfolding ec lc using sc by blast
  have neg1: "r1 = Inr None \<and> refusesUnnamed e \<longrightarrow> 0 \<le> sint (successfulLimit sj)"
    using negative_limit_fails [where k = "successfulLimit sj" and w = w1 and e = e, OF _ sc] d1
    by fastforce
  show ?thesis
  proof (cases "r1 = Inr None")
    case False
    with cl cf d1 run have rw: "w' = w2" "r = r1"
      by (auto simp: cleanUp_def split: sum.splits option.splits)
    from dc(1) tw1 have "trace w' = trace w @ ListCall (sj_Namespace sj) (selector sj)
        # map DeleteCall (dc @ [])"
      by (simp add: rw)
    then have "issued w w' = ListCall (sj_Namespace sj) (selector sj) # map DeleteCall (dc @ [])"
      by (rule issued_append)
    with dc(2,3) False rw show ?thesis
      by (intro exI [of _ dc] exI [of _ "[]"]) auto
  next
    case True
    with cl cf d1 run have
      d2: "deleteJobsWithHistoryLimit e (sortJobs e f) (failedLimit sj) w2 = (r, w')"
      by (simp add: cleanUp_def)
    from deleteJobsWithHistoryLimit_calls [OF d2] obtain df where df:
      "trace w' = trace w2 @ map DeleteCall df" "set df \<subseteq> set Sf \<union> {zeroJob}"
      "int (length Sf) \<le> sint (failedLimit sj) \<longrightarrow> df = [] \<and> r = Inr None"
      unfolding ef lf using sf by blast
    have neg2: "r = Inr None \<and> refusesUnnamed e \<longrightarrow> 0 \<le> sint (failedLimit sj)"
      using negative_limit_fails [where k = "failedLimit sj" and w = w2 and e = e, OF _ sf] d2
      by fastforce
    from dc(1) df(1) tw1 have "trace w' = trace w @ ListCall (sj_Namespace sj) (selector sj)
        # map DeleteCall (dc @ df)"
      by simp
    then have "issued w w' = ListCall (sj_Namespace sj) (selector sj) # map DeleteCall (dc @ df)"
      by (rule issued_append)
    with dc(2,3) df(2,3) True neg1 neg2 show ?thesis
      by (intro exI [of _ dc] exI [of _ df]) auto
  qed
qed

lemma cleanUp_bounds_nonneg:
  fixes e :: "'s scaleExecutor" and items :: "Job list"
  defines "Sc \<equiv> sort_Sort e byCompletedTime_Less (filter isCompleted items)"
    and "Sf \<equiv> sort_Sort e byCompletedTime_Less (filter isFailed items)"
  assumes list: "c_List e (remote w) (sj_Namespace sj) (selector sj) = (Inr items, s1)"
    and perm_c: "mset Sc = mset (filter isCompleted items)"
    and perm_f: "mset Sf = mset (filter isFailed items)"
    and kc: "0 \<le> sint (successfulLimit sj)" and kf: "0 \<le> sint (failedLimit sj)"
    and run: "cleanUp e sj w = (Inr None, w')"
  shows "int (size (mset (filter isCompleted items) - mset (deleted (issued w w'))))
              \<le> sint (successfulLimit sj)
          \<and> int (size (mset (filter isFailed items) - mset (deleted (issued w w'))))
              \<le> sint (failedLimit sj)"
proof -
  define dc where "dc = length Sc - nat (sint (successfulLimit sj))"
  define df where "df = length Sf - nat (sint (failedLimit sj))"
  from cleanUp_deleted_nonneg [OF list kc kf run]
  have full: "deleted (issued w w') = take dc Sc @ take df Sf"
    unfolding Sc_def Sf_def dc_def df_def by blast
  have "size (mset (filter isCompleted items) - mset ([] @ take dc Sc @ take df Sf)) \<le> length Sc - dc"
    by (rule retained_size [OF perm_c])
  moreover have "size (mset (filter isFailed items) - mset (take dc Sc @ take df Sf @ [])) \<le> length Sf - df"
    by (rule retained_size [OF perm_f])
  moreover have "int (length Sc - dc) \<le> sint (successfulLimit sj)"
    using kc by (simp add: dc_def)
  moreover have "int (length Sf - df) \<le> sint (failedLimit sj)"
    using kf by (simp add: df_def)
  ultimately show ?thesis
    unfolding full by simp
qed

subsection \<open>Sorting by completion time\<close>










subsection \<open>The store: copies, stamping and the loop\<close>

lemma holdsMap_iff: "holdsMap h r \<longleftrightarrow> (\<forall>a. r = Some a \<longrightarrow> (\<exists>m. cells h a = Some (MapCell m)))"
  by (cases r; cases "cells h (the r)"; cases "the (cells h (the r))") (simp_all add: holdsMap_def)

lemma holdsSlice_iff: "holdsSlice h r \<longleftrightarrow> (\<forall>a. r = Some a \<longrightarrow> (\<exists>m. cells h a = Some (SliceCell m)))"
  by (cases r; cases "cells h (the r)"; cases "the (cells h (the r))") (simp_all add: holdsSlice_def)

lemma holdsInt_iff: "holdsInt h r \<longleftrightarrow> (\<forall>a. r = Some a \<longrightarrow> (\<exists>m. cells h a = Some (IntCell m)))"
  by (cases r; cases "cells h (the r)"; cases "the (cells h (the r))") (simp_all add: holdsInt_def)

lemma wellTyped_iff:
  "wellTyped h p \<longleftrightarrow>
     cells h p = Some (SpecCell (specObj h p))
     \<and> holdsMap h (o_Labels (specObj h p)) \<and> holdsSlice h (o_Containers (specObj h p))
     \<and> holdsInt h (o_BackoffLimit (specObj h p))"
  by (cases "cells h p"; cases "the (cells h p)") (simp_all add: wellTyped_def specObj_def)

lemma allocated_iff: "allocated h \<longleftrightarrow> (\<forall>a c. cells h a = Some c \<longrightarrow> a < next_addr h)"
  unfolding allocated_def by (auto simp: dom_def)

lemma agree_specObj: "cells h' q = cells h q \<Longrightarrow> specObj h' q = specObj h q"
  by (simp add: specObj_def)

lemma agree_mapAt: "cells h' a = cells h a \<Longrightarrow> mapAt h' a = mapAt h a"
  by (simp add: mapAt_def)

lemma agree_sliceAt: "cells h' a = cells h a \<Longrightarrow> sliceAt h' a = sliceAt h a"
  by (simp add: sliceAt_def)

lemma agree_intAt: "cells h' a = cells h a \<Longrightarrow> intAt h' a = intAt h a"
  by (simp add: intAt_def)

lemma agree_reach:
  assumes "\<forall>a \<in> reach h q. cells h' a = cells h a"
  shows "reach h' q = reach h q" and "specAt h' q = specAt h q" and "specObj h' q = specObj h q"
    and "wellTyped h' q = wellTyped h q"
proof -
  from assms have q: "cells h' q = cells h q"
    by (simp add: reach_def)
  then show so: "specObj h' q = specObj h q"
    by (rule agree_specObj)
  then show "reach h' q = reach h q"
    by (simp add: reach_def)
  from assms have l: "\<And>a. o_Labels (specObj h q) = Some a \<Longrightarrow> cells h' a = cells h a"
    and c: "\<And>a. o_Containers (specObj h q) = Some a \<Longrightarrow> cells h' a = cells h a"
    and b: "\<And>a. o_BackoffLimit (specObj h q) = Some a \<Longrightarrow> cells h' a = cells h a"
    by (simp_all add: reach_def refs_def)
  have 1: "map_option (mapAt h') (o_Labels (specObj h q)) = map_option (mapAt h) (o_Labels (specObj h q))"
    using l [THEN agree_mapAt] by (cases "o_Labels (specObj h q)") simp_all
  have 2: "(case o_Containers (specObj h q) of None \<Rightarrow> [] | Some a \<Rightarrow> sliceAt h' a)
         = (case o_Containers (specObj h q) of None \<Rightarrow> [] | Some a \<Rightarrow> sliceAt h a)"
    using c [THEN agree_sliceAt] by (cases "o_Containers (specObj h q)") simp_all
  have 3: "map_option (intAt h') (o_BackoffLimit (specObj h q)) = map_option (intAt h) (o_BackoffLimit (specObj h q))"
    using b [THEN agree_intAt] by (cases "o_BackoffLimit (specObj h q)") simp_all
  show "specAt h' q = specAt h q"
    unfolding specAt_def so Let_def 1 2 3 ..
  have 4: "holdsMap h' (o_Labels (specObj h q)) = holdsMap h (o_Labels (specObj h q))"
    using l by (simp add: holdsMap_iff)
  have 5: "holdsSlice h' (o_Containers (specObj h q)) = holdsSlice h (o_Containers (specObj h q))"
    using c by (simp add: holdsSlice_iff)
  have 6: "holdsInt h' (o_BackoffLimit (specObj h q)) = holdsInt h (o_BackoffLimit (specObj h q))"
    using b by (simp add: holdsInt_iff)
  show "wellTyped h' q = wellTyped h q"
    unfolding wellTyped_iff so 4 5 6 q ..
qed

lemma reach_allocated:
  assumes al: "allocated h" and wt: "wellTyped h p"
  shows "reach h p \<subseteq> {..< next_addr h}"
proof
  fix a assume "a \<in> reach h p"
  then have "\<exists>c. cells h a = Some c"
    using wt unfolding wellTyped_iff holdsMap_iff holdsSlice_iff holdsInt_iff reach_def refs_def
    by auto
  with al show "a \<in> {..< next_addr h}"
    unfolding allocated_iff by auto
qed

lemma alloc_props:
  assumes al: "allocated h" and run: "alloc h c = (a, h')"
  shows "allocated h'" and "next_addr h' = Suc (next_addr h)" and "a = next_addr h"
    and "cells h' a = Some c"
    and "\<forall>b. b < next_addr h \<longrightarrow> cells h' b = cells h b"
  using assms by (auto simp: alloc_def allocated_iff less_Suc_eq split: if_splits)

lemma copyRef_props:
  assumes al: "allocated h" and run: "copyRef h r = (r', h')"
  shows "allocated h'" and "next_addr h \<le> next_addr h'"
    and "\<forall>a. a < next_addr h \<longrightarrow> cells h' a = cells h a"
    and "set_option r' \<subseteq> {next_addr h ..< next_addr h'}"
    and "r = None \<Longrightarrow> r' = None"
    and "\<And>a c. r = Some a \<Longrightarrow> cells h a = Some c \<Longrightarrow> \<exists>a'. r' = Some a' \<and> cells h' a' = Some c"
proof -
  show "r = None \<Longrightarrow> r' = None"
    using run by (simp add: copyRef_def)
  show "\<And>a c. r = Some a \<Longrightarrow> cells h a = Some c \<Longrightarrow> \<exists>a'. r' = Some a' \<and> cells h' a' = Some c"
    using run by (auto simp: copyRef_def alloc_def)
  consider (same) "r' = None" "h' = h"
    | (new) c where "alloc h c = (the r', h')" "r' = Some (the r')"
    using run by (auto simp: copyRef_def split: option.splits prod.splits)
  then have "allocated h' \<and> next_addr h \<le> next_addr h'
     \<and> (\<forall>a. a < next_addr h \<longrightarrow> cells h' a = cells h a)
     \<and> set_option r' \<subseteq> {next_addr h ..< next_addr h'}"
  proof cases
    case same
    with al show ?thesis by simp
  next
    case new
    from alloc_props [OF al new(1)] new(2) show ?thesis
      by (cases r') simp_all
  qed
  then show "allocated h'" and "next_addr h \<le> next_addr h'"
    and "\<forall>a. a < next_addr h \<longrightarrow> cells h' a = cells h a"
    and "set_option r' \<subseteq> {next_addr h ..< next_addr h'}"
    by blast+
qed

lemma view_agree:
  "set_option r \<subseteq> {..< n} \<Longrightarrow> \<forall>a. a < n \<longrightarrow> cells h' a = cells h a
     \<Longrightarrow> map_option (cells h') r = map_option (cells h) r"
  by (cases r) simp_all

lemma view_agree_range:
  "set_option r \<subseteq> {m ..< n} \<Longrightarrow> \<forall>a. a < n \<longrightarrow> cells h' a = cells h a
     \<Longrightarrow> map_option (cells h') r = map_option (cells h) r"
  by (cases r) simp_all

lemma view_mapAt:
  "map_option (cells h') r' = map_option (cells h) r
     \<Longrightarrow> map_option (mapAt h') r' = map_option (mapAt h) r"
  by (cases r; cases r') (simp_all add: mapAt_def)

lemma view_intAt:
  "map_option (cells h') r' = map_option (cells h) r
     \<Longrightarrow> map_option (intAt h') r' = map_option (intAt h) r"
  by (cases r; cases r') (simp_all add: intAt_def)

lemma view_sliceAt:
  "map_option (cells h') r' = map_option (cells h) r
     \<Longrightarrow> (case r' of None \<Rightarrow> [] | Some a \<Rightarrow> sliceAt h' a) = (case r of None \<Rightarrow> [] | Some a \<Rightarrow> sliceAt h a)"
  by (cases r; cases r') (simp_all add: sliceAt_def)

lemma view_holdsMap:
  "map_option (cells h') r' = map_option (cells h) r \<Longrightarrow> holdsMap h' r' = holdsMap h r"
  by (cases r; cases r') (simp_all add: holdsMap_def)

lemma view_holdsSlice:
  "map_option (cells h') r' = map_option (cells h) r \<Longrightarrow> holdsSlice h' r' = holdsSlice h r"
  by (cases r; cases r') (simp_all add: holdsSlice_def)

lemma view_holdsInt:
  "map_option (cells h') r' = map_option (cells h) r \<Longrightarrow> holdsInt h' r' = holdsInt h r"
  by (cases r; cases r') (simp_all add: holdsInt_def)

lemma copyRef_view:
  assumes run: "copyRef h r = (r', h')" and nd: "\<forall>a. r = Some a \<longrightarrow> cells h a \<noteq> None"
  shows "map_option (cells h') r' = map_option (cells h) r"
proof (cases r)
  case None
  with run show ?thesis by (simp add: copyRef_def)
next
  case (Some a)
  with nd obtain c where c: "cells h a = Some c" by blast
  with Some run show ?thesis
    by (auto simp: copyRef_def alloc_def)
qed

lemma DeepCopy_st_props:
  assumes al: "allocated h" and run: "DeepCopy_st h s = (s', h')"
    and nd: "\<forall>a \<in> refs s. cells h a \<noteq> None"
  shows "allocated h'" and "next_addr h \<le> next_addr h'"
    and "\<forall>a. a < next_addr h \<longrightarrow> cells h' a = cells h a"
    and "refs s' \<subseteq> {next_addr h ..< next_addr h'}"
    and "o_GenerateName s' = o_GenerateName s" and "o_RestartPolicy s' = o_RestartPolicy s"
    and "map_option (cells h') (o_Labels s') = map_option (cells h) (o_Labels s)"
    and "map_option (cells h') (o_Containers s') = map_option (cells h) (o_Containers s)"
    and "map_option (cells h') (o_BackoffLimit s') = map_option (cells h) (o_BackoffLimit s)"
proof -
  obtain l h1 where 1: "copyRef h (o_Labels s) = (l, h1)"
    by (cases "copyRef h (o_Labels s)")
  obtain c h2 where 2: "copyRef h1 (o_Containers s) = (c, h2)"
    by (cases "copyRef h1 (o_Containers s)")
  obtain b h3 where 3: "copyRef h2 (o_BackoffLimit s) = (b, h3)"
    by (cases "copyRef h2 (o_BackoffLimit s)")
  from run 1 2 3 have s': "s' = s \<lparr> o_Labels := l, o_Containers := c, o_BackoffLimit := b \<rparr>"
    and h': "h' = h3"
    by (simp_all add: DeepCopy_st_def)
  note p1 = copyRef_props(1-4) [OF al 1]
  note p2 = copyRef_props(1-4) [OF p1(1) 2]
  note p3 = copyRef_props(1-4) [OF p2(1) 3]
  have below: "\<forall>a \<in> refs s. a < next_addr h"
    using nd al unfolding allocated_iff by (metis not_Some_eq)
  then have bl: "set_option (o_Labels s) \<subseteq> {..< next_addr h}"
    and bc: "set_option (o_Containers s) \<subseteq> {..< next_addr h}"
    and bb: "set_option (o_BackoffLimit s) \<subseteq> {..< next_addr h}"
    by (auto simp: refs_def)
  show "allocated h'" using p3(1) h' by simp
  show "next_addr h \<le> next_addr h'" using p1(2) p2(2) p3(2) h' by simp
  show ag: "\<forall>a. a < next_addr h \<longrightarrow> cells h' a = cells h a"
    using p1(2,3) p2(2,3) p3(3) h' by simp
  show "refs s' \<subseteq> {next_addr h ..< next_addr h'}"
    using p1(2,4) p2(2,4) p3(2,4) unfolding s' h' refs_def by auto
  show "o_GenerateName s' = o_GenerateName s" "o_RestartPolicy s' = o_RestartPolicy s"
    by (simp_all add: s')
  have v1: "map_option (cells h1) l = map_option (cells h) (o_Labels s)"
    by (rule copyRef_view [OF 1]) (use nd in \<open>simp add: refs_def\<close>)
  have "\<forall>a. a < next_addr h1 \<longrightarrow> cells h3 a = cells h1 a"
    using p2(2,3) p3(3) by simp
  from view_agree_range [OF p1(4) this] have "map_option (cells h3) l = map_option (cells h1) l" .
  with v1 show "map_option (cells h') (o_Labels s') = map_option (cells h) (o_Labels s)"
    by (simp add: s' h')
  have "map_option (cells h1) (o_Containers s) = map_option (cells h) (o_Containers s)"
    by (rule view_agree [OF bc p1(3)])
  moreover have "map_option (cells h2) c = map_option (cells h1) (o_Containers s)"
  proof (rule copyRef_view [OF 2], intro allI impI)
    fix a assume a: "o_Containers s = Some a"
    then have "a \<in> refs s" by (simp add: refs_def)
    with nd below p1(3) show "cells h1 a \<noteq> None" by simp
  qed
  moreover from view_agree_range [OF p2(4) p3(3)]
  have "map_option (cells h3) c = map_option (cells h2) c" .
  ultimately show "map_option (cells h') (o_Containers s') = map_option (cells h) (o_Containers s)"
    by (simp add: s' h')
  have ag2: "\<forall>a. a < next_addr h \<longrightarrow> cells h2 a = cells h a"
    using p1(2,3) p2(3) by simp
  have "map_option (cells h2) (o_BackoffLimit s) = map_option (cells h) (o_BackoffLimit s)"
    by (rule view_agree [OF bb ag2])
  moreover have "map_option (cells h3) b = map_option (cells h2) (o_BackoffLimit s)"
  proof (rule copyRef_view [OF 3], intro allI impI)
    fix a assume a: "o_BackoffLimit s = Some a"
    then have "a \<in> refs s" by (simp add: refs_def)
    with nd below ag2 show "cells h2 a \<noteq> None" by simp
  qed
  ultimately show "map_option (cells h') (o_BackoffLimit s') = map_option (cells h) (o_BackoffLimit s)"
    by (simp add: s' h')
qed


lemma wellTyped_refs:
  assumes "wellTyped h p"
  shows "\<forall>a \<in> refs (specObj h p). cells h a \<noteq> None"
  using assms unfolding wellTyped_iff holdsMap_iff holdsSlice_iff holdsInt_iff refs_def
  by auto

lemma specAt_views:
  assumes "map_option (cells h') (o_Labels (specObj h' q)) = map_option (cells h) (o_Labels (specObj h p))"
    and "map_option (cells h') (o_Containers (specObj h' q)) = map_option (cells h) (o_Containers (specObj h p))"
    and "map_option (cells h') (o_BackoffLimit (specObj h' q)) = map_option (cells h) (o_BackoffLimit (specObj h p))"
  shows "specAt h' q =
    (specAt h p) \<lparr> Template := (Template (specAt h p))
       \<lparr> tpl_GenerateName := o_GenerateName (specObj h' q),
         tpl_Spec := (tpl_Spec (Template (specAt h p)))
            \<lparr> RestartPolicy := o_RestartPolicy (specObj h' q) \<rparr> \<rparr> \<rparr>"
  unfolding specAt_def Let_def
  using view_mapAt [OF assms(1)] view_sliceAt [OF assms(2)] view_intAt [OF assms(3)]
  by simp

lemma wellTyped_views:
  assumes "cells h' q = Some (SpecCell (specObj h' q))"
    and "map_option (cells h') (o_Labels (specObj h' q)) = map_option (cells h) (o_Labels (specObj h p))"
    and "map_option (cells h') (o_Containers (specObj h' q)) = map_option (cells h) (o_Containers (specObj h p))"
    and "map_option (cells h') (o_BackoffLimit (specObj h' q)) = map_option (cells h) (o_BackoffLimit (specObj h p))"
    and "wellTyped h p"
  shows "wellTyped h' q"
  using assms(1,5) view_holdsMap [OF assms(2)] view_holdsSlice [OF assms(3)] view_holdsInt [OF assms(4)]
  unfolding wellTyped_iff by simp

lemma newJob_st_shape:
  assumes run: "newJob_st h p = (j, h')" and dc: "DeepCopy_st h (specObj h p) = (s, h1)"
  shows "j = next_addr h1"
    and "h' = \<lparr> cells = (cells h1)(next_addr h1 \<mapsto> SpecCell (s \<lparr> o_RestartPolicy :=
                    (if o_RestartPolicy s = [] then RestartPolicyOnFailure else o_RestartPolicy s) \<rparr>)),
               next_addr = Suc (next_addr h1) \<rparr>"
  using run dc
  by (auto simp: newJob_st_def alloc_def writeCell_def specObj_def split: if_splits)

lemma newJob_st_props:
  assumes al: "allocated h" and wt: "wellTyped h p" and run: "newJob_st h p = (j, h')"
  shows "allocated h'" and "next_addr h \<le> j" and "j < next_addr h'"
    and "\<forall>a. a < next_addr h \<longrightarrow> cells h' a = cells h a"
    and "reach h' j \<subseteq> {next_addr h ..< next_addr h'}"
    and "wellTyped h' j"
    and "specAt h' j =
      (specAt h p) \<lparr> Template := (Template (specAt h p))
         \<lparr> tpl_Spec := (tpl_Spec (Template (specAt h p)))
            \<lparr> RestartPolicy := (if RestartPolicy (tpl_Spec (Template (specAt h p))) = []
                                 then RestartPolicyOnFailure
                                 else RestartPolicy (tpl_Spec (Template (specAt h p)))) \<rparr> \<rparr> \<rparr>"
proof -
  obtain s h1 where dc: "DeepCopy_st h (specObj h p) = (s, h1)"
    by (cases "DeepCopy_st h (specObj h p)")
  note sh = newJob_st_shape [OF run dc]
  note d = DeepCopy_st_props [OF al dc wellTyped_refs [OF wt]]
  define s' where "s' = s \<lparr> o_RestartPolicy :=
      (if o_RestartPolicy s = [] then RestartPolicyOnFailure else o_RestartPolicy s) \<rparr>"
  have cells': "cells h' = (cells h1)(next_addr h1 \<mapsto> SpecCell s')"
    and next': "next_addr h' = Suc (next_addr h1)"
    unfolding sh(2) s'_def by simp_all
  have so: "specObj h' j = s'"
    by (simp add: specObj_def cells' sh(1))
  have refs': "refs s' = refs s"
    by (simp add: s'_def refs_def)
  show "allocated h'"
    using d(1) unfolding allocated_iff cells' next' by (auto simp: less_Suc_eq)
  show "next_addr h \<le> j" using d(2) sh(1) by simp
  show "j < next_addr h'" using sh(1) next' by simp
  have ag1: "\<forall>a. a < next_addr h1 \<longrightarrow> cells h' a = cells h1 a"
    by (simp add: cells')
  show "\<forall>a. a < next_addr h \<longrightarrow> cells h' a = cells h a"
    using ag1 d(2,3) by simp
  show "reach h' j \<subseteq> {next_addr h ..< next_addr h'}"
    unfolding reach_def so refs' next' using d(2,4) sh(1) by auto
  have rl: "set_option (o_Labels s) \<subseteq> {next_addr h ..< next_addr h1}"
    and rc: "set_option (o_Containers s) \<subseteq> {next_addr h ..< next_addr h1}"
    and rb: "set_option (o_BackoffLimit s) \<subseteq> {next_addr h ..< next_addr h1}"
    using d(4) by (auto simp: refs_def)
  have v1: "map_option (cells h') (o_Labels (specObj h' j)) = map_option (cells h) (o_Labels (specObj h p))"
    using view_agree_range [OF rl ag1] d(7) by (simp add: so s'_def)
  have v2: "map_option (cells h') (o_Containers (specObj h' j)) = map_option (cells h) (o_Containers (specObj h p))"
    using view_agree_range [OF rc ag1] d(8) by (simp add: so s'_def)
  have v3: "map_option (cells h') (o_BackoffLimit (specObj h' j)) = map_option (cells h) (o_BackoffLimit (specObj h p))"
    using view_agree_range [OF rb ag1] d(9) by (simp add: so s'_def)
  have cj: "cells h' j = Some (SpecCell (specObj h' j))"
    unfolding so by (simp add: cells' sh(1))
  show "wellTyped h' j"
    by (rule wellTyped_views [OF cj v1 v2 v3 wt])
  have gn: "o_GenerateName (specObj h' j) = tpl_GenerateName (Template (specAt h p))"
    by (simp add: so s'_def d(5) specAt_def Let_def)
  have rp: "o_RestartPolicy (specObj h' j) =
      (if RestartPolicy (tpl_Spec (Template (specAt h p))) = [] then RestartPolicyOnFailure
       else RestartPolicy (tpl_Spec (Template (specAt h p))))"
    by (simp add: so s'_def d(6) specAt_def Let_def)
  show "specAt h' j =
      (specAt h p) \<lparr> Template := (Template (specAt h p))
         \<lparr> tpl_Spec := (tpl_Spec (Template (specAt h p)))
            \<lparr> RestartPolicy := (if RestartPolicy (tpl_Spec (Template (specAt h p))) = []
                                 then RestartPolicyOnFailure
                                 else RestartPolicy (tpl_Spec (Template (specAt h p)))) \<rparr> \<rparr> \<rparr>"
    unfolding specAt_views [OF v1 v2 v3] gn rp by simp
qed

lemma stampTemplate_st_fresh:
  assumes c: "cells h p = Some (SpecCell s)" and l: "o_Labels s = None" and n: "p \<noteq> next_addr h"
  shows "stampTemplate_st h p name =
    \<lparr> cells = (cells h)(p \<mapsto> SpecCell (s \<lparr> o_GenerateName := name @ ''-'',
                                            o_Labels := Some (next_addr h) \<rparr>),
                         next_addr h \<mapsto> MapCell [''scaledjob'' \<mapsto> name]),
      next_addr = Suc (next_addr h) \<rparr>"
  using assms
  by (simp add: stampTemplate_st_def Let_def writeCell_def alloc_def specObj_def mapAt_def fun_upd_twist)

lemma stampTemplate_st_present:
  assumes c: "cells h p = Some (SpecCell s)" and l: "o_Labels s = Some a"
    and m: "cells h a = Some (MapCell m)"
  shows "stampTemplate_st h p name =
    h \<lparr> cells := (cells h)(p \<mapsto> SpecCell (s \<lparr> o_GenerateName := name @ ''-'' \<rparr>),
                          a \<mapsto> MapCell (m(''scaledjob'' \<mapsto> name))) \<rparr>"
proof -
  from c m have "a \<noteq> p" by auto
  with assms show ?thesis
    by (simp add: stampTemplate_st_def Let_def writeCell_def alloc_def specObj_def mapAt_def)
qed

lemma stampTemplate_st_props:
  assumes al: "allocated h" and wt: "wellTyped h p"
  shows "allocated (stampTemplate_st h p name)"
    and "wellTyped (stampTemplate_st h p name) p"
    and "specAt (stampTemplate_st h p name) p =
      (specAt h p) \<lparr> Template := (Template (specAt h p))
         \<lparr> tpl_GenerateName := name @ ''-'',
           tpl_Labels := Some ((case tpl_Labels (Template (specAt h p)) of
                                  None \<Rightarrow> Map.empty | Some m \<Rightarrow> m)(''scaledjob'' \<mapsto> name)) \<rparr> \<rparr>"
proof -
  define s where "s = specObj h p"
  from wt have c: "cells h p = Some (SpecCell s)"
    and hm: "\<forall>a. o_Labels s = Some a \<longrightarrow> (\<exists>m. cells h a = Some (MapCell m))"
    and hs: "\<forall>a. o_Containers s = Some a \<longrightarrow> (\<exists>m. cells h a = Some (SliceCell m))"
    and hi: "\<forall>a. o_BackoffLimit s = Some a \<longrightarrow> (\<exists>m. cells h a = Some (IntCell m))"
    unfolding wellTyped_iff holdsMap_iff holdsSlice_iff holdsInt_iff s_def by blast+
  from al c have pn: "p < next_addr h"
    unfolding allocated_iff by blast
  have sa: "specAt h p =
      \<lparr> Template = \<lparr> tpl_GenerateName = o_GenerateName s,
                     tpl_Labels = map_option (mapAt h) (o_Labels s),
                     tpl_Spec = \<lparr> RestartPolicy = o_RestartPolicy s,
                                  Containers = (case o_Containers s of None \<Rightarrow> []
                                                | Some a \<Rightarrow> sliceAt h a) \<rparr> \<rparr>,
        BackoffLimit = map_option (intAt h) (o_BackoffLimit s) \<rparr>"
    by (simp add: specAt_def s_def Let_def)
  have "allocated (stampTemplate_st h p name)
     \<and> wellTyped (stampTemplate_st h p name) p
     \<and> specAt (stampTemplate_st h p name) p =
      (specAt h p) \<lparr> Template := (Template (specAt h p))
         \<lparr> tpl_GenerateName := name @ ''-'',
           tpl_Labels := Some ((case tpl_Labels (Template (specAt h p)) of
                                  None \<Rightarrow> Map.empty | Some m \<Rightarrow> m)(''scaledjob'' \<mapsto> name)) \<rparr> \<rparr>"
  proof (cases "o_Labels s")
    case None
    from pn have "p \<noteq> next_addr h" by simp
    note sh = stampTemplate_st_fresh [OF c None this, of name]
    have cn: "\<And>a. o_Containers s = Some a \<Longrightarrow> a \<noteq> p \<and> a \<noteq> next_addr h"
      using hs c al unfolding allocated_iff by fastforce
    have bn: "\<And>a. o_BackoffLimit s = Some a \<Longrightarrow> a \<noteq> p \<and> a \<noteq> next_addr h"
      using hi c al unfolding allocated_iff by fastforce
    have 1: "allocated (stampTemplate_st h p name)"
      using al pn unfolding sh allocated_iff by (auto simp: less_Suc_eq)
    have 2: "wellTyped (stampTemplate_st h p name) p"
      unfolding sh wellTyped_def holdsMap_def holdsSlice_def holdsInt_def
      using pn hs hi cn bn
      by (auto split: option.splits)
    have oth: "\<And>b. b \<noteq> p \<and> b \<noteq> next_addr h \<Longrightarrow> cells (stampTemplate_st h p name) b = cells h b"
      unfolding sh by simp
    have vc: "map_option (cells (stampTemplate_st h p name)) (o_Containers s) = map_option (cells h) (o_Containers s)"
      using cn [THEN oth] by (cases "o_Containers s") simp_all
    have vb: "map_option (cells (stampTemplate_st h p name)) (o_BackoffLimit s) = map_option (cells h) (o_BackoffLimit s)"
      using bn [THEN oth] by (cases "o_BackoffLimit s") simp_all
    have so: "specObj (stampTemplate_st h p name) p
        = s \<lparr> o_GenerateName := name @ ''-'', o_Labels := Some (next_addr h) \<rparr>"
      unfolding sh specObj_def using pn by simp
    have lab: "mapAt (stampTemplate_st h p name) (next_addr h) = [''scaledjob'' \<mapsto> name]"
      unfolding sh mapAt_def by simp
    have 3: "specAt (stampTemplate_st h p name) p =
      (specAt h p) \<lparr> Template := (Template (specAt h p))
         \<lparr> tpl_GenerateName := name @ ''-'',
           tpl_Labels := Some ((case tpl_Labels (Template (specAt h p)) of
                                  None \<Rightarrow> Map.empty | Some m \<Rightarrow> m)(''scaledjob'' \<mapsto> name)) \<rparr> \<rparr>"
      unfolding sa unfolding specAt_def Let_def so
      using view_sliceAt [OF vc] view_intAt [OF vb] lab None
      by simp
    from 1 2 3 show ?thesis by blast
  next
    case (Some a)
    with hm obtain m where m: "cells h a = Some (MapCell m)" by blast
    note sh = stampTemplate_st_present [OF c Some m, of name]
    from c m have ap: "a \<noteq> p" by auto
    have cn: "\<And>b. o_Containers s = Some b \<Longrightarrow> b \<noteq> p \<and> b \<noteq> a"
      using hs c m by fastforce
    have bn: "\<And>b. o_BackoffLimit s = Some b \<Longrightarrow> b \<noteq> p \<and> b \<noteq> a"
      using hi c m by fastforce
    have 1: "allocated (stampTemplate_st h p name)"
      using al c m unfolding sh allocated_iff by (auto split: if_splits)
    have 2: "wellTyped (stampTemplate_st h p name) p"
      unfolding sh wellTyped_def holdsMap_def holdsSlice_def holdsInt_def
      using ap Some hs hi cn bn
      by (auto split: option.splits)
    have oth: "\<And>b. b \<noteq> p \<and> b \<noteq> a \<Longrightarrow> cells (stampTemplate_st h p name) b = cells h b"
      unfolding sh by simp
    have vc: "map_option (cells (stampTemplate_st h p name)) (o_Containers s) = map_option (cells h) (o_Containers s)"
      using cn [THEN oth] by (cases "o_Containers s") simp_all
    have vb: "map_option (cells (stampTemplate_st h p name)) (o_BackoffLimit s) = map_option (cells h) (o_BackoffLimit s)"
      using bn [THEN oth] by (cases "o_BackoffLimit s") simp_all
    have so: "specObj (stampTemplate_st h p name) p = s \<lparr> o_GenerateName := name @ ''-'' \<rparr>"
      unfolding sh specObj_def using ap by simp
    have lab: "mapAt (stampTemplate_st h p name) a = m(''scaledjob'' \<mapsto> name)"
      unfolding sh mapAt_def by simp
    have lab0: "mapAt h a = m"
      unfolding mapAt_def by (simp add: m)
    have 3: "specAt (stampTemplate_st h p name) p =
      (specAt h p) \<lparr> Template := (Template (specAt h p))
         \<lparr> tpl_GenerateName := name @ ''-'',
           tpl_Labels := Some ((case tpl_Labels (Template (specAt h p)) of
                                  None \<Rightarrow> Map.empty | Some m \<Rightarrow> m)(''scaledjob'' \<mapsto> name)) \<rparr> \<rparr>"
      unfolding sa unfolding specAt_def Let_def so
      using view_sliceAt [OF vc] view_intAt [OF vb] lab lab0 Some
      by simp
    from 1 2 3 show ?thesis by blast
  qed
  then show "allocated (stampTemplate_st h p name)"
    and "wellTyped (stampTemplate_st h p name) p"
    and "specAt (stampTemplate_st h p name) p =
      (specAt h p) \<lparr> Template := (Template (specAt h p))
         \<lparr> tpl_GenerateName := name @ ''-'',
           tpl_Labels := Some ((case tpl_Labels (Template (specAt h p)) of
                                  None \<Rightarrow> Map.empty | Some m \<Rightarrow> m)(''scaledjob'' \<mapsto> name)) \<rparr> \<rparr>"
    by blast+
qed

lemma job_Spec_buildJob:
  "job_Spec (buildJob e sj) =
      (JobTargetRef sj) \<lparr> Template := (Template (JobTargetRef sj))
            \<lparr> tpl_Spec := (tpl_Spec (Template (JobTargetRef sj)))
               \<lparr> RestartPolicy :=
                   (if RestartPolicy (tpl_Spec (Template (JobTargetRef sj))) = []
                    then RestartPolicyOnFailure
                    else RestartPolicy (tpl_Spec (Template (JobTargetRef sj)))) \<rparr> \<rparr> \<rparr>"
  by (simp add: buildJob_def newJob_def setRestartPolicy_def DeepCopy_def Let_def split: sum.splits)

lemma agree_below:
  assumes "reach h q \<subseteq> {..< n}" and "\<forall>a. a < n \<longrightarrow> cells h' a = cells h a"
  shows "reach h' q = reach h q" and "specAt h' q = specAt h q" and "wellTyped h' q = wellTyped h q"
proof -
  from assms have "\<forall>a \<in> reach h q. cells h' a = cells h a" by auto
  from agree_reach(1,2,4) [OF this]
  show "reach h' q = reach h q" and "specAt h' q = specAt h q" and "wellTyped h' q = wellTyped h q" .
qed

lemma createJobs_loop_st_props:
  assumes al: "allocated h" and wt: "wellTyped h p" and sp: "specAt h p = JobTargetRef sj"
    and run: "createJobs_loop_st h p n = (js, h')"
  shows "allocated h' \<and> next_addr h \<le> next_addr h'
     \<and> (\<forall>a. a < next_addr h \<longrightarrow> cells h' a = cells h a)
     \<and> length js = n \<and> distinct js
     \<and> (\<forall>j \<in> set js. reach h' j \<subseteq> {next_addr h ..< next_addr h'} \<and> wellTyped h' j
            \<and> specAt h' j = job_Spec (buildJob e sj))
     \<and> (\<forall>x \<in> set js. \<forall>y \<in> set js. x \<noteq> y \<longrightarrow> reach h' x \<inter> reach h' y = {})"
  using al wt sp run
proof (induction n arbitrary: h js h')
  case 0
  then show ?case by simp
next
  case (Suc n)
  obtain j h1 where nj: "newJob_st h p = (j, h1)"
    by (cases "newJob_st h p")
  obtain js' h2 where lp: "createJobs_loop_st h1 p n = (js', h2)"
    by (cases "createJobs_loop_st h1 p n")
  from Suc.prems(4) nj lp have js: "js = j # js'" and h': "h' = h2"
    by simp_all
  note n = newJob_st_props [OF Suc.prems(1,2) nj]
  note rp = reach_allocated [OF Suc.prems(1,2)]
  note ag = agree_below [OF rp n(4)]
  have wt1: "wellTyped h1 p"
    using ag(3) Suc.prems(2) by simp
  have sp1: "specAt h1 p = JobTargetRef sj"
    using ag(2) Suc.prems(3) by simp
  note ih = Suc.IH [OF n(1) wt1 sp1 lp]
  from ih have al2: "allocated h2" and le2: "next_addr h1 \<le> next_addr h2"
    and ag2: "\<forall>a. a < next_addr h1 \<longrightarrow> cells h2 a = cells h1 a"
    and len: "length js' = n" and dis: "distinct js'"
    and each: "\<forall>j \<in> set js'. reach h2 j \<subseteq> {next_addr h1 ..< next_addr h2} \<and> wellTyped h2 j
            \<and> specAt h2 j = job_Spec (buildJob e sj)"
    and pair: "\<forall>x \<in> set js'. \<forall>y \<in> set js'. x \<noteq> y \<longrightarrow> reach h2 x \<inter> reach h2 y = {}"
    by blast+
  have le1: "next_addr h \<le> next_addr h1"
    using n(2,3) by simp
  have rj1: "reach h1 j \<subseteq> {..< next_addr h1}"
    using n(5) by auto
  note agj = agree_below [OF rj1 ag2]
  have rj: "reach h2 j \<subseteq> {next_addr h ..< next_addr h1}"
    using agj(1) n(5) by simp
  have wj: "wellTyped h2 j"
    using agj(3) n(6) by simp
  have sj: "specAt h2 j = job_Spec (buildJob e sj)"
    using agj(2) n(7) Suc.prems(3) by (simp add: job_Spec_buildJob)
  have jin: "j \<in> reach h2 j"
    by (simp add: reach_def)
  have notin: "j \<notin> set js'"
  proof
    assume "j \<in> set js'"
    with each have "reach h2 j \<subseteq> {next_addr h1 ..< next_addr h2}" by blast
    with jin have "next_addr h1 \<le> j" by auto
    moreover from jin rj have "j < next_addr h1" by auto
    ultimately show False by simp
  qed
  have cross: "\<forall>y \<in> set js'. reach h2 j \<inter> reach h2 y = {}"
    using rj each by fastforce
  have 1: "allocated h'" using al2 h' by simp
  have 2: "next_addr h \<le> next_addr h'" using le1 le2 h' by simp
  have 3: "\<forall>a. a < next_addr h \<longrightarrow> cells h' a = cells h a"
    using ag2 n(4) le1 h' by simp
  have 4: "length js = Suc n" using len js by simp
  have 5: "distinct js" using dis notin js by simp
  have 6: "\<forall>x \<in> set js. reach h' x \<subseteq> {next_addr h ..< next_addr h'} \<and> wellTyped h' x
            \<and> specAt h' x = job_Spec (buildJob e sj)"
  proof
    fix x assume "x \<in> set js"
    then consider "x = j" | "x \<in> set js'" using js by auto
    then show "reach h' x \<subseteq> {next_addr h ..< next_addr h'} \<and> wellTyped h' x
            \<and> specAt h' x = job_Spec (buildJob e sj)"
    proof cases
      case 1
      have "reach h2 j \<subseteq> {next_addr h ..< next_addr h2}"
        using rj le2 by auto
      with 1 wj sj h' show ?thesis by simp
    next
      case 2
      with each have e: "reach h2 x \<subseteq> {next_addr h1 ..< next_addr h2}" "wellTyped h2 x"
        "specAt h2 x = job_Spec (buildJob e sj)"
        by blast+
      from e(1) le1 have "reach h2 x \<subseteq> {next_addr h ..< next_addr h2}" by auto
      with e(2,3) h' show ?thesis by simp
    qed
  qed
  have 7: "\<forall>x \<in> set js. \<forall>y \<in> set js. x \<noteq> y \<longrightarrow> reach h' x \<inter> reach h' y = {}"
    unfolding js h' using cross pair by (auto simp: Int_commute)
  from 1 2 3 4 5 6 7 show ?case by blast
qed

subsection \<open>A later write commutes with the rest of the batch\<close>

lemma next_addr_writeCell [simp]: "next_addr (writeCell h a c) = next_addr h"
  by (simp add: writeCell_def)

lemma cells_writeCell: "cells (writeCell h a c) = (cells h)(a \<mapsto> c)"
  by (simp add: writeCell_def)

lemma specObj_writeCell: "a \<noteq> p \<Longrightarrow> specObj (writeCell h a c) p = specObj h p"
  by (simp add: specObj_def writeCell_def)

lemma writeCell_twice: "a \<noteq> b \<Longrightarrow> writeCell (writeCell h a c) b d = writeCell (writeCell h b d) a c"
  by (simp add: writeCell_def fun_upd_twist)

lemma alloc_writeCell:
  "a \<noteq> next_addr h \<Longrightarrow> alloc (writeCell h a c) d = (fst (alloc h d), writeCell (snd (alloc h d)) a c)"
  by (simp add: alloc_def writeCell_def fun_upd_twist)

lemma copyRef_writeCell:
  assumes "r \<noteq> Some a" and "a \<noteq> next_addr h"
  shows "copyRef (writeCell h a c) r = (fst (copyRef h r), writeCell (snd (copyRef h r)) a c)"
proof (cases r)
  case None
  then show ?thesis by (simp add: copyRef_def)
next
  case (Some b)
  with assms have ba: "b \<noteq> a" by simp
  show ?thesis
  proof (cases "cells h b")
    case None
    with Some ba show ?thesis by (simp add: copyRef_def cells_writeCell)
  next
    case (Some d)
    with \<open>r = Some b\<close> ba assms(2) show ?thesis
      by (simp add: copyRef_def cells_writeCell alloc_writeCell split: prod.splits)
  qed
qed

lemma next_addr_copyRef: "next_addr h \<le> next_addr (snd (copyRef h r))"
  by (simp add: copyRef_def alloc_def split: option.splits)

lemma DeepCopy_st_writeCell:
  assumes r: "a \<notin> refs s" and a: "a < next_addr h"
  shows "DeepCopy_st (writeCell h a c) s = (fst (DeepCopy_st h s), writeCell (snd (DeepCopy_st h s)) a c)"
proof -
  obtain l h1 where 1: "copyRef h (o_Labels s) = (l, h1)"
    by (cases "copyRef h (o_Labels s)")
  obtain cc h2 where 2: "copyRef h1 (o_Containers s) = (cc, h2)"
    by (cases "copyRef h1 (o_Containers s)")
  obtain b h3 where 3: "copyRef h2 (o_BackoffLimit s) = (b, h3)"
    by (cases "copyRef h2 (o_BackoffLimit s)")
  from r have rl: "o_Labels s \<noteq> Some a" and rc: "o_Containers s \<noteq> Some a"
    and rb: "o_BackoffLimit s \<noteq> Some a"
    by (auto simp: refs_def)
  have n1: "next_addr h \<le> next_addr h1"
    using next_addr_copyRef [of h "o_Labels s"] 1 by simp
  have n2: "next_addr h1 \<le> next_addr h2"
    using next_addr_copyRef [of h1 "o_Containers s"] 2 by simp
  have p1: "copyRef (writeCell h a c) (o_Labels s) = (l, writeCell h1 a c)"
    using copyRef_writeCell [OF rl, of h c] a 1 by simp
  have p2: "copyRef (writeCell h1 a c) (o_Containers s) = (cc, writeCell h2 a c)"
    using copyRef_writeCell [OF rc, of h1 c] a n1 2 by simp
  have p3: "copyRef (writeCell h2 a c) (o_BackoffLimit s) = (b, writeCell h3 a c)"
    using copyRef_writeCell [OF rb, of h2 c] a n1 n2 3 by simp
  show ?thesis
    by (simp add: DeepCopy_st_def 1 2 3 p1 p2 p3)
qed

lemma next_addr_DeepCopy_st: "next_addr h \<le> next_addr (snd (DeepCopy_st h s))"
proof -
  obtain l h1 where 1: "copyRef h (o_Labels s) = (l, h1)"
    by (cases "copyRef h (o_Labels s)")
  obtain cc h2 where 2: "copyRef h1 (o_Containers s) = (cc, h2)"
    by (cases "copyRef h1 (o_Containers s)")
  obtain b h3 where 3: "copyRef h2 (o_BackoffLimit s) = (b, h3)"
    by (cases "copyRef h2 (o_BackoffLimit s)")
  have "next_addr h \<le> next_addr h1"
    using next_addr_copyRef [of h "o_Labels s"] 1 by simp
  also have "\<dots> \<le> next_addr h2"
    using next_addr_copyRef [of h1 "o_Containers s"] 2 by simp
  also have "\<dots> \<le> next_addr h3"
    using next_addr_copyRef [of h2 "o_BackoffLimit s"] 3 by simp
  finally show ?thesis
    by (simp add: DeepCopy_st_def 1 2 3)
qed

lemma newJob_st_writeCell:
  assumes r: "a \<notin> reach h p" and a: "a < next_addr h"
  shows "newJob_st (writeCell h a c) p = (fst (newJob_st h p), writeCell (snd (newJob_st h p)) a c)"
proof -
  from r have ap: "a \<noteq> p" and ar: "a \<notin> refs (specObj h p)"
    by (simp_all add: reach_def)
  obtain s h1 where dc: "DeepCopy_st h (specObj h p) = (s, h1)"
    by (cases "DeepCopy_st h (specObj h p)")
  have n1: "next_addr h \<le> next_addr h1"
    using next_addr_DeepCopy_st [of h "specObj h p"] dc by simp
  with a have an: "a \<noteq> next_addr h1" by simp
  have dcp: "DeepCopy_st (writeCell h a c) (specObj (writeCell h a c) p) = (s, writeCell h1 a c)"
    using DeepCopy_st_writeCell [OF ar a, of c] dc by (simp add: specObj_writeCell [OF ap])
  obtain j h2 where al: "alloc h1 (SpecCell s) = (j, h2)"
    by (cases "alloc h1 (SpecCell s)")
  then have j: "j = next_addr h1"
    by (simp add: alloc_def)
  have alp: "alloc (writeCell h1 a c) (SpecCell s) = (j, writeCell h2 a c)"
    using alloc_writeCell [OF an, of c "SpecCell s"] al by simp
  have aj: "a \<noteq> j" using an j by simp
  show ?thesis
    by (simp add: newJob_st_def dc dcp al alp specObj_writeCell [OF aj] writeCell_twice [OF aj])
qed

lemma createJobs_loop_st_writeCell:
  assumes al: "allocated h" and wt: "wellTyped h p"
    and r: "a \<notin> reach h p" and a: "a < next_addr h"
  shows "createJobs_loop_st (writeCell h a c) p n
       = (fst (createJobs_loop_st h p n), writeCell (snd (createJobs_loop_st h p n)) a c)"
  using al wt r a
proof (induction n arbitrary: h)
  case 0
  then show ?case by simp
next
  case (Suc n)
  obtain j h1 where nj: "newJob_st h p = (j, h1)"
    by (cases "newJob_st h p")
  note n = newJob_st_props [OF Suc.prems(1,2) nj]
  note rp = reach_allocated [OF Suc.prems(1,2)]
  note ag = agree_below [OF rp n(4)]
  have wt1: "wellTyped h1 p" using ag(3) Suc.prems(2) by simp
  have r1: "a \<notin> reach h1 p" using ag(1) Suc.prems(3) by simp
  have a1: "a < next_addr h1" using Suc.prems(4) n(2,3) by simp
  note ih = Suc.IH [OF n(1) wt1 r1 a1]
  show ?case
    by (simp add: newJob_st_writeCell [OF Suc.prems(3,4)] nj ih split: prod.splits)
qed

lemma writeCell_frame:
  assumes "a \<notin> reach h q"
  shows "specAt (writeCell h a c) q = specAt h q" and "reach (writeCell h a c) q = reach h q"
proof -
  from assms have "\<forall>b \<in> reach h q. cells (writeCell h a c) b = cells h b"
    by (auto simp: cells_writeCell)
  from agree_reach(1,2) [OF this]
  show "specAt (writeCell h a c) q = specAt h q" and "reach (writeCell h a c) q = reach h q" by simp_all
qed

lemma map_const: "(\<forall>x \<in> set xs. f x = c) \<Longrightarrow> map f xs = replicate (length xs) c"
  by (induction xs) simp_all

lemma JobTargetRef_stampTemplate:
  "JobTargetRef (stampTemplate sj) =
     (JobTargetRef sj) \<lparr> Template := (Template (JobTargetRef sj))
         \<lparr> tpl_GenerateName := sj_Name sj @ ''-'',
           tpl_Labels := Some ((case tpl_Labels (Template (JobTargetRef sj)) of
                                  None \<Rightarrow> Map.empty | Some m \<Rightarrow> m)(''scaledjob'' \<mapsto> sj_Name sj)) \<rparr> \<rparr>"
  by (simp add: stampTemplate_def Let_def)

lemma createJobs_st_props:
  assumes al: "allocated h" and wt: "wellTyped h p" and sp: "specAt h p = JobTargetRef sj"
    and st: "createJobs_st h p (sj_Name sj) scaleTo maxScale = (js, h')"
  shows "specAt h' p = JobTargetRef (stampTemplate sj)"
    and "length js = nat (min (sint scaleTo) (sint maxScale))"
    and "distinct js"
    and "\<forall>x \<in> set js. specAt h' x = job_Spec (buildJob e (stampTemplate sj))"
    and "\<forall>x \<in> set js. reach h' x \<inter> reach h' p = {}"
    and "\<forall>x \<in> set js. \<forall>y \<in> set js. x \<noteq> y \<longrightarrow> reach h' x \<inter> reach h' y = {}"
proof -
  define hs where "hs = stampTemplate_st h p (sj_Name sj)"
  note s = stampTemplate_st_props [OF al wt, of "sj_Name sj", folded hs_def]
  have sps: "specAt hs p = JobTargetRef (stampTemplate sj)"
    unfolding s(3) sp JobTargetRef_stampTemplate ..
  from st have lp: "createJobs_loop_st hs p (nat (min (sint scaleTo) (sint maxScale))) = (js, h')"
    by (simp add: createJobs_st_def Let_def hs_def min_def split: if_splits)
  note l = createJobs_loop_st_props [OF s(1,2) sps lp, of e]
  note rp = reach_allocated [OF s(1,2)]
  from l have ag: "\<forall>a. a < next_addr hs \<longrightarrow> cells h' a = cells hs a" by blast
  note agp = agree_below [OF rp ag]
  show "specAt h' p = JobTargetRef (stampTemplate sj)"
    using agp(2) sps by simp
  show "length js = nat (min (sint scaleTo) (sint maxScale))" using l by blast
  show "distinct js" using l by blast
  show "\<forall>x \<in> set js. specAt h' x = job_Spec (buildJob e (stampTemplate sj))" using l by blast
  show "\<forall>x \<in> set js. \<forall>y \<in> set js. x \<noteq> y \<longrightarrow> reach h' x \<inter> reach h' y = {}" using l by blast
  show "\<forall>x \<in> set js. reach h' x \<inter> reach h' p = {}"
  proof
    fix x assume "x \<in> set js"
    with l have "reach h' x \<subseteq> {next_addr hs ..< next_addr h'}" by blast
    moreover have "reach h' p \<subseteq> {..< next_addr hs}" using agp(1) rp by simp
    ultimately show "reach h' x \<inter> reach h' p = {}" by fastforce
  qed
qed

lemma createJobs_st_during:
  assumes al: "allocated h" and wt: "wellTyped h p" and sp: "specAt h p = JobTargetRef sj"
    and k: "createJobs_loop_st (stampTemplate_st h p (sj_Name sj)) p k = (js1, h1)"
    and x: "x \<in> set js1" and a: "a \<in> reach h1 x"
  shows "createJobs_loop_st (writeCell h1 a c) p m
           = (fst (createJobs_loop_st h1 p m), writeCell (snd (createJobs_loop_st h1 p m)) a c)"
    and "specAt (writeCell h1 a c) p = JobTargetRef (stampTemplate sj)"
    and "\<forall>y \<in> set (fst (createJobs_loop_st h1 p m)).
           specAt (writeCell (snd (createJobs_loop_st h1 p m)) a c) y = job_Spec (buildJob e (stampTemplate sj))"
proof -
  define hs where "hs = stampTemplate_st h p (sj_Name sj)"
  note s = stampTemplate_st_props [OF al wt, of "sj_Name sj", folded hs_def]
  have sps: "specAt hs p = JobTargetRef (stampTemplate sj)"
    unfolding s(3) sp JobTargetRef_stampTemplate ..
  note l = createJobs_loop_st_props [OF s(1,2) sps k [folded hs_def], of e]
  note rp = reach_allocated [OF s(1,2)]
  from l have ag: "\<forall>a. a < next_addr hs \<longrightarrow> cells h1 a = cells hs a" by blast
  note agp = agree_below [OF rp ag]
  from l have al1: "allocated h1" by blast
  have wt1: "wellTyped h1 p" using agp(3) s(2) by simp
  have sp1: "specAt h1 p = JobTargetRef (stampTemplate sj)" using agp(2) sps by simp
  from l x have rx: "reach h1 x \<subseteq> {next_addr hs ..< next_addr h1}" by blast
  with a have a1: "a < next_addr h1" and a2: "next_addr hs \<le> a" by auto
  have "reach h1 p \<subseteq> {..< next_addr hs}" using agp(1) rp by simp
  with a2 have ap: "a \<notin> reach h1 p" by auto
  show "createJobs_loop_st (writeCell h1 a c) p m
           = (fst (createJobs_loop_st h1 p m), writeCell (snd (createJobs_loop_st h1 p m)) a c)"
    by (rule createJobs_loop_st_writeCell [OF al1 wt1 ap a1])
  show "specAt (writeCell h1 a c) p = JobTargetRef (stampTemplate sj)"
    using writeCell_frame(1) [OF ap] sp1 by simp
  obtain js2 h2 where m: "createJobs_loop_st h1 p m = (js2, h2)"
    by (cases "createJobs_loop_st h1 p m")
  note l2 = createJobs_loop_st_props [OF al1 wt1 sp1 m, of e]
  show "\<forall>y \<in> set (fst (createJobs_loop_st h1 p m)).
           specAt (writeCell (snd (createJobs_loop_st h1 p m)) a c) y = job_Spec (buildJob e (stampTemplate sj))"
  proof
    fix y assume "y \<in> set (fst (createJobs_loop_st h1 p m))"
    then have y: "y \<in> set js2" using m by simp
    with l2 have ry: "reach h2 y \<subseteq> {next_addr h1 ..< next_addr h2}"
      and sy: "specAt h2 y = job_Spec (buildJob e (stampTemplate sj))" by blast+
    from ry a1 have "a \<notin> reach h2 y" by auto
    from writeCell_frame(1) [OF this] sy m
    show "specAt (writeCell (snd (createJobs_loop_st h1 p m)) a c) y = job_Spec (buildJob e (stampTemplate sj))"
      by simp
  qed
qed

subsection \<open>The example cluster\<close>

lemma isJobFinished_mkJob [simp]: "isJobFinished (mkJob n t tm) \<longleftrightarrow> t = JobComplete \<or> t = JobFailed"
  by (auto simp: isJobFinished_def mkJob_def zeroJob_def JobComplete_def JobFailed_def)

lemma getFinishedJobConditionType_mkJob [simp]:
  "getFinishedJobConditionType (mkJob n t tm) = (if t = JobComplete \<or> t = JobFailed then t else [])"
  by (auto simp: getFinishedJobConditionType_def mkJob_def zeroJob_def JobComplete_def JobFailed_def)

lemma job_Name_mkJob [simp]: "job_Name (mkJob n t tm) = n"
  by (simp add: mkJob_def)

lemma CompletionTime_mkJob [simp]: "CompletionTime (job_Status (mkJob n t tm)) = tm"
  by (simp add: mkJob_def)

lemma demo_running:
  "fst (getRunningJobCount demoExecutor sj m (demoWorld items)) = countRunning items 0"
  by (simp add: getRunningJobCount_def client_List_def demoExecutor_def demoWorld_def)

lemma RestartPolicy_buildJob:
  "RestartPolicy (tpl_Spec (Template (job_Spec (buildJob e sj)))) =
     (if RestartPolicy (tpl_Spec (Template (JobTargetRef sj))) = [] then RestartPolicyOnFailure
      else RestartPolicy (tpl_Spec (Template (JobTargetRef sj))))"
  by (simp add: buildJob_def newJob_def setRestartPolicy_def DeepCopy_def Let_def split: sum.splits)

lemma tpl_Spec_stampTemplate [simp]:
  "tpl_Spec (Template (JobTargetRef (stampTemplate sj))) = tpl_Spec (Template (JobTargetRef sj))"
  by (simp add: stampTemplate_def Let_def)

lemma job_Name_zeroJob [simp]: "job_Name zeroJob = []"
  by (simp add: zeroJob_def)

lemma completedBefore_mkJob [simp]:
  "completedBefore (mkJob n t (Some a)) (mkJob n' t' (Some b)) \<longleftrightarrow> a < b"
  by (simp add: completedBefore_def Before_def)

lemma isCompleted_mkJob [simp]: "isCompleted (mkJob n t tm) \<longleftrightarrow> t = JobComplete"
  by (auto simp: isCompleted_def JobComplete_def JobFailed_def)

lemma isFailed_mkJob [simp]: "isFailed (mkJob n t tm) \<longleftrightarrow> t = JobFailed"
  by (auto simp: isFailed_def JobComplete_def JobFailed_def)

lemma JobComplete_neq_JobFailed [simp]: "JobComplete \<noteq> JobFailed" "JobFailed \<noteq> JobComplete"
  by (simp_all add: JobComplete_def JobFailed_def)

lemmas demo_defs = cleanUp_def client_List_def demoExecutor_def demoWorld_def demoTarget_def selector_def
        emptySlice_def append_slice_def len_def cap_def sortJobs_def insertionSort_def
        byCompletedTime_Less_def successfulLimit_def failedLimit_def
        deleteJobsWithHistoryLimit_def slice_upto_def client_Delete_def DeepCopyObject_def
        JobComplete_def JobFailed_def Let_def flakyExecutor_def fiveCompleted_def
        defaultSuccessfulJobsHistoryLimit_def defaultFailedJobsHistoryLimit_def

lemma demo_sort3:
  "sort_Sort demoExecutor byCompletedTime_Less
     [mkJob ''c'' JobComplete (Some 3), mkJob ''a'' JobComplete (Some 1), mkJob ''b'' JobComplete (Some 2)]
   = [mkJob ''a'' JobComplete (Some 1), mkJob ''b'' JobComplete (Some 2), mkJob ''c'' JobComplete (Some 3)]"
  by (simp add: demoExecutor_def insertionSort_def byCompletedTime_Less_def)

lemma demo_sort1: "sort_Sort demoExecutor lt [x] = [x]" "sort_Sort demoExecutor lt [] = []"
  by (simp_all add: demoExecutor_def insertionSort_def)

lemma demo_limits:
  "successfulLimit demoTarget = 1" "failedLimit demoTarget = 100"
  by (simp_all add: demoTarget_def successfulLimit_def failedLimit_def defaultFailedJobsHistoryLimit_def)

lemma demo_List: "c_List demoExecutor (remote (demoWorld items)) ns sel = (Inr items, items)"
  by (simp add: demoExecutor_def demoWorld_def)

lemma demo_cleanUp4:
  "cleanUp demoExecutor demoTarget
     (demoWorld [mkJob ''c'' JobComplete (Some 3), mkJob ''a'' JobComplete (Some 1),
                 mkJob ''f'' JobFailed None, mkJob ''b'' JobComplete (Some 2)])
   = (Inr None,
      \<lparr> remote = [mkJob ''c'' JobComplete (Some 3), mkJob ''f'' JobFailed None],
        trace = [ListCall ''n'' [(''scaledjob'', ''t'')],
                 DeleteCall (mkJob ''a'' JobComplete (Some 1)),
                 DeleteCall (mkJob ''b'' JobComplete (Some 2))] \<rparr>)"
  by (simp add: demo_defs)

lemmas store_defs = createJobs_st_def stampTemplate_st_def newJob_st_def DeepCopy_st_def copyRef_def
  alloc_def writeCell_def specObj_def mapAt_def sliceAt_def intAt_def Let_def demoStore_def

lemma demoStore_ok:
  "allocated demoStore" "wellTyped demoStore 0" "specAt demoStore 0 = JobTargetRef demoTarget"
  by (simp_all add: allocated_def wellTyped_def holdsMap_def holdsSlice_def holdsInt_def specAt_def
        store_defs demoTarget_def)

lemma demo_createJobs_st:
  "createJobs_st demoStore 0 ''t'' 2 2 =
     ([5, 8],
      \<lparr> cells = [0 \<mapsto> SpecCell \<lparr> o_GenerateName = ''t-'', o_Labels = Some 2, o_RestartPolicy = [],
                                  o_Containers = Some 1, o_BackoffLimit = None \<rparr>,
                 1 \<mapsto> SliceCell [''c''],
                 2 \<mapsto> MapCell [''scaledjob'' \<mapsto> ''t''],
                 3 \<mapsto> MapCell [''scaledjob'' \<mapsto> ''t''],
                 4 \<mapsto> SliceCell [''c''],
                 5 \<mapsto> SpecCell \<lparr> o_GenerateName = ''t-'', o_Labels = Some 3,
                                  o_RestartPolicy = ''OnFailure'',
                                  o_Containers = Some 4, o_BackoffLimit = None \<rparr>,
                 6 \<mapsto> MapCell [''scaledjob'' \<mapsto> ''t''],
                 7 \<mapsto> SliceCell [''c''],
                 8 \<mapsto> SpecCell \<lparr> o_GenerateName = ''t-'', o_Labels = Some 6,
                                  o_RestartPolicy = ''OnFailure'',
                                  o_Containers = Some 7, o_BackoffLimit = None \<rparr>],
        next_addr = 9 \<rparr>)"
  by (simp add: store_defs eval_nat_numeral RestartPolicyOnFailure_def fun_upd_twist)

section \<open>The claims\<close>

subsection \<open>How many jobs are created\<close>

text \<open>
  C1. For a non-negative \<open>scaleTo\<close> (the desired count) and a non-negative \<open>maxScale\<close>
  (the effective ceiling), \<open>createJobs\<close> issues exactly \<open>min scaleTo maxScale\<close> Create
  calls, whether or not they succeed. When \<open>RequestJobScale\<close> is called on an active
  target with a ceiling of 5 and a desired count of 10 while 3 jobs are running, it
  issues 2 creates; with an effective ceiling of 0 \<open>createJobs\<close> issues none, whatever
  the desired count, and so does \<open>RequestJobScale\<close> with a ceiling of 5 while 7 jobs are
  running.
\<close>

theorem createJobs_count:
  "(0 \<le> sint scaleTo \<and> 0 \<le> sint maxScale \<longrightarrow>
      int (length (created (issued w (snd (createJobs e sj scaleTo maxScale w)))))
        = min (sint scaleTo) (sint maxScale))
   \<and> (fst (getRunningJobCount e sj 5 w) = 3 \<longrightarrow>
        length (created (issued w (snd (snd (RequestJobScale e sj True 10 5 w))))) = 2)
   \<and> length (created (issued w (snd (createJobs e sj scaleTo 0 w)))) = 0
   \<and> (fst (getRunningJobCount e sj 5 w) = 7 \<longrightarrow>
        length (created (issued w (snd (snd (RequestJobScale e sj isActive scaleTo 5 w))))) = 0)"
  by (simp add: createJobs_issued RequestJobScale_created effectiveMaxScale_def)

theorem createJobs_count_witness:
  "(0::int) \<le> sint (3 :: int64) \<and> (0::int) \<le> sint (2 :: int64)
   \<and> int (length (created (issued (demoWorld [])
          (snd (createJobs demoExecutor demoTarget 3 2 (demoWorld [])))))) = min (sint (3 :: int64)) (sint (2 :: int64))
   \<and> fst (getRunningJobCount demoExecutor demoTarget 5 (demoWorld (replicate 3 (mkJob ''r'' [] None)))) = 3
   \<and> length (created (issued (demoWorld (replicate 3 (mkJob ''r'' [] None)))
        (snd (snd (RequestJobScale demoExecutor demoTarget True 10 5
           (demoWorld (replicate 3 (mkJob ''r'' [] None)))))))) = 2
   \<and> fst (getRunningJobCount demoExecutor demoTarget 5 (demoWorld (replicate 7 (mkJob ''r'' [] None)))) = 7
   \<and> length (created (issued (demoWorld (replicate 7 (mkJob ''r'' [] None)))
        (snd (snd (RequestJobScale demoExecutor demoTarget True 10 5
           (demoWorld (replicate 7 (mkJob ''r'' [] None)))))))) = 0"
proof -
  have r3: "fst (getRunningJobCount demoExecutor demoTarget 5 (demoWorld (replicate 3 (mkJob ''r'' [] None)))) = 3"
    by (simp add: demo_running countRunning_eq JobComplete_def JobFailed_def)
  have r7: "fst (getRunningJobCount demoExecutor demoTarget 5 (demoWorld (replicate 7 (mkJob ''r'' [] None)))) = 7"
    by (simp add: demo_running countRunning_eq JobComplete_def JobFailed_def)
  show ?thesis
    using createJobs_count [of 3 2 "demoWorld []" demoExecutor demoTarget]
      createJobs_count [of 3 2 "demoWorld (replicate 3 (mkJob ''r'' [] None))" demoExecutor demoTarget]
      createJobs_count [of 10 2 "demoWorld (replicate 7 (mkJob ''r'' [] None))" demoExecutor demoTarget True]
      r3 r7
    by simp
qed

text \<open>
  C2. For a non-negative ceiling \<open>maxScale\<close> and a non-negative running count, the
  effective ceiling that \<open>RequestJobScale\<close> computes (lines 30 to 34, before any job is
  created) is \<open>max 0 (maxScale - runningJobCount)\<close>, and it is not negative.
\<close>

theorem effectiveMaxScale_eq:
  "0 \<le> sint maxScale \<Longrightarrow> 0 \<le> sint runningJobCount \<Longrightarrow>
     sint (effectiveMaxScale maxScale runningJobCount) = max 0 (sint maxScale - sint runningJobCount)
     \<and> 0 \<le> sint (effectiveMaxScale maxScale runningJobCount)"
  by (simp add: effectiveMaxScale_def Let_def sint_sub_nonneg)

theorem effectiveMaxScale_eq_witness:
  "(0::int) \<le> sint (5 :: int64) \<and> (0::int) \<le> sint (7 :: int64)
   \<and> sint (effectiveMaxScale 5 7) = max 0 (sint (5 :: int64) - sint (7 :: int64))
   \<and> 0 \<le> sint (effectiveMaxScale 5 7)
   \<and> sint (effectiveMaxScale 5 3) = 2"
  using effectiveMaxScale_eq [of 5 7] effectiveMaxScale_eq [of 5 3] by simp

subsection \<open>The template and the created jobs\<close>

text \<open>
  C3, as amended. Every job handed to Create carries an independent deep copy of the
  template of the target. On the store: read out of it, the target and the jobs are those
  of the value model (the store model refines it); the jobs are distinct objects; a
  write to a cell of one job, to the object itself or to its map, slice or integer cell,
  after the batch, leaves the specification of every other job and the template of the
  target as they were; and such a write during the batch, after any number of
  iterations, leaves the template of the target as it was and the jobs created after it
  the same objects with the same specifications.
  What \<open>createJobs\<close> leaves unchanged is not the whole template of the target: before it
  builds the first job it sets \<open>GenerateName\<close> to the name of the target followed by a
  dash and the label \<open>scaledjob\<close> to the name of the target (in a new map when the
  template had none). Nothing else of the target changes: the pod specification of the
  template, its restart policy included, is what it was, also where the created jobs got
  \<open>OnFailure\<close>.
\<close>

theorem createJobs_template_frame:
  fixes e :: "'s scaleExecutor"
  assumes run: "createJobs e sj scaleTo maxScale w = (sj', w')"
    and al: "allocated h" and wt: "wellTyped h p" and sp: "specAt h p = JobTargetRef sj"
    and st: "createJobs_st h p (sj_Name sj) scaleTo maxScale = (js, h')"
  shows "sj' = sj \<lparr> JobTargetRef := (JobTargetRef sj) \<lparr> Template := (Template (JobTargetRef sj))
             \<lparr> tpl_GenerateName := sj_Name sj @ ''-'',
               tpl_Labels := Some ((case tpl_Labels (Template (JobTargetRef sj)) of
                                      None \<Rightarrow> Map.empty | Some m \<Rightarrow> m)
                                   (''scaledjob'' \<mapsto> sj_Name sj)) \<rparr> \<rparr> \<rparr>
     \<and> tpl_Spec (Template (JobTargetRef sj')) = tpl_Spec (Template (JobTargetRef sj))
     \<and> (\<forall>job. CreateCall job \<in> set (issued w w') \<longrightarrow>
          job_Spec job = (JobTargetRef sj') \<lparr> Template := (Template (JobTargetRef sj'))
            \<lparr> tpl_Spec := (tpl_Spec (Template (JobTargetRef sj')))
               \<lparr> RestartPolicy :=
                   (if RestartPolicy (tpl_Spec (Template (JobTargetRef sj))) = []
                    then RestartPolicyOnFailure
                    else RestartPolicy (tpl_Spec (Template (JobTargetRef sj)))) \<rparr> \<rparr> \<rparr>)
     \<and> specAt h' p = JobTargetRef sj'
     \<and> map (specAt h') js = map job_Spec (created (issued w w'))
     \<and> distinct js
     \<and> (\<forall>x \<in> set js. \<forall>a \<in> reach h' x. \<forall>c.
            specAt (writeCell h' a c) p = specAt h' p
          \<and> (\<forall>y \<in> set js. y \<noteq> x \<longrightarrow> specAt (writeCell h' a c) y = specAt h' y))
     \<and> (\<forall>k m js1 h1 x a c.
            createJobs_loop_st (stampTemplate_st h p (sj_Name sj)) p k = (js1, h1)
              \<and> x \<in> set js1 \<and> a \<in> reach h1 x \<longrightarrow>
            createJobs_loop_st (writeCell h1 a c) p m
              = (fst (createJobs_loop_st h1 p m), writeCell (snd (createJobs_loop_st h1 p m)) a c)
          \<and> specAt (writeCell h1 a c) p = JobTargetRef sj'
          \<and> (\<forall>y \<in> set (fst (createJobs_loop_st h1 p m)).
                specAt (writeCell (snd (createJobs_loop_st h1 p m)) a c) y
                  = job_Spec (buildJob e sj')))"
proof -
  from run have sj': "sj' = stampTemplate sj"
    by (simp add: createJobs_def Let_def)
  have w': "w' = snd (createJobs e sj scaleTo maxScale w)"
    using run by simp
  note iss = createJobs_issued [of w e sj scaleTo maxScale, folded w']
  note p = createJobs_st_props(1-3,5,6) [OF al wt sp st]
  note p4 = createJobs_st_props(4) [OF al wt sp st, where e = e]
  have 1: "sj' = sj \<lparr> JobTargetRef := (JobTargetRef sj) \<lparr> Template := (Template (JobTargetRef sj))
             \<lparr> tpl_GenerateName := sj_Name sj @ ''-'',
               tpl_Labels := Some ((case tpl_Labels (Template (JobTargetRef sj)) of
                                      None \<Rightarrow> Map.empty | Some m \<Rightarrow> m)
                                   (''scaledjob'' \<mapsto> sj_Name sj)) \<rparr> \<rparr> \<rparr>"
    unfolding sj' by (simp add: stampTemplate_def Let_def)
  have 2: "tpl_Spec (Template (JobTargetRef sj')) = tpl_Spec (Template (JobTargetRef sj))"
    unfolding sj' by simp
  have 3: "\<forall>job. CreateCall job \<in> set (issued w w') \<longrightarrow>
          job_Spec job = (JobTargetRef sj') \<lparr> Template := (Template (JobTargetRef sj'))
            \<lparr> tpl_Spec := (tpl_Spec (Template (JobTargetRef sj')))
               \<lparr> RestartPolicy :=
                   (if RestartPolicy (tpl_Spec (Template (JobTargetRef sj))) = []
                    then RestartPolicyOnFailure
                    else RestartPolicy (tpl_Spec (Template (JobTargetRef sj)))) \<rparr> \<rparr> \<rparr>"
    unfolding iss sj' using job_Spec_buildJob [of e "stampTemplate sj"]
    by (auto split: if_splits)
  have 4: "specAt h' p = JobTargetRef sj'"
    unfolding sj' by (rule p(1))
  have 5: "map (specAt h') js = map job_Spec (created (issued w w'))"
    unfolding iss using map_const [OF p4] p(2) by simp
  have 6: "distinct js" by (rule p(3))
  have 7: "\<forall>x \<in> set js. \<forall>a \<in> reach h' x. \<forall>c.
            specAt (writeCell h' a c) p = specAt h' p
          \<and> (\<forall>y \<in> set js. y \<noteq> x \<longrightarrow> specAt (writeCell h' a c) y = specAt h' y)"
  proof (intro ballI allI conjI impI)
    fix x a c assume x: "x \<in> set js" and a: "a \<in> reach h' x"
    from p(4) x a have "a \<notin> reach h' p" by blast
    then show "specAt (writeCell h' a c) p = specAt h' p" by (rule writeCell_frame(1))
    fix y assume y: "y \<in> set js" "y \<noteq> x"
    with p(5) x a have "a \<notin> reach h' y" by blast
    then show "specAt (writeCell h' a c) y = specAt h' y" by (rule writeCell_frame(1))
  qed
  have 8: "\<forall>k m js1 h1 x a c.
            createJobs_loop_st (stampTemplate_st h p (sj_Name sj)) p k = (js1, h1)
              \<and> x \<in> set js1 \<and> a \<in> reach h1 x \<longrightarrow>
            createJobs_loop_st (writeCell h1 a c) p m
              = (fst (createJobs_loop_st h1 p m), writeCell (snd (createJobs_loop_st h1 p m)) a c)
          \<and> specAt (writeCell h1 a c) p = JobTargetRef sj'
          \<and> (\<forall>y \<in> set (fst (createJobs_loop_st h1 p m)).
                specAt (writeCell (snd (createJobs_loop_st h1 p m)) a c) y
                  = job_Spec (buildJob e sj'))"
    unfolding sj'
  proof (intro allI impI, elim conjE)
    fix k m js1 h1 x a c
    assume k: "createJobs_loop_st (stampTemplate_st h p (sj_Name sj)) p k = (js1, h1)"
      and x: "x \<in> set js1" and a: "a \<in> reach h1 x"
    from createJobs_st_during(1) [OF al wt sp k x a, where c = c and m = m]
      createJobs_st_during(2) [OF al wt sp k x a, where c = c]
      createJobs_st_during(3) [OF al wt sp k x a, where c = c and m = m and e = e]
    show "createJobs_loop_st (writeCell h1 a c) p m
              = (fst (createJobs_loop_st h1 p m), writeCell (snd (createJobs_loop_st h1 p m)) a c)
          \<and> specAt (writeCell h1 a c) p = JobTargetRef (stampTemplate sj)
          \<and> (\<forall>y \<in> set (fst (createJobs_loop_st h1 p m)).
                specAt (writeCell (snd (createJobs_loop_st h1 p m)) a c) y
                  = job_Spec (buildJob e (stampTemplate sj)))"
      by blast
  qed
  from 1 2 3 4 5 6 7 8 show ?thesis
    by (intro conjI)
qed

theorem createJobs_template_frame_witness:
  "createJobs demoExecutor demoTarget 2 2 (demoWorld [])
     = (fst (createJobs demoExecutor demoTarget 2 2 (demoWorld [])),
        snd (createJobs demoExecutor demoTarget 2 2 (demoWorld [])))
   \<and> allocated demoStore \<and> wellTyped demoStore 0 \<and> specAt demoStore 0 = JobTargetRef demoTarget
   \<and> fst (createJobs_st demoStore 0 (sj_Name demoTarget) 2 2) = [5, 8]
   \<and> 3 \<in> reach (snd (createJobs_st demoStore 0 (sj_Name demoTarget) 2 2)) 5
   \<and> specAt (snd (createJobs_st demoStore 0 (sj_Name demoTarget) 2 2)) 0
       = \<lparr> Template = \<lparr> tpl_GenerateName = ''t-'', tpl_Labels = Some [''scaledjob'' \<mapsto> ''t''],
                        tpl_Spec = \<lparr> RestartPolicy = [], Containers = [''c''] \<rparr> \<rparr>,
           BackoffLimit = None \<rparr>
   \<and> map (specAt (snd (createJobs_st demoStore 0 (sj_Name demoTarget) 2 2))) [5, 8]
       = replicate 2
           \<lparr> Template = \<lparr> tpl_GenerateName = ''t-'', tpl_Labels = Some [''scaledjob'' \<mapsto> ''t''],
                          tpl_Spec = \<lparr> RestartPolicy = ''OnFailure'', Containers = [''c''] \<rparr> \<rparr>,
             BackoffLimit = None \<rparr>
   \<and> map job_Spec (created (issued (demoWorld [])
          (snd (createJobs demoExecutor demoTarget 2 2 (demoWorld [])))))
       = replicate 2
           \<lparr> Template = \<lparr> tpl_GenerateName = ''t-'', tpl_Labels = Some [''scaledjob'' \<mapsto> ''t''],
                          tpl_Spec = \<lparr> RestartPolicy = ''OnFailure'', Containers = [''c''] \<rparr> \<rparr>,
             BackoffLimit = None \<rparr>
   \<and> tpl_Labels (Template (specAt
          (writeCell (snd (createJobs_st demoStore 0 (sj_Name demoTarget) 2 2)) 3 (MapCell [''x'' \<mapsto> ''y''])) 5))
       = Some [''x'' \<mapsto> ''y'']
   \<and> specAt (writeCell (snd (createJobs_st demoStore 0 (sj_Name demoTarget) 2 2)) 3 (MapCell [''x'' \<mapsto> ''y''])) 8
       = specAt (snd (createJobs_st demoStore 0 (sj_Name demoTarget) 2 2)) 8
   \<and> specAt (writeCell (snd (createJobs_st demoStore 0 (sj_Name demoTarget) 2 2)) 3 (MapCell [''x'' \<mapsto> ''y''])) 0
       = specAt (snd (createJobs_st demoStore 0 (sj_Name demoTarget) 2 2)) 0"
proof -
  let ?h' = "snd (createJobs_st demoStore 0 (sj_Name demoTarget) 2 2)"
  let ?w' = "snd (createJobs demoExecutor demoTarget 2 2 (demoWorld []))"
  let ?c = "MapCell [''x'' \<mapsto> ''y'']"
  have nm: "sj_Name demoTarget = ''t''"
    by (simp add: demoTarget_def)
  have run: "createJobs demoExecutor demoTarget 2 2 (demoWorld [])
     = (fst (createJobs demoExecutor demoTarget 2 2 (demoWorld [])), ?w')"
    by simp
  have js: "fst (createJobs_st demoStore 0 (sj_Name demoTarget) 2 2) = [5, 8]"
    by (simp add: nm demo_createJobs_st)
  have st: "createJobs_st demoStore 0 (sj_Name demoTarget) 2 2 = ([5, 8], ?h')"
    using js by (simp add: prod_eq_iff)
  have r: "3 \<in> reach ?h' 5"
    by (simp add: nm demo_createJobs_st reach_def refs_def specObj_def)
  have lab: "tpl_Labels (Template (specAt (writeCell ?h' 3 ?c) 5)) = Some [''x'' \<mapsto> ''y'']"
    by (simp add: nm demo_createJobs_st specAt_def specObj_def mapAt_def writeCell_def Let_def)
  note t = createJobs_template_frame [OF run demoStore_ok st]
  from t have t4: "specAt ?h' 0 = JobTargetRef (fst (createJobs demoExecutor demoTarget 2 2 (demoWorld [])))"
    by blast
  from t have t5: "map (specAt ?h') [5, 8] = map job_Spec (created (issued (demoWorld []) ?w'))"
    by blast
  from t have t7: "\<forall>x \<in> set [5, 8]. \<forall>a \<in> reach ?h' x. \<forall>c.
            specAt (writeCell ?h' a c) 0 = specAt ?h' 0
          \<and> (\<forall>y \<in> set [5, 8]. y \<noteq> x \<longrightarrow> specAt (writeCell ?h' a c) y = specAt ?h' y)"
    by blast
  from t7 r have f0: "specAt (writeCell ?h' 3 ?c) 0 = specAt ?h' 0"
    and f8: "specAt (writeCell ?h' 3 ?c) 8 = specAt ?h' 8"
    by simp_all
  have v: "map job_Spec (created (issued (demoWorld []) ?w'))
       = replicate 2
           \<lparr> Template = \<lparr> tpl_GenerateName = ''t-'', tpl_Labels = Some [''scaledjob'' \<mapsto> ''t''],
                          tpl_Spec = \<lparr> RestartPolicy = ''OnFailure'', Containers = [''c''] \<rparr> \<rparr>,
             BackoffLimit = None \<rparr>"
    by (simp add: createJobs_issued job_Spec_buildJob stampTemplate_def demoTarget_def Let_def
          RestartPolicyOnFailure_def)
  have tg: "JobTargetRef (fst (createJobs demoExecutor demoTarget 2 2 (demoWorld [])))
       = \<lparr> Template = \<lparr> tpl_GenerateName = ''t-'', tpl_Labels = Some [''scaledjob'' \<mapsto> ''t''],
                        tpl_Spec = \<lparr> RestartPolicy = [], Containers = [''c''] \<rparr> \<rparr>,
           BackoffLimit = None \<rparr>"
    by (simp add: createJobs_def stampTemplate_def demoTarget_def Let_def)
  from run demoStore_ok js r t4 [unfolded tg] t5 [unfolded v] v lab f8 f0 show ?thesis
    by (intro conjI)
qed

text \<open>
  The claim as it was stated, "the template of the target, its GenerateName and labels
  included, is left unchanged", fails on a target whose template has no \<open>GenerateName\<close>
  and no labels: after \<open>createJobs\<close> it has both.
\<close>

theorem createJobs_changes_template:
  "tpl_GenerateName (Template (JobTargetRef demoTarget)) = []
   \<and> tpl_GenerateName (Template (JobTargetRef (fst (createJobs demoExecutor demoTarget 1 1 (demoWorld []))))) = ''t-''
   \<and> tpl_Labels (Template (JobTargetRef demoTarget)) = None
   \<and> tpl_Labels (Template (JobTargetRef (fst (createJobs demoExecutor demoTarget 1 1 (demoWorld []))))) \<noteq> None
   \<and> Template (JobTargetRef (fst (createJobs demoExecutor demoTarget 1 1 (demoWorld []))))
       \<noteq> Template (JobTargetRef demoTarget)"
  by (simp add: createJobs_def stampTemplate_def demoTarget_def Let_def)

subsection \<open>Pruning\<close>

text \<open>
  C4. Take a pass of \<open>cleanUp\<close> whose List succeeded, with a \<open>sort.Sort\<close> that permutes.
  The instances a class retains are the listed jobs of the class for which the pass
  issued no Delete. If the pass returns no error, the completed class retains at most
  \<open>successfulLimit\<close> instances and the failed class at most \<open>failedLimit\<close>, where the
  limit is the one of the target when set and 100 otherwise. This holds when the limits
  are not negative (the precondition of \<open>deleteJobsWithHistoryLimit\<close>, see C9), and for
  any limits when the cluster refuses to delete an object without a name: a pass with
  a negative limit then panics or returns an error. A class that was within its limit
  loses no instance, and when both are, the pass issues no Delete at all and returns no
  error.
\<close>

theorem cleanUp_retention:
  fixes e :: "'s scaleExecutor" and items :: "Job list"
  defines "Sc \<equiv> sort_Sort e byCompletedTime_Less (filter isCompleted items)"
    and "Sf \<equiv> sort_Sort e byCompletedTime_Less (filter isFailed items)"
  assumes list: "c_List e (remote w) (sj_Namespace sj) (selector sj) = (Inr items, s1)"
    and perm_c: "mset Sc = mset (filter isCompleted items)"
    and perm_f: "mset Sf = mset (filter isFailed items)"
    and run: "cleanUp e sj w = (r, w')"
  shows "(r = Inr None
          \<and> (0 \<le> sint (successfulLimit sj) \<and> 0 \<le> sint (failedLimit sj) \<or> refusesUnnamed e) \<longrightarrow>
            int (size (mset (filter isCompleted items) - mset (deleted (issued w w'))))
              \<le> sint (successfulLimit sj)
          \<and> int (size (mset (filter isFailed items) - mset (deleted (issued w w'))))
              \<le> sint (failedLimit sj))
    \<and> (int (length (filter isCompleted items)) \<le> sint (successfulLimit sj) \<longrightarrow>
          set (deleted (issued w w')) \<inter> set (filter isCompleted items) = {})
    \<and> (int (length (filter isFailed items)) \<le> sint (failedLimit sj) \<longrightarrow>
          set (deleted (issued w w')) \<inter> set (filter isFailed items) = {})
    \<and> (int (length (filter isCompleted items)) \<le> sint (successfulLimit sj)
        \<and> int (length (filter isFailed items)) \<le> sint (failedLimit sj) \<longrightarrow>
          r = Inr None \<and> issued w w' = [ListCall (sj_Namespace sj) (selector sj)])
    \<and> (SuccessfulJobsHistoryLimit sj = None \<longrightarrow> successfulLimit sj = 100)
    \<and> (FailedJobsHistoryLimit sj = None \<longrightarrow> failedLimit sj = 100)
    \<and> (\<forall>l. SuccessfulJobsHistoryLimit sj = Some l \<longrightarrow> successfulLimit sj = l)
    \<and> (\<forall>l. FailedJobsHistoryLimit sj = Some l \<longrightarrow> failedLimit sj = l)"
proof -
  have lc: "length Sc = length (filter isCompleted items)"
    using perm_c by (rule mset_eq_length)
  have lf: "length Sf = length (filter isFailed items)"
    using perm_f by (rule mset_eq_length)
  have sc: "set Sc = set (filter isCompleted items)"
    using perm_c by (rule mset_eq_setD)
  have sf: "set Sf = set (filter isFailed items)"
    using perm_f by (rule mset_eq_setD)
  from cleanUp_calls [OF list run] obtain dc df where
    calls: "issued w w' = ListCall (sj_Namespace sj) (selector sj) # map DeleteCall (dc @ df)"
    and dc: "set dc \<subseteq> set Sc \<union> {zeroJob}" and df: "set df \<subseteq> set Sf \<union> {zeroJob}"
    and ec: "int (length Sc) \<le> sint (successfulLimit sj) \<longrightarrow> dc = []"
    and ef: "int (length Sf) \<le> sint (failedLimit sj) \<longrightarrow> df = []"
    and ok: "int (length Sc) \<le> sint (successfulLimit sj) \<and> int (length Sf) \<le> sint (failedLimit sj)
                \<longrightarrow> r = Inr None"
    and nn: "r = Inr None \<and> refusesUnnamed e \<longrightarrow>
                0 \<le> sint (successfulLimit sj) \<and> 0 \<le> sint (failedLimit sj)"
    unfolding Sc_def Sf_def by blast
  have del: "deleted (issued w w') = dc @ df"
    unfolding calls by simp
  have bounds: "int (size (mset (filter isCompleted items) - mset (deleted (issued w w'))))
              \<le> sint (successfulLimit sj)
          \<and> int (size (mset (filter isFailed items) - mset (deleted (issued w w'))))
              \<le> sint (failedLimit sj)"
    if "r = Inr None
          \<and> (0 \<le> sint (successfulLimit sj) \<and> 0 \<le> sint (failedLimit sj) \<or> refusesUnnamed e)"
  proof -
    from that nn have k: "0 \<le> sint (successfulLimit sj)" "0 \<le> sint (failedLimit sj)"
      by blast+
    from that run have run': "cleanUp e sj w = (Inr None, w')"
      by simp
    show ?thesis
      using cleanUp_bounds_nonneg [OF list perm_c [unfolded Sc_def] perm_f [unfolded Sf_def] k run'] .
  qed
  have within_c: "set (deleted (issued w w')) \<inter> set (filter isCompleted items) = {}"
    if "int (length (filter isCompleted items)) \<le> sint (successfulLimit sj)"
  proof -
    from that ec lc have "dc = []" by simp
    with del df sf have "set (deleted (issued w w')) \<subseteq> set (filter isFailed items) \<union> {zeroJob}"
      by simp
    then show ?thesis
      using isCompleted_not_isFailed by fastforce
  qed
  have within_f: "set (deleted (issued w w')) \<inter> set (filter isFailed items) = {}"
    if "int (length (filter isFailed items)) \<le> sint (failedLimit sj)"
  proof -
    from that ef lf have "df = []" by simp
    with del dc sc have "set (deleted (issued w w')) \<subseteq> set (filter isCompleted items) \<union> {zeroJob}"
      by simp
    then show ?thesis
      using isCompleted_not_isFailed by fastforce
  qed
  have both: "r = Inr None \<and> issued w w' = [ListCall (sj_Namespace sj) (selector sj)]"
    if "int (length (filter isCompleted items)) \<le> sint (successfulLimit sj)
        \<and> int (length (filter isFailed items)) \<le> sint (failedLimit sj)"
    using that ec ef ok lc lf calls by simp
  have limits: "(SuccessfulJobsHistoryLimit sj = None \<longrightarrow> successfulLimit sj = 100)
    \<and> (FailedJobsHistoryLimit sj = None \<longrightarrow> failedLimit sj = 100)
    \<and> (\<forall>l. SuccessfulJobsHistoryLimit sj = Some l \<longrightarrow> successfulLimit sj = l)
    \<and> (\<forall>l. FailedJobsHistoryLimit sj = Some l \<longrightarrow> failedLimit sj = l)"
    by (simp add: successfulLimit_def failedLimit_def defaultSuccessfulJobsHistoryLimit_def
          defaultFailedJobsHistoryLimit_def)
  from bounds within_c within_f both limits show ?thesis
    by blast
qed

theorem cleanUp_retention_witness:
  "c_List demoExecutor
      (remote (demoWorld [mkJob ''c'' JobComplete (Some 3), mkJob ''a'' JobComplete (Some 1),
                 mkJob ''f'' JobFailed None, mkJob ''b'' JobComplete (Some 2)]))
      (sj_Namespace demoTarget) (selector demoTarget)
     = (Inr [mkJob ''c'' JobComplete (Some 3), mkJob ''a'' JobComplete (Some 1),
             mkJob ''f'' JobFailed None, mkJob ''b'' JobComplete (Some 2)],
        [mkJob ''c'' JobComplete (Some 3), mkJob ''a'' JobComplete (Some 1),
             mkJob ''f'' JobFailed None, mkJob ''b'' JobComplete (Some 2)])
   \<and> sint (successfulLimit demoTarget) = 1 \<and> sint (failedLimit demoTarget) = 100
   \<and> refusesUnnamed demoExecutor
   \<and> fst (cleanUp demoExecutor demoTarget
        (demoWorld [mkJob ''c'' JobComplete (Some 3), mkJob ''a'' JobComplete (Some 1),
                 mkJob ''f'' JobFailed None, mkJob ''b'' JobComplete (Some 2)])) = Inr None
   \<and> deleted (issued
        (demoWorld [mkJob ''c'' JobComplete (Some 3), mkJob ''a'' JobComplete (Some 1),
                 mkJob ''f'' JobFailed None, mkJob ''b'' JobComplete (Some 2)])
        (snd (cleanUp demoExecutor demoTarget
          (demoWorld [mkJob ''c'' JobComplete (Some 3), mkJob ''a'' JobComplete (Some 1),
                 mkJob ''f'' JobFailed None, mkJob ''b'' JobComplete (Some 2)]))))
       = [mkJob ''a'' JobComplete (Some 1), mkJob ''b'' JobComplete (Some 2)]
   \<and> int (size (mset (filter isCompleted [mkJob ''c'' JobComplete (Some 3), mkJob ''a'' JobComplete (Some 1),
                 mkJob ''f'' JobFailed None, mkJob ''b'' JobComplete (Some 2)])
         - mset (deleted (issued
        (demoWorld [mkJob ''c'' JobComplete (Some 3), mkJob ''a'' JobComplete (Some 1),
                 mkJob ''f'' JobFailed None, mkJob ''b'' JobComplete (Some 2)])
        (snd (cleanUp demoExecutor demoTarget
          (demoWorld [mkJob ''c'' JobComplete (Some 3), mkJob ''a'' JobComplete (Some 1),
                 mkJob ''f'' JobFailed None, mkJob ''b'' JobComplete (Some 2)])))))))
       \<le> sint (successfulLimit demoTarget)
   \<and> cleanUp demoExecutor (demoTarget \<lparr> SuccessfulJobsHistoryLimit := None \<rparr>)
        (demoWorld [mkJob ''a'' JobComplete (Some 1), mkJob ''f'' JobFailed None])
       = (Inr None, \<lparr> remote = [mkJob ''a'' JobComplete (Some 1), mkJob ''f'' JobFailed None],
                      trace = [ListCall ''n'' [(''scaledjob'', ''t'')]] \<rparr>)"
proof -
  let ?c = "mkJob ''c'' JobComplete (Some 3)" and ?a = "mkJob ''a'' JobComplete (Some 1)"
  let ?f = "mkJob ''f'' JobFailed None" and ?b = "mkJob ''b'' JobComplete (Some 2)"
  let ?items = "[?c, ?a, ?f, ?b]"
  let ?w' = "\<lparr> remote = [?c, ?f],
        trace = [ListCall ''n'' [(''scaledjob'', ''t'')], DeleteCall ?a, DeleteCall ?b] \<rparr>"
  let ?sj2 = "demoTarget \<lparr> SuccessfulJobsHistoryLimit := None \<rparr>"
  let ?w2 = "\<lparr> remote = [?a, ?f], trace = [ListCall ''n'' [(''scaledjob'', ''t'')]] \<rparr>"
  have list: "c_List demoExecutor (remote (demoWorld ?items)) (sj_Namespace demoTarget) (selector demoTarget)
      = (Inr ?items, ?items)"
    by (rule demo_List)
  have pc: "mset (sort_Sort demoExecutor byCompletedTime_Less (filter isCompleted ?items))
      = mset (filter isCompleted ?items)"
    by (simp add: demo_sort3)
  have pf: "mset (sort_Sort demoExecutor byCompletedTime_Less (filter isFailed ?items))
      = mset (filter isFailed ?items)"
    by (simp add: demo_sort1)
  have kc: "0 \<le> sint (successfulLimit demoTarget)" and kf: "0 \<le> sint (failedLimit demoTarget)"
    by (simp_all add: demo_limits)
  have run: "cleanUp demoExecutor demoTarget (demoWorld ?items) = (Inr None, ?w')"
    by (rule demo_cleanUp4)
  have ref: "refusesUnnamed demoExecutor"
    by (simp add: refusesUnnamed_def demoExecutor_def)
  note t = cleanUp_retention [OF list pc pf run]
  have list2: "c_List demoExecutor (remote (demoWorld [?a, ?f])) (sj_Namespace ?sj2) (selector ?sj2)
      = (Inr [?a, ?f], [?a, ?f])"
    by (rule demo_List)
  have pc2: "mset (sort_Sort demoExecutor byCompletedTime_Less (filter isCompleted [?a, ?f]))
      = mset (filter isCompleted [?a, ?f])"
    by (simp add: demo_sort1)
  have pf2: "mset (sort_Sort demoExecutor byCompletedTime_Less (filter isFailed [?a, ?f]))
      = mset (filter isFailed [?a, ?f])"
    by (simp add: demo_sort1)
  have l2: "successfulLimit ?sj2 = 100" "failedLimit ?sj2 = 100"
    by (simp_all add: demoTarget_def successfulLimit_def failedLimit_def
          defaultFailedJobsHistoryLimit_def defaultSuccessfulJobsHistoryLimit_def)
  have kc2: "0 \<le> sint (successfulLimit ?sj2)" and kf2: "0 \<le> sint (failedLimit ?sj2)"
    by (simp_all add: l2)
  have run2: "cleanUp demoExecutor ?sj2 (demoWorld [?a, ?f]) = (Inr None, ?w2)"
    by (simp add: demo_defs)
  note t2 = cleanUp_retention [OF list2 pc2 pf2 run2]
  have "int (length (filter isCompleted [?a, ?f])) \<le> sint (successfulLimit ?sj2)
        \<and> int (length (filter isFailed [?a, ?f])) \<le> sint (failedLimit ?sj2)"
    by (simp add: l2)
  with t2 have c2: "issued (demoWorld [?a, ?f]) ?w2 = [ListCall (sj_Namespace ?sj2) (selector ?sj2)]"
    by blast
  from t kc kf ref have "int (size (mset (filter isCompleted ?items) - mset (deleted (issued (demoWorld ?items) ?w'))))
      \<le> sint (successfulLimit demoTarget)"
    by blast
  with list run run2 c2 ref show ?thesis
    by (simp add: demo_limits demoWorld_def issued_def)
qed




text \<open>
  C6. The first Delete that fails ends the batch: when the deletes of the jobs \<open>pre\<close>
  have succeeded and the delete of the next job \<open>j\<close> fails, \<open>deleteJobsWithHistoryLimit\<close>
  returns that error, it has issued the deletes of \<open>pre\<close> and of \<open>j\<close> and no other, so no
  call is made for the jobs \<open>post\<close> behind \<open>j\<close>. \<open>cleanUp\<close> returns the error of either
  batch to its caller, and it does not start the batch of the failed jobs when the
  batch of the completed jobs has failed. With five scheduled deletions of which the
  third fails, the first two jobs are deleted, the third call is the last one made,
  and jobs three to five stay.
\<close>

theorem first_delete_failure_aborts:
  "(\<not> int (len jobs) \<le> sint historyLimit
      \<and> slice_upto jobs (int (len jobs) - sint historyLimit) = Inr (pre @ j # post)
      \<and> deleteJobs_loop e pre w = (None, w1)
      \<and> c_Delete e (remote w1) j = (Some err, s2)
    \<longrightarrow> deleteJobsWithHistoryLimit e jobs historyLimit w =
          (Inr (Some err), \<lparr> remote = s2, trace = trace w @ map DeleteCall (pre @ [j]) \<rparr>))
   \<and> (c_List e (remote w0) (sj_Namespace sj) (selector sj) = (Inr items, s)
      \<and> deleteJobsWithHistoryLimit e
           (sortJobs e (fst (classify (growslice e) items emptySlice emptySlice)))
           (successfulLimit sj)
           \<lparr> remote = s, trace = trace w0 @ [ListCall (sj_Namespace sj) (selector sj)] \<rparr>
         = (Inr (Some err), w2)
    \<longrightarrow> cleanUp e sj w0 = (Inr (Some err), w2))
   \<and> (c_List e (remote w0) (sj_Namespace sj) (selector sj) = (Inr items, s)
      \<and> deleteJobsWithHistoryLimit e
           (sortJobs e (fst (classify (growslice e) items emptySlice emptySlice)))
           (successfulLimit sj)
           \<lparr> remote = s, trace = trace w0 @ [ListCall (sj_Namespace sj) (selector sj)] \<rparr>
         = (Inr None, w2)
      \<and> deleteJobsWithHistoryLimit e
           (sortJobs e (snd (classify (growslice e) items emptySlice emptySlice)))
           (failedLimit sj) w2
         = (Inr (Some err), w3)
    \<longrightarrow> cleanUp e sj w0 = (Inr (Some err), w3))"
proof (intro conjI impI)
  assume "\<not> int (len jobs) \<le> sint historyLimit
      \<and> slice_upto jobs (int (len jobs) - sint historyLimit) = Inr (pre @ j # post)
      \<and> deleteJobs_loop e pre w = (None, w1)
      \<and> c_Delete e (remote w1) j = (Some err, s2)"
  then show "deleteJobsWithHistoryLimit e jobs historyLimit w =
          (Inr (Some err), \<lparr> remote = s2, trace = trace w @ map DeleteCall (pre @ [j]) \<rparr>)"
    using deleteJobs_loop_first_failure [of e pre w w1 j err s2 post]
    by (simp add: deleteJobsWithHistoryLimit_def Let_def)
next
  assume "c_List e (remote w0) (sj_Namespace sj) (selector sj) = (Inr items, s)
      \<and> deleteJobsWithHistoryLimit e
           (sortJobs e (fst (classify (growslice e) items emptySlice emptySlice)))
           (successfulLimit sj)
           \<lparr> remote = s, trace = trace w0 @ [ListCall (sj_Namespace sj) (selector sj)] \<rparr>
         = (Inr (Some err), w2)"
  then show "cleanUp e sj w0 = (Inr (Some err), w2)"
    by (auto simp: cleanUp_def client_List_def split: prod.splits)
next
  assume "c_List e (remote w0) (sj_Namespace sj) (selector sj) = (Inr items, s)
      \<and> deleteJobsWithHistoryLimit e
           (sortJobs e (fst (classify (growslice e) items emptySlice emptySlice)))
           (successfulLimit sj)
           \<lparr> remote = s, trace = trace w0 @ [ListCall (sj_Namespace sj) (selector sj)] \<rparr>
         = (Inr None, w2)
      \<and> deleteJobsWithHistoryLimit e
           (sortJobs e (snd (classify (growslice e) items emptySlice emptySlice)))
           (failedLimit sj) w2
         = (Inr (Some err), w3)"
  then show "cleanUp e sj w0 = (Inr (Some err), w3)"
    by (auto simp: cleanUp_def client_List_def split: prod.splits)
qed

theorem first_delete_failure_aborts_witness:
  "\<not> int (len \<lparr> elems = fiveCompleted, spare = [] \<rparr>) \<le> sint (0 :: int32)
   \<and> slice_upto \<lparr> elems = fiveCompleted, spare = [] \<rparr>
        (int (len \<lparr> elems = fiveCompleted, spare = [] \<rparr>) - sint (0 :: int32))
       = Inr ([mkJob ''a'' JobComplete (Some 1), mkJob ''b'' JobComplete (Some 2)]
              @ mkJob ''c'' JobComplete (Some 3)
              # [mkJob ''d'' JobComplete (Some 4), mkJob ''e'' JobComplete (Some 5)])
   \<and> deleteJobs_loop flakyExecutor [mkJob ''a'' JobComplete (Some 1), mkJob ''b'' JobComplete (Some 2)]
        (demoWorld fiveCompleted)
       = (None, \<lparr> remote = [mkJob ''c'' JobComplete (Some 3), mkJob ''d'' JobComplete (Some 4),
                             mkJob ''e'' JobComplete (Some 5)],
                  trace = [DeleteCall (mkJob ''a'' JobComplete (Some 1)),
                           DeleteCall (mkJob ''b'' JobComplete (Some 2))] \<rparr>)
   \<and> c_Delete flakyExecutor [mkJob ''c'' JobComplete (Some 3), mkJob ''d'' JobComplete (Some 4),
                             mkJob ''e'' JobComplete (Some 5)] (mkJob ''c'' JobComplete (Some 3))
       = (Some (Error ''conflict''), [mkJob ''c'' JobComplete (Some 3), mkJob ''d'' JobComplete (Some 4),
                             mkJob ''e'' JobComplete (Some 5)])
   \<and> deleteJobsWithHistoryLimit flakyExecutor \<lparr> elems = fiveCompleted, spare = [] \<rparr> 0
        (demoWorld fiveCompleted)
       = (Inr (Some (Error ''conflict'')),
          \<lparr> remote = [mkJob ''c'' JobComplete (Some 3), mkJob ''d'' JobComplete (Some 4),
                       mkJob ''e'' JobComplete (Some 5)],
            trace = [DeleteCall (mkJob ''a'' JobComplete (Some 1)),
                     DeleteCall (mkJob ''b'' JobComplete (Some 2)),
                     DeleteCall (mkJob ''c'' JobComplete (Some 3))] \<rparr>)
   \<and> cleanUp flakyExecutor (demoTarget \<lparr> SuccessfulJobsHistoryLimit := Some 0 \<rparr>)
        (demoWorld fiveCompleted)
       = (Inr (Some (Error ''conflict'')),
          \<lparr> remote = [mkJob ''c'' JobComplete (Some 3), mkJob ''d'' JobComplete (Some 4),
                       mkJob ''e'' JobComplete (Some 5)],
            trace = [ListCall ''n'' [(''scaledjob'', ''t'')],
                     DeleteCall (mkJob ''a'' JobComplete (Some 1)),
                     DeleteCall (mkJob ''b'' JobComplete (Some 2)),
                     DeleteCall (mkJob ''c'' JobComplete (Some 3))] \<rparr>)
   \<and> cleanUp flakyExecutor (demoTarget \<lparr> FailedJobsHistoryLimit := Some 0 \<rparr>)
        (demoWorld [mkJob ''x'' JobComplete (Some 1), mkJob ''c'' JobFailed None])
       = (Inr (Some (Error ''conflict'')),
          \<lparr> remote = [mkJob ''x'' JobComplete (Some 1), mkJob ''c'' JobFailed None],
            trace = [ListCall ''n'' [(''scaledjob'', ''t'')],
                     DeleteCall (mkJob ''c'' JobFailed None)] \<rparr>)"
proof -
  let ?a = "mkJob ''a'' JobComplete (Some 1)" and ?b = "mkJob ''b'' JobComplete (Some 2)"
  let ?c = "mkJob ''c'' JobComplete (Some 3)" and ?d = "mkJob ''d'' JobComplete (Some 4)"
  let ?e = "mkJob ''e'' JobComplete (Some 5)"
  let ?w1 = "\<lparr> remote = [?c, ?d, ?e], trace = [DeleteCall ?a, DeleteCall ?b] \<rparr>"
  let ?sjc = "demoTarget \<lparr> SuccessfulJobsHistoryLimit := Some 0 \<rparr>"
  let ?sjf = "demoTarget \<lparr> FailedJobsHistoryLimit := Some 0 \<rparr>"
  let ?x = "mkJob ''x'' JobComplete (Some 1)" and ?f = "mkJob ''c'' JobFailed None"
  have h1: "\<not> int (len \<lparr> elems = fiveCompleted, spare = [] \<rparr>) \<le> sint (0 :: int32)"
    by (simp add: len_def fiveCompleted_def)
  have h2: "slice_upto \<lparr> elems = fiveCompleted, spare = [] \<rparr>
        (int (len \<lparr> elems = fiveCompleted, spare = [] \<rparr>) - sint (0 :: int32))
       = Inr ([?a, ?b] @ ?c # [?d, ?e])"
    by (simp add: slice_upto_def len_def cap_def fiveCompleted_def)
  have h3: "deleteJobs_loop flakyExecutor [?a, ?b] (demoWorld fiveCompleted) = (None, ?w1)"
    by (simp add: demo_defs)
  have h4: "c_Delete flakyExecutor (remote ?w1) ?c = (Some (Error ''conflict''), [?c, ?d, ?e])"
    by (simp add: flakyExecutor_def)
  have l1: "c_List flakyExecutor (remote (demoWorld fiveCompleted)) (sj_Namespace ?sjc) (selector ?sjc)
      = (Inr fiveCompleted, fiveCompleted)"
    by (simp add: demo_defs)
  have b1: "deleteJobsWithHistoryLimit flakyExecutor
           (sortJobs flakyExecutor (fst (classify (growslice flakyExecutor) fiveCompleted emptySlice emptySlice)))
           (successfulLimit ?sjc)
           \<lparr> remote = fiveCompleted, trace = trace (demoWorld fiveCompleted)
                @ [ListCall (sj_Namespace ?sjc) (selector ?sjc)] \<rparr>
         = (Inr (Some (Error ''conflict'')),
            \<lparr> remote = [?c, ?d, ?e],
              trace = [ListCall ''n'' [(''scaledjob'', ''t'')], DeleteCall ?a, DeleteCall ?b, DeleteCall ?c] \<rparr>)"
    by (simp add: demo_defs)
  have l2: "c_List flakyExecutor (remote (demoWorld [?x, ?f])) (sj_Namespace ?sjf) (selector ?sjf)
      = (Inr [?x, ?f], [?x, ?f])"
    by (simp add: demo_defs)
  have b2: "deleteJobsWithHistoryLimit flakyExecutor
           (sortJobs flakyExecutor (fst (classify (growslice flakyExecutor) [?x, ?f] emptySlice emptySlice)))
           (successfulLimit ?sjf)
           \<lparr> remote = [?x, ?f], trace = trace (demoWorld [?x, ?f])
                @ [ListCall (sj_Namespace ?sjf) (selector ?sjf)] \<rparr>
         = (Inr None, \<lparr> remote = [?x, ?f], trace = [ListCall ''n'' [(''scaledjob'', ''t'')]] \<rparr>)"
    by (simp add: demo_defs)
  have b3: "deleteJobsWithHistoryLimit flakyExecutor
           (sortJobs flakyExecutor (snd (classify (growslice flakyExecutor) [?x, ?f] emptySlice emptySlice)))
           (failedLimit ?sjf)
           \<lparr> remote = [?x, ?f], trace = [ListCall ''n'' [(''scaledjob'', ''t'')]] \<rparr>
         = (Inr (Some (Error ''conflict'')),
            \<lparr> remote = [?x, ?f], trace = [ListCall ''n'' [(''scaledjob'', ''t'')], DeleteCall ?f] \<rparr>)"
    by (simp add: demo_defs)
  note t1 = first_delete_failure_aborts [of "\<lparr> elems = fiveCompleted, spare = [] \<rparr>" 0
      "[?a, ?b]" ?c "[?d, ?e]" flakyExecutor "demoWorld fiveCompleted" ?w1 "Error ''conflict''" "[?c, ?d, ?e]"
      "demoWorld fiveCompleted" ?sjc fiveCompleted fiveCompleted
      "\<lparr> remote = [?c, ?d, ?e],
              trace = [ListCall ''n'' [(''scaledjob'', ''t'')], DeleteCall ?a, DeleteCall ?b, DeleteCall ?c] \<rparr>"]
  note t2 = first_delete_failure_aborts [of "\<lparr> elems = fiveCompleted, spare = [] \<rparr>" 0
      "[?a, ?b]" ?c "[?d, ?e]" flakyExecutor "demoWorld fiveCompleted" ?w1 "Error ''conflict''" "[?c, ?d, ?e]"
      "demoWorld [?x, ?f]" ?sjf "[?x, ?f]" "[?x, ?f]"
      "\<lparr> remote = [?x, ?f], trace = [ListCall ''n'' [(''scaledjob'', ''t'')]] \<rparr>"
      "\<lparr> remote = [?x, ?f], trace = [ListCall ''n'' [(''scaledjob'', ''t'')], DeleteCall ?f] \<rparr>"]
  from t1 h1 h2 h3 h4 have c1: "deleteJobsWithHistoryLimit flakyExecutor \<lparr> elems = fiveCompleted, spare = [] \<rparr> 0
        (demoWorld fiveCompleted)
       = (Inr (Some (Error ''conflict'')),
          \<lparr> remote = [?c, ?d, ?e], trace = trace (demoWorld fiveCompleted) @ map DeleteCall ([?a, ?b] @ [?c]) \<rparr>)"
    by blast
  from t1 l1 b1 have c2: "cleanUp flakyExecutor ?sjc (demoWorld fiveCompleted)
       = (Inr (Some (Error ''conflict'')),
          \<lparr> remote = [?c, ?d, ?e],
              trace = [ListCall ''n'' [(''scaledjob'', ''t'')], DeleteCall ?a, DeleteCall ?b, DeleteCall ?c] \<rparr>)"
    by blast
  from t2 l2 b2 b3 have c3: "cleanUp flakyExecutor ?sjf (demoWorld [?x, ?f])
       = (Inr (Some (Error ''conflict'')),
          \<lparr> remote = [?x, ?f], trace = [ListCall ''n'' [(''scaledjob'', ''t'')], DeleteCall ?f] \<rparr>)"
    by blast
  from h1 h2 h3 h4 c1 c2 c3 show ?thesis
    by (simp add: demoWorld_def)
qed

subsection \<open>The restart policy\<close>

text \<open>
  C7. Every job that \<open>createJobs\<close> hands to Create has the restart policy \<open>OnFailure\<close>
  when the template of the target has none, and the restart policy of the template
  otherwise.
\<close>

theorem createJobs_restart_policy:
  "CreateCall job \<in> set (issued w (snd (createJobs e sj scaleTo maxScale w))) \<Longrightarrow>
     RestartPolicy (tpl_Spec (Template (job_Spec job))) =
       (if RestartPolicy (tpl_Spec (Template (JobTargetRef sj))) = [] then RestartPolicyOnFailure
        else RestartPolicy (tpl_Spec (Template (JobTargetRef sj))))"
  by (auto simp: createJobs_issued RestartPolicy_buildJob split: if_splits)

theorem createJobs_restart_policy_witness:
  "CreateCall (buildJob demoExecutor (stampTemplate demoTarget))
     \<in> set (issued (demoWorld []) (snd (createJobs demoExecutor demoTarget 1 1 (demoWorld []))))
   \<and> RestartPolicy (tpl_Spec (Template (job_Spec (buildJob demoExecutor (stampTemplate demoTarget)))))
       = ''OnFailure''
   \<and> CreateCall (buildJob demoExecutor (stampTemplate (demoTarget \<lparr> JobTargetRef :=
         \<lparr> Template = \<lparr> tpl_GenerateName = [], tpl_Labels = None,
              tpl_Spec = \<lparr> RestartPolicy = ''Never'', Containers = [] \<rparr> \<rparr>, BackoffLimit = None \<rparr> \<rparr>)))
     \<in> set (issued (demoWorld []) (snd (createJobs demoExecutor (demoTarget \<lparr> JobTargetRef :=
         \<lparr> Template = \<lparr> tpl_GenerateName = [], tpl_Labels = None,
              tpl_Spec = \<lparr> RestartPolicy = ''Never'', Containers = [] \<rparr> \<rparr>, BackoffLimit = None \<rparr> \<rparr>)
           1 1 (demoWorld []))))
   \<and> RestartPolicy (tpl_Spec (Template (job_Spec (buildJob demoExecutor (stampTemplate
        (demoTarget \<lparr> JobTargetRef :=
         \<lparr> Template = \<lparr> tpl_GenerateName = [], tpl_Labels = None,
              tpl_Spec = \<lparr> RestartPolicy = ''Never'', Containers = [] \<rparr> \<rparr>, BackoffLimit = None \<rparr> \<rparr>))))))
       = ''Never''"
  using createJobs_restart_policy [of "buildJob demoExecutor (stampTemplate demoTarget)"
      "demoWorld []" demoExecutor demoTarget 1 1]
    createJobs_restart_policy [of "buildJob demoExecutor (stampTemplate (demoTarget \<lparr> JobTargetRef :=
         \<lparr> Template = \<lparr> tpl_GenerateName = [], tpl_Labels = None,
              tpl_Spec = \<lparr> RestartPolicy = ''Never'', Containers = [] \<rparr> \<rparr>, BackoffLimit = None \<rparr> \<rparr>))"
      "demoWorld []" demoExecutor "demoTarget \<lparr> JobTargetRef :=
         \<lparr> Template = \<lparr> tpl_GenerateName = [], tpl_Labels = None,
              tpl_Spec = \<lparr> RestartPolicy = ''Never'', Containers = [] \<rparr> \<rparr>, BackoffLimit = None \<rparr> \<rparr>" 1 1]
  by (simp add: createJobs_issued demoTarget_def RestartPolicyOnFailure_def)

subsection \<open>A failed List\<close>

text \<open>
  C8. When List fails, \<open>getRunningJobCount\<close> returns 0 and \<open>cleanUp\<close> returns the error
  of List. \<open>cleanUp\<close> then does nothing else: the List call is the only call it issues,
  no Delete among them, and its result is the same whatever \<open>sort.Sort\<close> and the growth
  of \<open>append\<close> would have done.
\<close>

theorem list_failure:
  "c_List e (remote w) (sj_Namespace sj) (selector sj) = (Inl err, s') \<Longrightarrow>
     getRunningJobCount e sj maxScale w =
       (0, \<lparr> remote = s', trace = trace w @ [ListCall (sj_Namespace sj) (selector sj)] \<rparr>)
     \<and> cleanUp (e \<lparr> sort_Sort := srt, growslice := g \<rparr>) sj w =
       (Inr (Some err), \<lparr> remote = s', trace = trace w @ [ListCall (sj_Namespace sj) (selector sj)] \<rparr>)
     \<and> cleanUp e sj w =
       (Inr (Some err), \<lparr> remote = s', trace = trace w @ [ListCall (sj_Namespace sj) (selector sj)] \<rparr>)
     \<and> deleted (issued w (snd (cleanUp e sj w))) = []"
  by (simp add: getRunningJobCount_def cleanUp_def client_List_def)

theorem list_failure_witness:
  "c_List (demoExecutor \<lparr> c_List := (\<lambda>s ns sel. (Inl (Error ''timeout''), s)) \<rparr>)
      (remote (demoWorld [mkJob ''a'' JobComplete (Some 1), mkJob ''b'' JobComplete (Some 2)]))
      (sj_Namespace demoTarget) (selector demoTarget)
     = (Inl (Error ''timeout''), [mkJob ''a'' JobComplete (Some 1), mkJob ''b'' JobComplete (Some 2)])
   \<and> fst (getRunningJobCount (demoExecutor \<lparr> c_List := (\<lambda>s ns sel. (Inl (Error ''timeout''), s)) \<rparr>)
        demoTarget 5 (demoWorld [mkJob ''a'' JobComplete (Some 1), mkJob ''b'' JobComplete (Some 2)])) = 0
   \<and> fst (cleanUp (demoExecutor \<lparr> c_List := (\<lambda>s ns sel. (Inl (Error ''timeout''), s)) \<rparr>)
        demoTarget (demoWorld [mkJob ''a'' JobComplete (Some 1), mkJob ''b'' JobComplete (Some 2)]))
       = Inr (Some (Error ''timeout''))
   \<and> trace (snd (cleanUp (demoExecutor \<lparr> c_List := (\<lambda>s ns sel. (Inl (Error ''timeout''), s)) \<rparr>)
        demoTarget (demoWorld [mkJob ''a'' JobComplete (Some 1), mkJob ''b'' JobComplete (Some 2)])))
       = [ListCall ''n'' [(''scaledjob'', ''t'')]]"
  using list_failure [of "demoExecutor \<lparr> c_List := (\<lambda>s ns sel. (Inl (Error ''timeout''), s)) \<rparr>"
      "demoWorld [mkJob ''a'' JobComplete (Some 1), mkJob ''b'' JobComplete (Some 2)]" demoTarget
      "Error ''timeout''" "[mkJob ''a'' JobComplete (Some 1), mkJob ''b'' JobComplete (Some 2)]" 5]
  by (simp add: demoWorld_def demoTarget_def selector_def)

subsection \<open>The slice expression of deleteJobsWithHistoryLimit\<close>

text \<open>
  C9, as amended. For a history limit that is not negative, \<open>deleteJobsWithHistoryLimit\<close>
  never panics: when it slices at all, the bound \<open>len(jobs) - historyLimit\<close> lies between
  0 and \<open>len(jobs)\<close> and the slice holds listed jobs only. For a negative limit the bound
  exceeds \<open>len(jobs)\<close>, for every list, the empty one included. The slice expression is
  then out of range, and the function panics, exactly when the bound exceeds the
  capacity of the slice, so always when the slice has no spare capacity; when the
  capacity suffices, the loop ranges over all listed jobs and then over the elements of
  the backing array behind them. In the slices that \<open>cleanUp\<close> builds these are
  zero-valued jobs.
\<close>

theorem slice_bound:
  "(0 \<le> sint historyLimit \<longrightarrow>
       fst (deleteJobsWithHistoryLimit e jobs historyLimit w) \<noteq> Inl SliceBoundsOutOfRange
     \<and> (\<not> int (len jobs) \<le> sint historyLimit \<longrightarrow>
          0 \<le> int (len jobs) - sint historyLimit
        \<and> int (len jobs) - sint historyLimit \<le> int (len jobs)
        \<and> slice_upto jobs (int (len jobs) - sint historyLimit)
            = Inr (take (len jobs - nat (sint historyLimit)) (elems jobs))))
   \<and> (sint historyLimit < 0 \<longrightarrow>
       int (len jobs) < int (len jobs) - sint historyLimit
     \<and> (fst (deleteJobsWithHistoryLimit e jobs historyLimit w) = Inl SliceBoundsOutOfRange
          \<longleftrightarrow> int (cap jobs) < int (len jobs) - sint historyLimit)
     \<and> (cap jobs = len jobs \<longrightarrow>
          deleteJobsWithHistoryLimit e jobs historyLimit w = (Inl SliceBoundsOutOfRange, w))
     \<and> (int (len jobs) - sint historyLimit \<le> int (cap jobs) \<longrightarrow>
          slice_upto jobs (int (len jobs) - sint historyLimit)
            = Inr (elems jobs @ take (nat (- sint historyLimit)) (spare jobs))))
   \<and> (classify (growslice e) items emptySlice emptySlice = (completedJobs, failedJobs) \<longrightarrow>
         set (spare (sortJobs e completedJobs)) \<subseteq> {zeroJob}
       \<and> set (spare (sortJobs e failedJobs)) \<subseteq> {zeroJob})"
proof (intro conjI impI)
  assume k: "0 \<le> sint historyLimit"
  show "fst (deleteJobsWithHistoryLimit e jobs historyLimit w) \<noteq> Inl SliceBoundsOutOfRange"
    by (simp add: deleteJobsWithHistoryLimit_nonneg [OF k] split: prod.splits)
  assume n: "\<not> int (len jobs) \<le> sint historyLimit"
  from k n show h: "0 \<le> int (len jobs) - sint historyLimit"
    and h': "int (len jobs) - sint historyLimit \<le> int (len jobs)"
    by simp_all
  have "nat (int (len jobs) - sint historyLimit) = len jobs - nat (sint historyLimit)"
    using k by simp
  with slice_upto_within [OF h h']
  show "slice_upto jobs (int (len jobs) - sint historyLimit)
            = Inr (take (len jobs - nat (sint historyLimit)) (elems jobs))"
    by simp
next
  assume k: "sint historyLimit < 0"
  then show "int (len jobs) < int (len jobs) - sint historyLimit"
    by simp
  from k have n: "\<not> int (len jobs) \<le> sint historyLimit"
    by simp
  show "fst (deleteJobsWithHistoryLimit e jobs historyLimit w) = Inl SliceBoundsOutOfRange
          \<longleftrightarrow> int (cap jobs) < int (len jobs) - sint historyLimit"
    using n k by (auto simp: deleteJobsWithHistoryLimit_def Let_def slice_upto_def split: prod.splits)
  {
    assume "cap jobs = len jobs"
    with n k show "deleteJobsWithHistoryLimit e jobs historyLimit w = (Inl SliceBoundsOutOfRange, w)"
      by (simp add: deleteJobsWithHistoryLimit_def Let_def slice_upto_def)
  }
  {
    assume c: "int (len jobs) - sint historyLimit \<le> int (cap jobs)"
    have l: "int (len jobs) \<le> int (len jobs) - sint historyLimit"
      using k by simp
    have "nat (int (len jobs) - sint historyLimit) - len jobs = nat (- sint historyLimit)"
      using k by simp
    with slice_upto_beyond [OF l c]
    show "slice_upto jobs (int (len jobs) - sint historyLimit)
            = Inr (elems jobs @ take (nat (- sint historyLimit)) (spare jobs))"
      by simp
  }
next
  assume c: "classify (growslice e) items emptySlice emptySlice = (completedJobs, failedJobs)"
  have "set (spare (emptySlice :: Job slice)) \<subseteq> {zeroJob}"
    by (simp add: emptySlice_def)
  from classify_spare [OF c this this]
  show "set (spare (sortJobs e completedJobs)) \<subseteq> {zeroJob}"
    and "set (spare (sortJobs e failedJobs)) \<subseteq> {zeroJob}"
    by (simp_all add: sortJobs_def)
qed

theorem slice_bound_witness:
  "(0::int) \<le> sint (1 :: int32)
   \<and> \<not> int (len \<lparr> elems = [mkJob ''a'' JobComplete (Some 1), mkJob ''b'' JobComplete (Some 2)],
                     spare = [] \<rparr>) \<le> sint (1 :: int32)
   \<and> slice_upto \<lparr> elems = [mkJob ''a'' JobComplete (Some 1), mkJob ''b'' JobComplete (Some 2)],
                   spare = [] \<rparr> (2 - sint (1 :: int32))
       = Inr [mkJob ''a'' JobComplete (Some 1)]
   \<and> sint (- 1 :: int32) < 0
   \<and> cap \<lparr> elems = [mkJob ''a'' JobComplete (Some 1)], spare = [] \<rparr>
       = len \<lparr> elems = [mkJob ''a'' JobComplete (Some 1)], spare = [] \<rparr>
   \<and> deleteJobsWithHistoryLimit demoExecutor
        \<lparr> elems = [mkJob ''a'' JobComplete (Some 1)], spare = [] \<rparr> (- 1) (demoWorld [])
       = (Inl SliceBoundsOutOfRange, demoWorld [])
   \<and> int (len \<lparr> elems = [mkJob ''a'' JobComplete (Some 1)], spare = [zeroJob] \<rparr>) - sint (- 1 :: int32)
       \<le> int (cap \<lparr> elems = [mkJob ''a'' JobComplete (Some 1)], spare = [zeroJob] \<rparr>)
   \<and> slice_upto \<lparr> elems = [mkJob ''a'' JobComplete (Some 1)], spare = [zeroJob] \<rparr> 2
       = Inr [mkJob ''a'' JobComplete (Some 1), zeroJob]
   \<and> classify (growslice demoExecutor)
        [mkJob ''a'' JobComplete (Some 1), mkJob ''b'' JobComplete (Some 2),
         mkJob ''c'' JobComplete (Some 3)] emptySlice emptySlice
       = (\<lparr> elems = [mkJob ''a'' JobComplete (Some 1), mkJob ''b'' JobComplete (Some 2),
                     mkJob ''c'' JobComplete (Some 3)], spare = [zeroJob] \<rparr>,
          \<lparr> elems = [], spare = [] \<rparr>)
   \<and> set (spare (sortJobs demoExecutor
        \<lparr> elems = [mkJob ''a'' JobComplete (Some 1), mkJob ''b'' JobComplete (Some 2),
                     mkJob ''c'' JobComplete (Some 3)], spare = [zeroJob] \<rparr>)) \<subseteq> {zeroJob}"
proof -
  let ?a = "mkJob ''a'' JobComplete (Some 1)" and ?b = "mkJob ''b'' JobComplete (Some 2)"
  let ?c = "mkJob ''c'' JobComplete (Some 3)"
  have cl: "classify (growslice demoExecutor) [?a, ?b, ?c] emptySlice emptySlice
      = (\<lparr> elems = [?a, ?b, ?c], spare = [zeroJob] \<rparr>, \<lparr> elems = [], spare = [] \<rparr>)"
    by (simp add: demoExecutor_def emptySlice_def append_slice_def len_def)
  note t1 = slice_bound [of 1 demoExecutor "\<lparr> elems = [?a, ?b], spare = [] \<rparr>" "demoWorld []"
      "[?a, ?b, ?c]" "\<lparr> elems = [?a, ?b, ?c], spare = [zeroJob] \<rparr>" "\<lparr> elems = [], spare = [] \<rparr>"]
  note t2 = slice_bound [of "- 1" demoExecutor "\<lparr> elems = [?a], spare = [] \<rparr>" "demoWorld []"]
  note t3 = slice_bound [of "- 1" demoExecutor "\<lparr> elems = [?a], spare = [zeroJob] \<rparr>" "demoWorld []"]
  from t1 have s1: "slice_upto \<lparr> elems = [?a, ?b], spare = [] \<rparr> (2 - sint (1 :: int32)) = Inr [?a]"
    by (simp add: len_def)
  from t1 cl have s2: "set (spare (sortJobs demoExecutor \<lparr> elems = [?a, ?b, ?c], spare = [zeroJob] \<rparr>))
      \<subseteq> {zeroJob}"
    by blast
  from t2 have s3: "deleteJobsWithHistoryLimit demoExecutor \<lparr> elems = [?a], spare = [] \<rparr> (- 1) (demoWorld [])
       = (Inl SliceBoundsOutOfRange, demoWorld [])"
    by (simp add: len_def cap_def)
  from t3 have s4: "slice_upto \<lparr> elems = [?a], spare = [zeroJob] \<rparr> 2 = Inr [?a, zeroJob]"
    by (simp add: len_def cap_def)
  from s1 s2 s3 s4 cl show ?thesis
    by (simp add: len_def cap_def)
qed

text \<open>
  The claim as it was stated, "for a negative limit and a non-empty list the access is
  out of range", fails on a slice of one job with a capacity of two and a limit of -1:
  the job is deleted, then the delete of the zero-valued job behind it is attempted and
  refused, and the function returns that error. The same happens through \<open>cleanUp\<close>
  with three completed jobs and a limit of -1, where \<open>append\<close> has grown the slice to a
  capacity of four: all three jobs are deleted and no panic occurs.
\<close>

theorem negative_limit_without_panic:
  "sint (- 1 :: int32) < 0
   \<and> elems \<lparr> elems = [mkJob ''a'' JobComplete (Some 1)], spare = [zeroJob] \<rparr> \<noteq> []
   \<and> deleteJobsWithHistoryLimit demoExecutor
        \<lparr> elems = [mkJob ''a'' JobComplete (Some 1)], spare = [zeroJob] \<rparr> (- 1)
        (demoWorld [mkJob ''a'' JobComplete (Some 1)])
      = (Inr (Some (Error ''resource name may not be empty'')),
         \<lparr> remote = [], trace = [DeleteCall (mkJob ''a'' JobComplete (Some 1)), DeleteCall zeroJob] \<rparr>)
   \<and> successfulLimit (demoTarget \<lparr> SuccessfulJobsHistoryLimit := Some (- 1) \<rparr>) = - 1
   \<and> cleanUp demoExecutor (demoTarget \<lparr> SuccessfulJobsHistoryLimit := Some (- 1) \<rparr>)
      (demoWorld [mkJob ''a'' JobComplete (Some 1), mkJob ''b'' JobComplete (Some 2),
                  mkJob ''c'' JobComplete (Some 3)])
   = (Inr (Some (Error ''resource name may not be empty'')),
      \<lparr> remote = [],
        trace = [ListCall ''n'' [(''scaledjob'', ''t'')],
                 DeleteCall (mkJob ''a'' JobComplete (Some 1)),
                 DeleteCall (mkJob ''b'' JobComplete (Some 2)),
                 DeleteCall (mkJob ''c'' JobComplete (Some 3)),
                 DeleteCall zeroJob] \<rparr>)"
  by (simp add: demo_defs)

subsection \<open>The running count and the ceiling\<close>

text \<open>
  C10. \<open>getRunningJobCount\<close> does not use \<open>maxScale\<close>: two calls that differ only in it
  return the same count (and the same world), so the count is not capped by the ceiling.
  When List succeeds the count is the number of listed jobs that have no \<open>Complete\<close> or
  \<open>Failed\<close> condition of status \<open>True\<close>, as a 64-bit word, whose signed value is that
  number for every list of fewer than \<open>2^63\<close> jobs.
\<close>

theorem getRunningJobCount_ignores_maxScale:
  "getRunningJobCount e sj m1 w = getRunningJobCount e sj m2 w
   \<and> (c_List e (remote w) (sj_Namespace sj) (selector sj) = (Inr items, s') \<longrightarrow>
        fst (getRunningJobCount e sj m1 w) =
          of_nat (length (filter (\<lambda>j. \<not> (\<exists>c \<in> set (Conditions (job_Status j)).
             (cond_Type c = JobComplete \<or> cond_Type c = JobFailed) \<and> cond_Status c = ConditionTrue)) items))
        \<and> (length items < 2 ^ 63 \<longrightarrow>
             sint (fst (getRunningJobCount e sj m1 w)) =
               int (length (filter (\<lambda>j. \<not> (\<exists>c \<in> set (Conditions (job_Status j)).
                 (cond_Type c = JobComplete \<or> cond_Type c = JobFailed) \<and> cond_Status c = ConditionTrue)) items))))"
proof -
  let ?run = "\<lambda>j. \<not> (\<exists>c \<in> set (Conditions (job_Status j)).
             (cond_Type c = JobComplete \<or> cond_Type c = JobFailed) \<and> cond_Status c = ConditionTrue)"
  have same: "getRunningJobCount e sj m1 w = getRunningJobCount e sj m2 w"
    by (simp add: getRunningJobCount_def)
  have f: "filter (\<lambda>j. \<not> isJobFinished j) items = filter ?run items"
    by (simp add: isJobFinished_def isFinished_conds_iff)
  have cnt: "fst (getRunningJobCount e sj m1 w) = of_nat (length (filter ?run items))"
    if "c_List e (remote w) (sj_Namespace sj) (selector sj) = (Inr items, s')"
    using that by (simp add: getRunningJobCount_def client_List_def countRunning_eq f)
  have "sint (of_nat (length (filter ?run items)) :: int64) = int (length (filter ?run items))"
    if "length items < 2 ^ 63"
    by (rule sint_of_nat_small) (rule le_less_trans [OF length_filter_le that])
  with same cnt show ?thesis by simp
qed

theorem getRunningJobCount_ignores_maxScale_witness:
  "getRunningJobCount demoExecutor demoTarget 1
       (demoWorld [mkJob ''a'' [] None, mkJob ''b'' JobComplete (Some 1), mkJob ''c'' JobFailed None, mkJob ''d'' [] None])
     = getRunningJobCount demoExecutor demoTarget 100
       (demoWorld [mkJob ''a'' [] None, mkJob ''b'' JobComplete (Some 1), mkJob ''c'' JobFailed None, mkJob ''d'' [] None])
   \<and> fst (getRunningJobCount demoExecutor demoTarget 1
       (demoWorld [mkJob ''a'' [] None, mkJob ''b'' JobComplete (Some 1), mkJob ''c'' JobFailed None, mkJob ''d'' [] None]))
     = 2
   \<and> sint (fst (getRunningJobCount demoExecutor demoTarget 1
       (demoWorld [mkJob ''a'' [] None, mkJob ''b'' JobComplete (Some 1), mkJob ''c'' JobFailed None, mkJob ''d'' [] None])))
     = 2"
proof -
  let ?items = "[mkJob ''a'' [] None, mkJob ''b'' JobComplete (Some 1), mkJob ''c'' JobFailed None, mkJob ''d'' [] None]"
  have l: "c_List demoExecutor (remote (demoWorld ?items)) (sj_Namespace demoTarget) (selector demoTarget)
      = (Inr ?items, ?items)"
    by (simp add: demoExecutor_def demoWorld_def)
  have f: "filter (\<lambda>j. \<not> (\<exists>c \<in> set (Conditions (job_Status j)).
             (cond_Type c = JobComplete \<or> cond_Type c = JobFailed) \<and> cond_Status c = ConditionTrue)) ?items
      = [mkJob ''a'' [] None, mkJob ''d'' [] None]"
    by (simp add: mkJob_def zeroJob_def JobComplete_def JobFailed_def)
  note t = getRunningJobCount_ignores_maxScale
    [of demoExecutor demoTarget 1 "demoWorld ?items" 100 ?items ?items, unfolded f]
  from t have same: "getRunningJobCount demoExecutor demoTarget 1 (demoWorld ?items)
      = getRunningJobCount demoExecutor demoTarget 100 (demoWorld ?items)"
    by (rule conjunct1)
  note c = conjunct2 [OF t, THEN mp, OF l]
  from c have cnt: "fst (getRunningJobCount demoExecutor demoTarget 1 (demoWorld ?items)) = 2"
    by simp
  from c have "sint (fst (getRunningJobCount demoExecutor demoTarget 1 (demoWorld ?items))) = 2"
    by simp
  with same cnt show ?thesis
    by (intro conjI)
qed

end
